(* ===== verification/Prelude.thy ===== *)
theory Prelude
  imports
    "HOL-Library.Finite_Map"
    "HOL-Library.List_Lexorder"
    "HOL-Library.Char_ord"
    "HOL-Library.Sublist"
    "HOL-Library.Multiset"
begin

text \<open>
  Shared vocabulary of the development.

  \<^item> Go values: \<open>[]byte\<close> and \<open>string\<close> are both HOL \<open>string\<close> (a list of bytes), ordered
    byte-wise like Go's \<open><\<close> on strings; \<open>time.Time\<close> and \<open>time.Duration\<close> are \<open>int\<close>
    nanoseconds, with 0 the zero time; \<open>int64\<close> counters are \<open>int\<close>.
  \<^item> Programs that talk to the storage port are values of the type \<open>io\<close>: a state, a script of
    backend faults, and a result that is either an error or a value.  The script decides for each
    backend call whether it succeeds, fails without effect, or takes effect and still reports an
    error.  A process crash at some call is the script that fails from that call on.
  \<^item> \<open>wp m Q E d\<close> says that from the durable state \<open>d\<close> and under EVERY fault script the program
    \<open>m\<close> ends in \<open>Q\<close> when it returns a value and in \<open>E\<close> when it returns an error.
\<close>

named_theorems wp_intro \<open>introduction rules for the fault-quantified precondition calculus\<close>
named_theorems typing \<open>which programs keep every record of the type of its collection\<close>
named_theorems frame \<open>which part of the state an operation leaves alone\<close>

type_synonym time = int
type_synonym duration = int

section \<open>Programs with backend faults\<close>

datatype fault = Pass | FailBefore | FailAfter

type_synonym ('d, 'e, 'a) io = "'d \<times> fault list \<Rightarrow> ('e + 'a) \<times> ('d \<times> fault list)"

definition ret :: "'a \<Rightarrow> ('d, 'e, 'a) io" where
  "ret a s = (Inr a, s)"

definition throw :: "'e \<Rightarrow> ('d, 'e, 'a) io" where
  "throw e s = (Inl e, s)"

definition bindM :: "('d, 'e, 'a) io \<Rightarrow> ('a \<Rightarrow> ('d, 'e, 'b) io) \<Rightarrow> ('d, 'e, 'b) io" where
  "bindM m f s = (case m s of (Inl e, s') \<Rightarrow> (Inl e, s') | (Inr a, s') \<Rightarrow> f a s')"

abbreviation thenM :: "('d, 'e, 'a) io \<Rightarrow> ('d, 'e, 'b) io \<Rightarrow> ('d, 'e, 'b) io" where
  "thenM m m' \<equiv> bindM m (\<lambda>_. m')"

text \<open>\<open>attempt m\<close> is Go's \<open>v, err := m()\<close>: the error becomes a value the caller inspects.\<close>

definition attempt :: "('d, 'e, 'a) io \<Rightarrow> ('d, 'e, 'e + 'a) io" where
  "attempt m s = (case m s of (r, s') \<Rightarrow> (Inr r, s'))"

text \<open>
  One backend call: the pure effect \<open>f\<close>, subject to the next decision of the script.  \<open>g\<close> is what a
  call leaves behind when it takes effect but still reports an error.
\<close>

definition backend :: "'e \<Rightarrow> ('d \<Rightarrow> 'a \<times> 'd) \<Rightarrow> ('d \<Rightarrow> 'd) \<Rightarrow> ('d, 'e, 'a) io" where
  "backend e f g s = (case s of (d, fs) \<Rightarrow>
     (case fs of
        [] \<Rightarrow> (Inr (fst (f d)), (snd (f d), []))
      | Pass # fs' \<Rightarrow> (Inr (fst (f d)), (snd (f d), fs'))
      | FailBefore # fs' \<Rightarrow> (Inl e, (d, fs'))
      | FailAfter # fs' \<Rightarrow> (Inl e, (g d, fs'))))"

text \<open>A volatile (in-memory) effect never fails.\<close>

definition volatile :: "('d \<Rightarrow> 'a \<times> 'd) \<Rightarrow> ('d, 'e, 'a) io" where
  "volatile f s = (Inr (fst (f (fst s))), (snd (f (fst s)), snd s))"

fun forM :: "'x list \<Rightarrow> ('x \<Rightarrow> ('d, 'e, unit) io) \<Rightarrow> ('d, 'e, unit) io" where
  "forM [] f = ret ()"
| "forM (x # xs) f = thenM (f x) (forM xs f)"

fun foldMM :: "'x list \<Rightarrow> 'b \<Rightarrow> ('b \<Rightarrow> 'x \<Rightarrow> ('d, 'e, 'b) io) \<Rightarrow> ('d, 'e, 'b) io" where
  "foldMM [] b f = ret b"
| "foldMM (x # xs) b f = bindM (f b x) (\<lambda>b'. foldMM xs b' f)"

text \<open>\<open>_ = m()\<close>: run for effect, drop the error.\<close>

definition ignoring :: "('d, 'e, 'a) io \<Rightarrow> ('d, 'e, unit) io" where
  "ignoring m = bindM (attempt m) (\<lambda>_. ret ())"

subsection \<open>Program equations\<close>

lemma bindM_ret [simp]: "bindM (ret a) f = f a"
  by (rule ext) (simp add: bindM_def ret_def)

lemma bindM_throw [simp]: "bindM (throw e) f = throw e"
  by (rule ext) (simp add: bindM_def throw_def)

lemma bindM_assoc [simp]: "bindM (bindM m f) g = bindM m (\<lambda>a. bindM (f a) g)"
  by (rule ext) (simp add: bindM_def split: prod.splits sum.splits)

lemma attempt_ret [simp]: "attempt (ret a) = ret (Inr a)"
  by (rule ext) (simp add: attempt_def ret_def)

lemma attempt_throw [simp]: "attempt (throw e) = ret (Inl e)"
  by (rule ext) (simp add: attempt_def ret_def throw_def)

text \<open>Running without faults: the empty script.\<close>

lemma run_ret [simp]: "ret a (d, fs) = (Inr a, (d, fs))"
  by (simp add: ret_def)

lemma run_throw [simp]: "throw e (d, fs) = (Inl e, (d, fs))"
  by (simp add: throw_def)

lemma run_backend [simp]: "backend e f g (d, []) = (Inr (fst (f d)), (snd (f d), []))"
  by (simp add: backend_def)

lemma run_bindM_backend [simp]:
  "bindM (backend e f g) k (d, []) = k (fst (f d)) (snd (f d), [])"
  by (simp add: bindM_def)

lemma run_volatile [simp]: "volatile f (d, fs) = (Inr (fst (f d)), (snd (f d), fs))"
  by (simp add: volatile_def)

lemma run_bindM_volatile [simp]:
  "bindM (volatile f) k (d, fs) = k (fst (f d)) (snd (f d), fs)"
  by (simp add: bindM_def)

lemma run_bindM_attempt_backend [simp]:
  "bindM (attempt (backend e f g)) k (d, []) = k (Inr (fst (f d))) (snd (f d), [])"
  by (simp add: bindM_def attempt_def)

lemma run_bindM_value: "m s = (Inr a, s') \<Longrightarrow> bindM m f s = f a s'"
  by (simp add: bindM_def)

lemma run_bindM_error: "m s = (Inl e, s') \<Longrightarrow> bindM m f s = (Inl e, s')"
  by (simp add: bindM_def)

lemma run_attempt: "m s = (r, s') \<Longrightarrow> attempt m s = (Inr r, s')"
  by (simp add: attempt_def)

section \<open>Preconditions that hold under every fault script\<close>

definition wp :: "('d, 'e, 'a) io \<Rightarrow> ('a \<Rightarrow> 'd \<Rightarrow> bool) \<Rightarrow> ('e \<Rightarrow> 'd \<Rightarrow> bool) \<Rightarrow> 'd \<Rightarrow> bool" where
  "wp m Q E d = (\<forall>fs. case m (d, fs) of
      (Inr a, (d', _)) \<Rightarrow> Q a d' | (Inl e, (d', _)) \<Rightarrow> E e d')"

lemma wp_ret [simp]: "wp (ret a) Q E = Q a"
  by (rule ext) (simp add: wp_def ret_def)

lemma wp_throw [simp]: "wp (throw e) Q E = E e"
  by (rule ext) (simp add: wp_def throw_def)

lemma wp_backend [simp]:
  "wp (backend e f g) Q E d \<longleftrightarrow> Q (fst (f d)) (snd (f d)) \<and> E e d \<and> E e (g d)"
  (is "?l \<longleftrightarrow> ?r")
proof
  assume l: ?l
  have "case backend e f g (d, fs) of
      (Inr a, (d', _)) \<Rightarrow> Q a d' | (Inl e, (d', _)) \<Rightarrow> E e d'" for fs
    using l by (simp add: wp_def)
  from this [of "[]"] this [of "[FailBefore]"] this [of "[FailAfter]"] show ?r
    by (simp add: backend_def)
next
  assume ?r
  then show ?l
    by (auto simp: wp_def backend_def split: list.splits fault.splits)
qed

lemma wp_volatile [simp]: "wp (volatile f) Q E d \<longleftrightarrow> Q (fst (f d)) (snd (f d))"
  by (simp add: wp_def volatile_def)

lemma wp_attempt [simp]: "wp (attempt m) Q E d \<longleftrightarrow> wp m (\<lambda>a. Q (Inr a)) (\<lambda>e. Q (Inl e)) d"
proof -
  have "(case attempt m (d, fs) of (Inr a, (d', _)) \<Rightarrow> Q a d' | (Inl e, (d', _)) \<Rightarrow> E e d')
      = (case m (d, fs) of (Inr a, (d', _)) \<Rightarrow> Q (Inr a) d' | (Inl e, (d', _)) \<Rightarrow> Q (Inl e) d')"
    for fs
    by (cases "m (d, fs)") (simp add: attempt_def split: sum.splits)
  then show ?thesis by (simp add: wp_def)
qed

lemma wp_bindM [wp_intro]:
  assumes "wp m (\<lambda>a. wp (f a) Q E) E d"
  shows "wp (bindM m f) Q E d"
  unfolding wp_def
proof
  fix fs
  obtain r d' fs' where m: "m (d, fs) = (r, (d', fs'))"
    by (metis prod.exhaust)
  have "case r of Inr a \<Rightarrow> wp (f a) Q E d' | Inl e \<Rightarrow> E e d'"
    using spec [OF assms [unfolded wp_def [of m]], of fs] m by (simp split: sum.splits)
  then show "case bindM m f (d, fs) of
      (Inr a, (d', _)) \<Rightarrow> Q a d' | (Inl e, (d', _)) \<Rightarrow> E e d'"
    using m by (simp add: bindM_def wp_def split: sum.splits)
qed

text \<open>In front of a single backend call the rule is an equivalence, so the simplifier can use it.\<close>

lemma wp_bindM_backend [simp]:
  "wp (bindM (backend e f g) k) Q E d \<longleftrightarrow>
     wp (k (fst (f d))) Q E (snd (f d)) \<and> E e d \<and> E e (g d)"
  (is "?l \<longleftrightarrow> ?r")
proof
  assume l: ?l
  have *: "case bindM (backend e f g) k (d, fs) of
      (Inr a, (d', _)) \<Rightarrow> Q a d' | (Inl e, (d', _)) \<Rightarrow> E e d'" for fs
    using l by (simp add: wp_def)
  from * [of "[FailBefore]"] * [of "[FailAfter]"] have "E e d \<and> E e (g d)"
    by (simp add: backend_def bindM_def)
  moreover have "wp (k (fst (f d))) Q E (snd (f d))"
    unfolding wp_def
  proof
    fix fs
    show "case k (fst (f d)) (snd (f d), fs) of
        (Inr a, (d', _)) \<Rightarrow> Q a d' | (Inl e, (d', _)) \<Rightarrow> E e d'"
      using * [of "Pass # fs"] by (simp add: backend_def bindM_def)
  qed
  ultimately show ?r by simp
next
  assume ?r
  then show ?l by (intro wp_bindM) simp
qed

lemma wp_bindM_volatile [simp]:
  "wp (bindM (volatile f) k) Q E d \<longleftrightarrow> wp (k (fst (f d))) Q E (snd (f d))"
  by (simp add: wp_def)

lemma wp_mono:
  assumes "wp m Q E d" and "\<And>a d'. Q a d' \<Longrightarrow> Q' a d'" and "\<And>e d'. E e d' \<Longrightarrow> E' e d'"
  shows "wp m Q' E' d"
  using assms unfolding wp_def by (fastforce split: prod.splits sum.splits)

lemma wp_conj:
  "wp m Q E d \<Longrightarrow> wp m Q' E' d \<Longrightarrow> wp m (\<lambda>a d'. Q a d' \<and> Q' a d') (\<lambda>e d'. E e d' \<and> E' e d') d"
  unfolding wp_def by (fastforce split: prod.splits sum.splits)

lemma wp_ignoring [wp_intro]:
  "wp m (\<lambda>_. Q ()) (\<lambda>_. Q ()) d \<Longrightarrow> wp (ignoring m) Q E d"
  unfolding ignoring_def by (rule wp_bindM) simp

text \<open>A loop keeps an invariant of the state; when it ends early, its body says how.\<close>

lemma wp_forM_inv:
  assumes "I d"
    and "\<And>x d'. x \<in> set xs \<Longrightarrow> I d' \<Longrightarrow> wp (f x) (\<lambda>_. I) E d'"
  shows "wp (forM xs f) (\<lambda>_. I) E d"
  using assms
proof (induction xs arbitrary: d)
  case Nil
  then show ?case by simp
next
  case (Cons x xs)
  have "wp (f x) (\<lambda>_. wp (forM xs f) (\<lambda>_. I) E) E d"
    by (rule wp_mono [of _ "\<lambda>_. I" E]) (use Cons in auto)
  then show ?case by (simp add: wp_bindM)
qed

text \<open>Reading a fault-quantified statement back on one run of the program.\<close>

lemma wp_value:
  "wp m Q E d \<Longrightarrow> m (d, fs) = (Inr a, (d', fs')) \<Longrightarrow> Q a d'"
  unfolding wp_def by (drule spec [of _ fs]) simp

lemma wp_error:
  "wp m Q E d \<Longrightarrow> m (d, fs) = (Inl e, (d', fs')) \<Longrightarrow> E e d'"
  unfolding wp_def by (drule spec [of _ fs]) simp

lemma wp_outcome:
  assumes "wp m (\<lambda>_. Q) (\<lambda>_. Q) d" and "m (d, fs) = (r, (d', fs'))"
  shows "Q d'"
  using assms unfolding wp_def by (auto dest: spec [of _ fs] split: sum.splits)

lemma wp_never: "wp m (\<lambda>_ _. False) E d \<Longrightarrow> fst (m (d, fs)) \<noteq> Inr a"
  unfolding wp_def by (drule spec [of _ fs]) (auto split: prod.splits)

lemma wp_never_value: "wp m (\<lambda>x d'. x \<noteq> a \<and> Q d') E d \<Longrightarrow> fst (m (d, fs)) \<noteq> Inr a"
  unfolding wp_def by (drule spec [of _ fs]) (auto split: prod.splits)

lemma wp_never_error: "wp m Q (\<lambda>e' _. e' \<noteq> e) d \<Longrightarrow> fst (m (d, fs)) \<noteq> Inl e"
  unfolding wp_def by (drule spec [of _ fs]) (auto split: prod.splits)

section \<open>Lists\<close>

lemma set_map_filter_iff: "y \<in> set (List.map_filter f xs) \<longleftrightarrow> (\<exists>x \<in> set xs. f x = Some y)"
  by (induction xs) (auto simp: List.map_filter_simps split: option.splits)

lemma sorted_desc_strict:
  "distinct xs \<Longrightarrow> sorted_wrt (\<ge>) xs \<Longrightarrow> sorted_wrt (>) (xs :: 'a::linorder list)"
  by (induction xs) (auto simp: order.strict_iff_order)

section \<open>Sorted association lists\<close>

text \<open>A list of pairs with strictly increasing keys is determined by its lookup function.\<close>

lemma sorted_assoc_unique:
  assumes "sorted (map fst xs)" and "distinct (map fst xs)"
    and "sorted (map fst ys)" and "distinct (map fst ys)"
    and "map_of xs = map_of ys"
  shows "xs = (ys :: ('k::linorder \<times> 'v) list)"
proof -
  have k: "map fst xs = map fst ys"
    using assms by (intro sorted_distinct_set_unique) (auto simp flip: dom_map_of_conv_image_fst)
  have m: "zs = map (\<lambda>k. (k, the (map_of zs k))) (map fst zs)" if "distinct (map fst zs)" 
    for zs :: "('k \<times> 'v) list"
    unfolding map_map by (rule map_idI [symmetric]) (use that in auto)
  show ?thesis
    using m [OF assms(2)] m [OF assms(4)] k assms(5) by metis
qed

end
