(* ===== verification/Store_Types.thy ===== *)
theory Store_Types
  imports Prelude Sha256
begin

text \<open>
  The value types of the controller's store (\<^verbatim>\<open>internal/controller/store.go\<close>): one \<open>record\<close> per
  struct, with the field names of the source behind a short prefix that names the struct, and the
  sentinel errors as a datatype.  A Go map is a finite map; a nil slice or map is the empty one; a
  pointer that may be nil is an \<open>option\<close>.
\<close>

section \<open>Errors\<close>

text \<open>
  The sentinels of \<^verbatim>\<open>store.go\<close>.  \<open>ErrIncompleteStagedSet\<close> always travels wrapped together with
  \<open>ErrNoStagedBundle\<close> (\<^verbatim>\<open>incompleteStagedSet\<close>).  \<open>ErrIO\<close> is any backend failure, \<open>ErrParse\<close> an
  undecodable or misfiled record, \<open>ErrArg\<close> a rejected argument, \<open>ErrCtx\<close> a cancelled context;
  \<open>ErrOther\<close> are the remaining untyped errors, by the text the code gives them.
\<close>

datatype err =
    ErrNotFound
  | ErrNoStagedBundle
  | ErrIncompleteStagedSet
  | ErrTokenInvalid
  | ErrTokenConsumed
  | ErrChallengeInvalid
  | ErrOperatorCredentialChanged
  | ErrLoginCredentialChanged
  | ErrTopologyChanged
  | ErrTOTPStateChanged
  | ErrPendingKeystoneTransitionConflict
  | ErrKeystoneAuditRequired
  | ErrUncommittedPromotion
  | ErrDuplicateWGKey
  | ErrInvalidWGKey
  | ErrNodeRevoked
  | ErrNoPinnedCredential
  | ErrNoStagedManifest
  | ErrStagedManifestMismatch
  | ErrManifestSignatureInvalid
  | ErrIO
  | ErrParse
  | ErrArg
  | ErrCtx
  | ErrOther string

text \<open>\<^verbatim>\<open>errors.Is(err, ErrNoStagedBundle)\<close> sees through the wrapping of an incomplete staged set.\<close>

definition is_no_staged_bundle :: "err \<Rightarrow> bool" where
  "is_no_staged_bundle e \<longleftrightarrow> e = ErrNoStagedBundle \<or> e = ErrIncompleteStagedSet"

section \<open>Registry\<close>

datatype node_status = NodeUnset | NodePending | NodeApproved | NodeRevoked

record condition =
  cType :: string
  cStatus :: string
  cReason :: string
  cMessage :: string
  cSince :: string

record node_condition =
  ncCondition :: condition
  ncObservedAt :: time

type_synonym metrics = "(string, string) fmap"

record node =
  nNodeID :: string
  nWGPublicKey :: string
  nAPITokenHash :: string
  nStatus :: node_status
  nDesiredGeneration :: int
  nAppliedGeneration :: int
  nLastChecksum :: string
  nLastHealth :: string
  nLastAgentVersion :: string
  nConditions :: "node_condition list"
  nTelemetry :: metrics
  nLastSeen :: time
  nEnrolledAt :: time
  nRekeyRequested :: bool

definition maxStoredConditions :: nat where
  "maxStoredConditions = 64"

definition stampConditions :: "condition list \<Rightarrow> time \<Rightarrow> node_condition list" where
  "stampConditions conditions observedAt =
     map (\<lambda>c. \<lparr>ncCondition = c, ncObservedAt = observedAt\<rparr>) (take maxStoredConditions conditions)"

section \<open>Topology and bundles\<close>

record topology_record =
  tVersion :: int
  tJSON :: string
  tUpdatedAt :: time

definition TopologyHistoryLimit :: int where
  "TopologyHistoryLimit = 10"

record topology_version_info =
  tviVersion :: int
  tviUpdatedAt :: time
  tviBytes :: nat

record signed_bundle =
  bNodeID :: string
  bGeneration :: int
  bFiles :: "(string, string) fmap"
  bIsStaged :: bool
  bIsCurrent :: bool
  bCreatedAt :: time

section \<open>Audit, keystone and trust list\<close>

record audit_entry =
  aSeq :: int
  aTimestamp :: time
  aActor :: string
  aAction :: string
  aNodeID :: string
  aEventID :: string
  aPrevHash :: string
  aHash :: string

record operator_credential =
  ocAlg :: string
  ocCredentialID :: string
  ocPublicKeyPEM :: string
  ocRPID :: string
  ocOrigin :: string

record pending_keystone_transition =
  ptExpected :: "operator_credential option"
  ptNext :: operator_credential
  ptAudit :: audit_entry

record stored_trust_list =
  tlTrustListJSON :: string
  tlSignatureJSON :: string
  tlEpoch :: int
  tlPromotedGeneration :: int

record staged_set =
  ssGeneration :: int
  ssBundles :: "signed_bundle list"
  ssTrustList :: "stored_trust_list option"

record staged_set_seal =
  sealGeneration :: int
  sealNodeIDs :: "string list"
  sealHistorical :: bool
  sealHasTrustList :: bool
  sealTrustListSHA256 :: string
  sealTrustListEpoch :: int

record served_config =
  scBundle :: signed_bundle
  scKeystoneOn :: bool
  scTrustList :: stored_trust_list
  scHasTrustList :: bool

definition zeroTrustList :: stored_trust_list where
  "zeroTrustList =
     \<lparr>tlTrustListJSON = [], tlSignatureJSON = [], tlEpoch = 0, tlPromotedGeneration = 0\<rparr>"

section \<open>Tokens, operators and sessions\<close>

record enrollment_token =
  etTokenHash :: string
  etNodeID :: string
  etExpiresAt :: time
  etConsumedAt :: "time option"

record login_credential =
  lcAlg :: string
  lcCredentialID :: string
  lcPublicKeyPEM :: string
  lcRPID :: string
  lcOrigin :: string

record operator =
  opUsername :: string
  opPasswordHash :: string
  opCreatedAt :: time
  opUpdatedAt :: time
  opTOTPSecret :: string
  opTOTPLastUsedStep :: int
  opLoginCredential :: "login_credential option"

definition TOTPEnabled :: "operator \<Rightarrow> bool" where
  "TOTPEnabled o1 \<longleftrightarrow> opTOTPSecret o1 \<noteq> []"

definition PasskeyEnabled :: "operator \<Rightarrow> bool" where
  "PasskeyEnabled o1 \<longleftrightarrow> opLoginCredential o1 \<noteq> None"

record totp_state =
  tsSecret :: string
  tsLastUsedStep :: int

record assertion_challenge =
  acChallengeHash :: string
  acSubject :: string
  acExpiresAt :: time

record session =
  seTokenHash :: string
  seOperator :: string
  seCreatedAt :: time
  seExpiresAt :: time

record artifact =
  arAsset :: string
  arSHA256 :: string

record mimic_deb_pin =
  mdAsset :: string
  mdSHA256 :: string
  mdDKMSAsset :: string
  mdDKMSSHA256 :: string

record controller_settings =
  csPublicAgentURL :: string
  csGithubProxy :: string
  csAgentReleaseBaseURL :: string
  csMimicVersion :: string
  csMimicReleaseBase :: string
  csMimicDebs :: "(string, mimic_deb_pin) fmap"
  csMimicFallbackDefault :: string
  csTargetAgentVersion :: string
  csMinAgentVersion :: string
  csAgentBins :: "(string, artifact) fmap"
  csAgentCanaryNodeIDs :: "string list"
  csAgentRolloutFleetWide :: bool
  csTranslucency :: "bool option"
  csTelemetryHistoryCap :: "int option"

definition DefaultTelemetryHistoryCap :: int where
  "DefaultTelemetryHistoryCap = 20160"

definition EffectiveHistoryCap :: "controller_settings \<Rightarrow> int" where
  "EffectiveHistoryCap cs =
     (case csTelemetryHistoryCap cs of None \<Rightarrow> DefaultTelemetryHistoryCap | Some n \<Rightarrow> n)"

record signing_anchor =
  saPubKeyPEM :: string

section \<open>The volatile telemetry overlay\<close>

record telemetry_sequence_cursor =
  tcHighestSequence :: nat
  tcLastSampledAt :: time
  tcLastReceivedAt :: time

record volatile_telemetry =
  vtWrittenAt :: time
  vtConditions :: "node_condition list"
  vtTelemetry :: metrics
  vtAgentVersion :: string
  vtTelemetrySet :: bool
  vtLastSeen :: time
  vtLastSeenSet :: bool
  vtSequenceCursors :: "(string, telemetry_sequence_cursor) fmap"
  vtRetiredBoots :: "(string, time) fmap"
  vtActiveBootID :: string
  vtActiveSampledAt :: time

text \<open>One observation handed to the retained history (\<^verbatim>\<open>telemetryHistory.appendMetrics\<close>).\<close>

record history_sample =
  hsNodeID :: string
  hsMetrics :: metrics
  hsAt :: time
  hsInterval :: duration

section \<open>Stored values\<close>

text \<open>
  A backend stores bytes.  \<open>kvval\<close> is what those bytes decode to: one constructor per record type,
  and \<open>VGarbage\<close> for bytes that do not decode.  \<open>as_\<dots>\<close> is \<^verbatim>\<open>json.Unmarshal\<close> into the given type.
\<close>

datatype kvval =
    VNode node
  | VBundle signed_bundle
  | VToken enrollment_token
  | VChallenge assertion_challenge
  | VAPIToken string
  | VOperator operator
  | VSession session
  | VTopology topology_record
  | VCredential operator_credential
  | VTransition pending_keystone_transition
  | VTrustList stored_trust_list
  | VSeal staged_set_seal
  | VSettings controller_settings
  | VAnchor signing_anchor
  | VGarbage string

fun as_node :: "kvval \<Rightarrow> node option" where
  "as_node (VNode n) = Some n" | "as_node _ = None"

fun as_bundle :: "kvval \<Rightarrow> signed_bundle option" where
  "as_bundle (VBundle b) = Some b" | "as_bundle _ = None"

fun as_token :: "kvval \<Rightarrow> enrollment_token option" where
  "as_token (VToken b) = Some b" | "as_token _ = None"

fun as_challenge :: "kvval \<Rightarrow> assertion_challenge option" where
  "as_challenge (VChallenge b) = Some b" | "as_challenge _ = None"

fun as_apitoken :: "kvval \<Rightarrow> string option" where
  "as_apitoken (VAPIToken b) = Some b" | "as_apitoken _ = None"

fun as_operator :: "kvval \<Rightarrow> operator option" where
  "as_operator (VOperator b) = Some b" | "as_operator _ = None"

fun as_session :: "kvval \<Rightarrow> session option" where
  "as_session (VSession b) = Some b" | "as_session _ = None"

fun as_topology :: "kvval \<Rightarrow> topology_record option" where
  "as_topology (VTopology b) = Some b" | "as_topology _ = None"

fun as_credential :: "kvval \<Rightarrow> operator_credential option" where
  "as_credential (VCredential b) = Some b" | "as_credential _ = None"

fun as_transition :: "kvval \<Rightarrow> pending_keystone_transition option" where
  "as_transition (VTransition b) = Some b" | "as_transition _ = None"

fun as_trustlist :: "kvval \<Rightarrow> stored_trust_list option" where
  "as_trustlist (VTrustList b) = Some b" | "as_trustlist _ = None"

fun as_seal :: "kvval \<Rightarrow> staged_set_seal option" where
  "as_seal (VSeal b) = Some b" | "as_seal _ = None"

fun as_settings :: "kvval \<Rightarrow> controller_settings option" where
  "as_settings (VSettings b) = Some b" | "as_settings _ = None"

fun as_anchor :: "kvval \<Rightarrow> signing_anchor option" where
  "as_anchor (VAnchor b) = Some b" | "as_anchor _ = None"

lemma as_eq_Some [simp]:
  "as_node v = Some n \<longleftrightarrow> v = VNode n"
  "as_bundle v = Some b \<longleftrightarrow> v = VBundle b"
  "as_token v = Some tok \<longleftrightarrow> v = VToken tok"
  "as_challenge v = Some ch \<longleftrightarrow> v = VChallenge ch"
  "as_apitoken v = Some ix \<longleftrightarrow> v = VAPIToken ix"
  "as_operator v = Some opr \<longleftrightarrow> v = VOperator opr"
  "as_session v = Some se \<longleftrightarrow> v = VSession se"
  "as_topology v = Some tr \<longleftrightarrow> v = VTopology tr"
  "as_credential v = Some cr \<longleftrightarrow> v = VCredential cr"
  "as_transition v = Some pt \<longleftrightarrow> v = VTransition pt"
  "as_trustlist v = Some sl \<longleftrightarrow> v = VTrustList sl"
  "as_seal v = Some seal \<longleftrightarrow> v = VSeal seal"
  "as_settings v = Some cs \<longleftrightarrow> v = VSettings cs"
  "as_anchor v = Some an \<longleftrightarrow> v = VAnchor an"
  by (cases v; auto)+

end
