(* ===== verification/KV_Port.thy ===== *)
theory KV_Port
  imports Store_Types
begin

text \<open>
  The storage port (\<^verbatim>\<open>internal/controller/kv.go\<close>) and its in-memory backend
  (\<^verbatim>\<open>memstore.go\<close>): per tenant a finite map per collection, the generation counter, the audit log,
  and beside them the volatile telemetry overlay and the observations handed to the retained history.
  The port calls go through \<open>backend\<close>, so that every one of them may fail before or after taking
  effect; the memory backend never does, the file backend may.  A method of the core runs under
  \<^verbatim>\<open>withLock\<close> from its first to its last port call, so a method is one atomic program here.
\<close>

section \<open>Collections and the tenant state\<close>

datatype coll =
    CollNodes | CollStaged | CollCurrent | CollTokens | CollLoginChal | CollAPITokens
  | CollOperators | CollSessions | CollTopoHistory | CollTopology | CollOperatorCred
  | CollKeystoneTransition | CollStagedTL | CollStagedTLHist | CollStagedSeal | CollServedTL
  | CollSettings | CollSigningAnchor

record mem_audit_log =
  malEntries :: "audit_entry list"
  malNextSeq :: int
  malLastHash :: string

record tenant_db =
  tdColls :: "coll \<Rightarrow> (string, kvval) fmap"
  tdGen :: int
  tdAudit :: mem_audit_log
  tdTelemetry :: "(string, volatile_telemetry) fmap"
  tdHistory :: "history_sample list"
  tdHistoryCap :: int

text \<open>The whole store, by \<^verbatim>\<open>TenantID\<close>.\<close>

type_synonym db = "string \<Rightarrow> tenant_db"

definition empty_tenant :: tenant_db where
  "empty_tenant = \<lparr>tdColls = (\<lambda>_. fmempty), tdGen = 0,
     tdAudit = \<lparr>malEntries = [], malNextSeq = 1, malLastHash = []\<rparr>,
     tdTelemetry = fmempty, tdHistory = [], tdHistoryCap = DefaultTelemetryHistoryCap\<rparr>"

definition empty_db :: db where
  "empty_db = (\<lambda>_. empty_tenant)"

section \<open>The pure effect of a port call\<close>

definition rec_at :: "db \<Rightarrow> string \<Rightarrow> coll \<Rightarrow> string \<Rightarrow> kvval option" where
  "rec_at d t c k = fmlookup (tdColls (d t) c) k"

definition put_rec :: "string \<Rightarrow> coll \<Rightarrow> string \<Rightarrow> kvval \<Rightarrow> db \<Rightarrow> db" where
  "put_rec t c k v d =
     d(t := (d t)\<lparr>tdColls := (tdColls (d t))(c := fmupd k v (tdColls (d t) c))\<rparr>)"

definition del_rec :: "string \<Rightarrow> coll \<Rightarrow> string \<Rightarrow> db \<Rightarrow> db" where
  "del_rec t c k d =
     d(t := (d t)\<lparr>tdColls := (tdColls (d t))(c := fmdrop k (tdColls (d t) c))\<rparr>)"

definition list_at :: "db \<Rightarrow> string \<Rightarrow> coll \<Rightarrow> (string \<times> kvval) list" where
  "list_at d t c = sorted_list_of_fmap (tdColls (d t) c)"

definition gen_at :: "db \<Rightarrow> string \<Rightarrow> int" where
  "gen_at d t = tdGen (d t)"

definition set_gen :: "string \<Rightarrow> int \<Rightarrow> db \<Rightarrow> db" where
  "set_gen t g d = d(t := (d t)\<lparr>tdGen := g\<rparr>)"

section \<open>Port calls\<close>

definition kv_get :: "string \<Rightarrow> coll \<Rightarrow> string \<Rightarrow> (db, err, kvval option) io" where
  "kv_get t c k = backend ErrIO (\<lambda>d. (rec_at d t c k, d)) (\<lambda>d. d)"

definition kv_put :: "string \<Rightarrow> coll \<Rightarrow> string \<Rightarrow> kvval \<Rightarrow> (db, err, unit) io" where
  "kv_put t c k v = backend ErrIO (\<lambda>d. ((), put_rec t c k v d)) (put_rec t c k v)"

definition kv_del :: "string \<Rightarrow> coll \<Rightarrow> string \<Rightarrow> (db, err, unit) io" where
  "kv_del t c k = backend ErrIO (\<lambda>d. ((), del_rec t c k d)) (del_rec t c k)"

definition kv_list :: "string \<Rightarrow> coll \<Rightarrow> (db, err, (string \<times> kvval) list) io" where
  "kv_list t c = backend ErrIO (\<lambda>d. (list_at d t c, d)) (\<lambda>d. d)"

definition kv_exists :: "string \<Rightarrow> coll \<Rightarrow> string \<Rightarrow> (db, err, bool) io" where
  "kv_exists t c k = backend ErrIO (\<lambda>d. (rec_at d t c k \<noteq> None, d)) (\<lambda>d. d)"

definition kv_generation :: "string \<Rightarrow> (db, err, int) io" where
  "kv_generation t = backend ErrIO (\<lambda>d. (gen_at d t, d)) (\<lambda>d. d)"

definition kv_setGeneration :: "string \<Rightarrow> int \<Rightarrow> (db, err, unit) io" where
  "kv_setGeneration t g = backend ErrIO (\<lambda>d. ((), set_gen t g d)) (set_gen t g)"

definition loadJSON :: "(kvval \<Rightarrow> 'a option) \<Rightarrow> string \<Rightarrow> coll \<Rightarrow> string \<Rightarrow> (db, err, 'a) io" where
  "loadJSON decode t c key =
     bindM (kv_get t c key) (\<lambda>raw.
       case raw of
         None \<Rightarrow> throw ErrNotFound
       | Some v \<Rightarrow> (case decode v of None \<Rightarrow> throw ErrParse | Some x \<Rightarrow> ret x))"

text \<open>
  The switch most methods put around \<^verbatim>\<open>loadJSON\<close>: a record, no record, or the error.
\<close>

definition loadOpt :: "(kvval \<Rightarrow> 'a option) \<Rightarrow> string \<Rightarrow> coll \<Rightarrow> string \<Rightarrow> (db, err, 'a option) io" where
  "loadOpt decode t c key =
     bindM (attempt (loadJSON decode t c key)) (\<lambda>r.
       case r of
         Inr x \<Rightarrow> ret (Some x)
       | Inl e \<Rightarrow> (if e = ErrNotFound then ret None else throw e))"

definition saveJSON :: "('a \<Rightarrow> kvval) \<Rightarrow> string \<Rightarrow> coll \<Rightarrow> string \<Rightarrow> 'a \<Rightarrow> (db, err, unit) io" where
  "saveJSON encode t c key x = kv_put t c key (encode x)"

text \<open>The decision \<open>loadOpt\<close> takes on the raw record.\<close>

definition read_opt :: "(kvval \<Rightarrow> 'a option) \<Rightarrow> kvval option \<Rightarrow> err + 'a option" where
  "read_opt decode raw =
     (case raw of None \<Rightarrow> Inr None
      | Some v \<Rightarrow> (case decode v of None \<Rightarrow> Inl ErrParse | Some x \<Rightarrow> Inr (Some x)))"

text \<open>\<^verbatim>\<open>ctx.Err()\<close> at the start of a method; \<open>ctx\<close> says whether the context is done.\<close>

definition ctxErr :: "bool \<Rightarrow> (db, err, unit) io" where
  "ctxErr ctx = (if ctx then throw ErrCtx else ret ())"

section \<open>The contract of a backend\<close>

text \<open>
  What the core relies on: reading back a write, independence of other keys, and a listing that is
  sorted by key and consistent with the point reads.
\<close>

locale kv_backend =
  fixes kget :: "'s \<Rightarrow> 't \<Rightarrow> 'c \<Rightarrow> 'k::linorder \<Rightarrow> 'v option"
    and kput :: "'t \<Rightarrow> 'c \<Rightarrow> 'k \<Rightarrow> 'v \<Rightarrow> 's \<Rightarrow> 's"
    and kdel :: "'t \<Rightarrow> 'c \<Rightarrow> 'k \<Rightarrow> 's \<Rightarrow> 's"
    and klist :: "'s \<Rightarrow> 't \<Rightarrow> 'c \<Rightarrow> ('k \<times> 'v) list"
  assumes get_put: "kget (kput t c k v s) t' c' k'
      = (if t' = t \<and> c' = c \<and> k' = k then Some v else kget s t' c' k')"
    and get_del: "kget (kdel t c k s) t' c' k'
      = (if t' = t \<and> c' = c \<and> k' = k then None else kget s t' c' k')"
    and list_get: "map_of (klist s t c) = kget s t c"
    and list_sorted: "sorted (map fst (klist s t c))"
    and list_distinct: "distinct (map fst (klist s t c))"
begin

lemma list_mem: "(k, v) \<in> set (klist s t c) \<longleftrightarrow> kget s t c k = Some v"
  using list_get list_distinct by (metis map_of_eq_Some_iff)

lemma list_keys: "k \<in> fst ` set (klist s t c) \<longleftrightarrow> kget s t c k \<noteq> None"
  by (simp add: list_get domIff flip: dom_map_of_conv_image_fst)

lemma list_cong:
  assumes "\<And>k. kget s t c k = kget s' t' c' k"
  shows "klist s t c = klist s' t' c'"
  by (rule sorted_assoc_unique) (auto simp: list_sorted list_distinct list_get assms)

lemma list_put_other: "t' \<noteq> t \<or> c' \<noteq> c \<Longrightarrow> klist (kput t c k v s) t' c' = klist s t' c'"
  by (rule list_cong) (auto simp: get_put)

lemma list_del_other: "t' \<noteq> t \<or> c' \<noteq> c \<Longrightarrow> klist (kdel t c k s) t' c' = klist s t' c'"
  by (rule list_cong) (auto simp: get_del)

lemma list_put_first:
  assumes "klist s t c = []"
  shows "klist (kput t c k v s) t c = [(k, v)]"
proof (rule sorted_assoc_unique)
  have "kget s t c k' = None" for k'
    using assms list_keys [of k' s t c] by auto
  then show "map_of (klist (kput t c k v s) t c) = map_of [(k, v)]"
    by (simp add: list_get get_put fun_eq_iff)
qed (simp_all add: list_sorted list_distinct)

lemma list_del: "klist (kdel t c k s) t c = filter (\<lambda>r. fst r \<noteq> k) (klist s t c)"
proof (rule sorted_assoc_unique)
  have "distinct (map fst (filter (\<lambda>r. fst r \<noteq> k) (klist s t c)))"
    by (simp add: distinct_map_filter list_distinct)
  then have "map_of (filter (\<lambda>r. fst r \<noteq> k) (klist s t c)) k' = kget (kdel t c k s) t c k'" for k'
    by (cases "kget (kdel t c k s) t c k'")
      (auto simp: map_of_eq_None_iff list_mem get_del split: if_splits)
  then show "map_of (klist (kdel t c k s) t c) = map_of (filter (\<lambda>r. fst r \<noteq> k) (klist s t c))"
    by (simp add: list_get fun_eq_iff)
qed (auto simp: list_sorted list_distinct sorted_filter distinct_map_filter)

end

lemma list_at_keys: "map fst (list_at d t c) = sorted_list_of_set (fset (fmdom (tdColls (d t) c)))"
  by (simp add: list_at_def sorted_list_of_fmap_def sorted_list_of_fset.rep_eq comp_def)

lemma map_of_list_at: "map_of (list_at d t c) = rec_at d t c"
  by (simp add: list_at_def rec_at_def map_of_sorted_list fun_eq_iff)

lemma rec_at_put_rec [simp]: "rec_at (put_rec t c k v d) t' c' k'
    = (if t' = t \<and> c' = c \<and> k' = k then Some v else rec_at d t' c' k')"
  by (simp add: rec_at_def put_rec_def)

lemma rec_at_del_rec [simp]: "rec_at (del_rec t c k d) t' c' k'
    = (if t' = t \<and> c' = c \<and> k' = k then None else rec_at d t' c' k')"
  by (simp add: rec_at_def del_rec_def)

lemma rec_at_other_coll [simp]:
  "t' \<noteq> t \<or> c' \<noteq> c \<Longrightarrow> rec_at (put_rec t c k v d) t' c' = rec_at d t' c'"
  "t' \<noteq> t \<or> c' \<noteq> c \<Longrightarrow> rec_at (del_rec t c k d) t' c' = rec_at d t' c'"
  by (auto simp: fun_eq_iff)

interpretation memkv: kv_backend rec_at put_rec del_rec list_at
  by unfold_locales (simp_all add: list_at_keys map_of_list_at)

lemmas list_at_simps [simp] = memkv.list_put_other memkv.list_del_other memkv.list_del memkv.list_put_first

lemma empty_db_simps [simp]:
  "rec_at empty_db t c k = None" "list_at empty_db t c = []" "gen_at empty_db t = 0"
  using list_at_keys [of empty_db t c]
  by (simp_all add: rec_at_def gen_at_def empty_db_def empty_tenant_def)

section \<open>Independence of the parts of the state\<close>

lemma gen_at_simps [simp]:
  "gen_at (put_rec t c k v d) = gen_at d"
  "gen_at (del_rec t c k d) = gen_at d"
  "gen_at (set_gen t g d) t' = (if t' = t then g else gen_at d t')"
  "rec_at (set_gen t g d) = rec_at d"
  "list_at (set_gen t g d) = list_at d"
  by (auto simp: gen_at_def put_rec_def del_rec_def set_gen_def rec_at_def list_at_def fun_eq_iff)

lemma tenant_simps [simp]:
  "tdAudit (put_rec t c k v d t') = tdAudit (d t')"
  "tdAudit (del_rec t c k d t') = tdAudit (d t')"
  "tdAudit (set_gen t g d t') = tdAudit (d t')"
  "tdTelemetry (put_rec t c k v d t') = tdTelemetry (d t')"
  "tdTelemetry (del_rec t c k d t') = tdTelemetry (d t')"
  "tdTelemetry (set_gen t g d t') = tdTelemetry (d t')"
  "tdHistory (put_rec t c k v d t') = tdHistory (d t')"
  "tdHistory (del_rec t c k d t') = tdHistory (d t')"
  "tdHistory (set_gen t g d t') = tdHistory (d t')"
  by (auto simp: put_rec_def del_rec_def set_gen_def)

lemma tenant_other [simp]:
  "t' \<noteq> t \<Longrightarrow> put_rec t c k v d t' = d t'"
  "t' \<noteq> t \<Longrightarrow> del_rec t c k d t' = d t'"
  "t' \<noteq> t \<Longrightarrow> set_gen t g d t' = d t'"
  by (auto simp: put_rec_def del_rec_def set_gen_def)

text \<open>Two stores with the same records list the same collections.\<close>

lemmas list_at_cong = memkv.list_cong
lemmas list_at_mem = memkv.list_mem

section \<open>Port calls under every fault script\<close>

lemmas kv_defs = kv_get_def kv_put_def kv_del_def kv_list_def kv_exists_def kv_generation_def
  kv_setGeneration_def

lemma wp_loadJSON [simp]:
  "wp (loadJSON decode t c key) Q E d \<longleftrightarrow> E ErrIO d \<and>
     (case rec_at d t c key of None \<Rightarrow> E ErrNotFound d
      | Some v \<Rightarrow> (case decode v of None \<Rightarrow> E ErrParse d | Some x \<Rightarrow> Q x d))"
  by (auto simp: loadJSON_def kv_defs split: option.splits)

lemma wp_bindM_loadJSON [simp]:
  "wp (bindM (loadJSON decode t c key) k) Q E d \<longleftrightarrow> E ErrIO d \<and>
     (case rec_at d t c key of None \<Rightarrow> E ErrNotFound d
      | Some v \<Rightarrow> (case decode v of None \<Rightarrow> E ErrParse d | Some x \<Rightarrow> wp (k x) Q E d))"
  by (auto simp: loadJSON_def kv_defs split: option.splits)

lemma run_loadJSON [simp]:
  "loadJSON decode t c key (d, []) =
     (case rec_at d t c key of None \<Rightarrow> (Inl ErrNotFound, (d, []))
      | Some v \<Rightarrow> (case decode v of None \<Rightarrow> (Inl ErrParse, (d, [])) | Some x \<Rightarrow> (Inr x, (d, []))))"
  by (simp add: loadJSON_def kv_defs split: option.splits)

lemma run_bindM_loadJSON [simp]:
  "bindM (loadJSON decode t c key) k (d, []) =
     (case rec_at d t c key of None \<Rightarrow> (Inl ErrNotFound, (d, []))
      | Some v \<Rightarrow> (case decode v of None \<Rightarrow> (Inl ErrParse, (d, [])) | Some x \<Rightarrow> k x (d, [])))"
  by (simp add: bindM_def split: option.splits)

text \<open>
  \<open>loadOpt\<close> is a single read with a result that may be an error, which makes its rules equivalences.
\<close>

lemma loadOpt_alt:
  "loadOpt decode t c key = bindM (kv_get t c key) (\<lambda>raw.
     case read_opt decode raw of Inl e \<Rightarrow> throw e | Inr x \<Rightarrow> ret x)"
proof (rule ext)
  fix s :: "db \<times> fault list"
  show "loadOpt decode t c key s = bindM (kv_get t c key) (\<lambda>raw.
     case read_opt decode raw of Inl e \<Rightarrow> throw e | Inr x \<Rightarrow> ret x) s"
    by (cases s) (auto simp: loadOpt_def loadJSON_def kv_get_def read_opt_def bindM_def attempt_def
        backend_def split: list.splits fault.splits option.splits)
qed

lemma wp_bindM_loadOpt [simp]:
  "wp (bindM (loadOpt decode t c key) k) Q E d \<longleftrightarrow> E ErrIO d \<and>
     (case rec_at d t c key of None \<Rightarrow> wp (k None) Q E d
      | Some v \<Rightarrow> (case decode v of None \<Rightarrow> E ErrParse d | Some x \<Rightarrow> wp (k (Some x)) Q E d))"
  by (auto simp: loadOpt_alt kv_defs read_opt_def split: option.splits)

lemma wp_loadOpt [simp]:
  "wp (loadOpt decode t c key) Q E d \<longleftrightarrow> E ErrIO d \<and>
     (case rec_at d t c key of None \<Rightarrow> Q None d
      | Some v \<Rightarrow> (case decode v of None \<Rightarrow> E ErrParse d | Some x \<Rightarrow> Q (Some x) d))"
  by (auto simp: loadOpt_alt kv_defs read_opt_def split: option.splits)

lemma run_bindM_loadOpt [simp]:
  "bindM (loadOpt decode t c key) k (d, []) =
     (case rec_at d t c key of None \<Rightarrow> k None (d, [])
      | Some v \<Rightarrow> (case decode v of None \<Rightarrow> (Inl ErrParse, (d, [])) | Some x \<Rightarrow> k (Some x) (d, [])))"
  by (auto simp: loadOpt_alt kv_defs read_opt_def split: option.splits)

lemma wp_saveJSON [simp]:
  "wp (saveJSON enc t c key x) Q E d \<longleftrightarrow>
     Q () (put_rec t c key (enc x) d) \<and> E ErrIO d \<and> E ErrIO (put_rec t c key (enc x) d)"
  by (simp add: saveJSON_def kv_defs)

lemma wp_bindM_saveJSON [simp]:
  "wp (bindM (saveJSON enc t c key x) k) Q E d \<longleftrightarrow>
     wp (k ()) Q E (put_rec t c key (enc x) d) \<and> E ErrIO d \<and> E ErrIO (put_rec t c key (enc x) d)"
  by (simp add: saveJSON_def kv_defs)

lemma run_saveJSON [simp]:
  "saveJSON enc t c key x (d, []) = (Inr (), (put_rec t c key (enc x) d, []))"
  "bindM (saveJSON enc t c key x) k (d, []) = k () (put_rec t c key (enc x) d, [])"
  by (simp_all add: saveJSON_def kv_defs)

lemma ctxErr_simps [simp]: "ctxErr False = ret ()" "ctxErr True = throw ErrCtx"
  by (simp_all add: ctxErr_def)

lemma wp_bindM_ctxErr [simp]:
  "wp (bindM (ctxErr ctx) k) Q E d \<longleftrightarrow> (if ctx then E ErrCtx d else wp (k ()) Q E d)"
  by (cases ctx) simp_all

lemma wp_kv [simp]:
  "wp (kv_get t c k) Q E d \<longleftrightarrow> Q (rec_at d t c k) d \<and> E ErrIO d"
  "wp (kv_list t c) Ql E d \<longleftrightarrow> Ql (list_at d t c) d \<and> E ErrIO d"
  "wp (kv_generation t) Qg E d \<longleftrightarrow> Qg (gen_at d t) d \<and> E ErrIO d"
  "wp (kv_put t c k v) Qu E d \<longleftrightarrow>
     Qu () (put_rec t c k v d) \<and> E ErrIO d \<and> E ErrIO (put_rec t c k v d)"
  "wp (kv_del t c k) Qu E d \<longleftrightarrow> Qu () (del_rec t c k d) \<and> E ErrIO d \<and> E ErrIO (del_rec t c k d)"
  "wp (kv_setGeneration t g) Qu E d \<longleftrightarrow>
     Qu () (set_gen t g d) \<and> E ErrIO d \<and> E ErrIO (set_gen t g d)"
  by (auto simp: kv_defs)

lemma wp_bindM_kv [simp]:
  "wp (bindM (kv_get t c k) f) Q E d \<longleftrightarrow> wp (f (rec_at d t c k)) Q E d \<and> E ErrIO d"
  "wp (bindM (kv_list t c) fl) Q E d \<longleftrightarrow> wp (fl (list_at d t c)) Q E d \<and> E ErrIO d"
  "wp (bindM (kv_generation t) fg) Q E d \<longleftrightarrow> wp (fg (gen_at d t)) Q E d \<and> E ErrIO d"
  "wp (bindM (kv_put t c k v) fu) Q E d \<longleftrightarrow>
     wp (fu ()) Q E (put_rec t c k v d) \<and> E ErrIO d \<and> E ErrIO (put_rec t c k v d)"
  "wp (bindM (kv_del t c k) fu) Q E d \<longleftrightarrow>
     wp (fu ()) Q E (del_rec t c k d) \<and> E ErrIO d \<and> E ErrIO (del_rec t c k d)"
  "wp (bindM (kv_setGeneration t g) fu) Q E d \<longleftrightarrow>
     wp (fu ()) Q E (set_gen t g d) \<and> E ErrIO d \<and> E ErrIO (set_gen t g d)"
  by (auto simp: kv_defs)

lemma run_kv [simp]:
  "kv_get t c k (d, []) = (Inr (rec_at d t c k), (d, []))"
  "kv_list t c (d, []) = (Inr (list_at d t c), (d, []))"
  "kv_generation t (d, []) = (Inr (gen_at d t), (d, []))"
  "kv_put t c k v (d, []) = (Inr (), (put_rec t c k v d, []))"
  "kv_del t c k (d, []) = (Inr (), (del_rec t c k d, []))"
  "kv_setGeneration t g (d, []) = (Inr (), (set_gen t g d, []))"
  by (simp_all add: kv_defs)

lemma run_bindM_kv [simp]:
  "bindM (kv_get t c k) f (d, []) = f (rec_at d t c k) (d, [])"
  "bindM (kv_list t c) fl (d, []) = fl (list_at d t c) (d, [])"
  "bindM (kv_generation t) fg (d, []) = fg (gen_at d t) (d, [])"
  "bindM (kv_put t c k v) fu (d, []) = fu () (put_rec t c k v d, [])"
  "bindM (kv_del t c k) fu (d, []) = fu () (del_rec t c k d, [])"
  "bindM (kv_setGeneration t g) fu (d, []) = fu () (set_gen t g d, [])"
  by (simp_all add: kv_defs)

end
