(* ===== verification/Frame.thy ===== *)
theory Frame
  imports KV_Port
begin

text \<open>
  What a store operation may touch, and what it may look at.  \<open>confined t R m\<close>: under every fault
  script \<open>m\<close> changes only the regions \<open>R\<close> of tenant \<open>t\<close>.  \<open>own t m\<close>: the result of \<open>m\<close> and what it
  leaves of tenant \<open>t\<close> depend on the state of tenant \<open>t\<close> only.  Both are closed under the program
  constructors, so an operation's footprint is read off its definition.
\<close>

datatype region = RColl coll | RGen | RAudit | RTelemetry | RCap

definition unchanged :: "string \<Rightarrow> region set \<Rightarrow> db \<Rightarrow> db \<Rightarrow> bool" where
  "unchanged t R d d' \<longleftrightarrow>
     (\<forall>t'. t' \<noteq> t \<longrightarrow> d' t' = d t') \<and>
     (\<forall>c. RColl c \<notin> R \<longrightarrow> tdColls (d' t) c = tdColls (d t) c) \<and>
     (RGen \<notin> R \<longrightarrow> tdGen (d' t) = tdGen (d t)) \<and>
     (RAudit \<notin> R \<longrightarrow> tdAudit (d' t) = tdAudit (d t)) \<and>
     (RTelemetry \<notin> R \<longrightarrow> tdTelemetry (d' t) = tdTelemetry (d t) \<and> tdHistory (d' t) = tdHistory (d t)) \<and>
     (RCap \<notin> R \<longrightarrow> tdHistoryCap (d' t) = tdHistoryCap (d t))"

definition confined :: "string \<Rightarrow> region set \<Rightarrow> (db, 'e, 'a) io \<Rightarrow> bool" where
  "confined t R m \<longleftrightarrow> (\<forall>d. wp m (\<lambda>_. unchanged t R d) (\<lambda>_. unchanged t R d) d)"

definition own :: "string \<Rightarrow> (db, 'e, 'a) io \<Rightarrow> bool" where
  "own t m \<longleftrightarrow> (\<forall>d1 d2 fs. d1 t = d2 t \<longrightarrow>
     (case (m (d1, fs), m (d2, fs)) of ((r1, (d1', fs1)), (r2, (d2', fs2))) \<Rightarrow>
        r1 = r2 \<and> d1' t = d2' t \<and> fs1 = fs2))"

text \<open>The type of the records of each collection; a record of another shape does not decode.\<close>

fun coll_ok :: "coll \<Rightarrow> kvval \<Rightarrow> bool" where
  "coll_ok CollNodes v = (as_node v \<noteq> None)"
| "coll_ok CollStaged v = (as_bundle v \<noteq> None)"
| "coll_ok CollCurrent v = (as_bundle v \<noteq> None)"
| "coll_ok CollTokens v = (as_token v \<noteq> None)"
| "coll_ok CollLoginChal v = (as_challenge v \<noteq> None)"
| "coll_ok CollAPITokens v = (as_apitoken v \<noteq> None)"
| "coll_ok CollOperators v = (as_operator v \<noteq> None)"
| "coll_ok CollSessions v = (as_session v \<noteq> None)"
| "coll_ok CollTopoHistory v = (as_topology v \<noteq> None)"
| "coll_ok CollTopology v = (as_topology v \<noteq> None)"
| "coll_ok CollOperatorCred v = (as_credential v \<noteq> None)"
| "coll_ok CollKeystoneTransition v = (as_transition v \<noteq> None)"
| "coll_ok CollStagedTL v = (as_trustlist v \<noteq> None)"
| "coll_ok CollStagedTLHist v = (as_trustlist v \<noteq> None)"
| "coll_ok CollStagedSeal v = (as_seal v \<noteq> None)"
| "coll_ok CollServedTL v = (as_trustlist v \<noteq> None)"
| "coll_ok CollSettings v = (as_settings v \<noteq> None)"
| "coll_ok CollSigningAnchor v = (as_anchor v \<noteq> None)"

definition typed :: "db \<Rightarrow> bool" where
  "typed d \<longleftrightarrow> (\<forall>t c k v. rec_at d t c k = Some v \<longrightarrow> coll_ok c v)"

definition keeps_types :: "(db, 'e, 'a) io \<Rightarrow> bool" where
  "keeps_types m \<longleftrightarrow> (\<forall>d. typed d \<longrightarrow> wp m (\<lambda>_. typed) (\<lambda>_. typed) d)"

section \<open>Footprints\<close>

lemma unchanged_refl [simp]: "unchanged t R d d"
  by (simp add: unchanged_def)

lemma unchanged_trans: "unchanged t R d d' \<Longrightarrow> unchanged t R d' d'' \<Longrightarrow> unchanged t R d d''"
  by (simp add: unchanged_def)

lemma unchanged_mono: "unchanged t R d d' \<Longrightarrow> R \<subseteq> R' \<Longrightarrow> unchanged t R' d d'"
  unfolding unchanged_def by blast

lemma unchanged_updates:
  "RColl c \<in> R \<Longrightarrow> unchanged t R d (put_rec t c k v d)"
  "RColl c \<in> R \<Longrightarrow> unchanged t R d (del_rec t c k d)"
  "RGen \<in> R \<Longrightarrow> unchanged t R d (set_gen t g d)"
  by (auto simp: unchanged_def put_rec_def del_rec_def set_gen_def)

lemma unchanged_rec_at: "unchanged t R d d' \<Longrightarrow> RColl c \<notin> R \<or> t' \<noteq> t \<Longrightarrow> rec_at d' t' c = rec_at d t' c"
  by (cases "t' = t") (auto simp: unchanged_def rec_at_def fun_eq_iff)

lemma unchanged_list_at: "unchanged t R d d' \<Longrightarrow> RColl c \<notin> R \<or> t' \<noteq> t \<Longrightarrow> list_at d' t' c = list_at d t' c"
  by (cases "t' = t") (auto simp: unchanged_def list_at_def)

lemma unchanged_gen_at: "unchanged t R d d' \<Longrightarrow> RGen \<notin> R \<or> t' \<noteq> t \<Longrightarrow> gen_at d' t' = gen_at d t'"
  by (cases "t' = t") (auto simp: unchanged_def gen_at_def)

lemma confinedI: "(\<And>d. wp m (\<lambda>_. unchanged t R d) (\<lambda>_. unchanged t R d) d) \<Longrightarrow> confined t R m"
  by (simp add: confined_def)

lemma confined_wp: "confined t R m \<Longrightarrow> wp m (\<lambda>_. unchanged t R d) (\<lambda>_. unchanged t R d) d"
  by (simp add: confined_def)

lemma confined_run: "confined t R m \<Longrightarrow> m (d, fs) = (r, (d', fs')) \<Longrightarrow> unchanged t R d d'"
  by (rule wp_outcome [OF confined_wp])

lemma confined_mono:
  assumes "confined t R m" and "R \<subseteq> R'"
  shows "confined t R' m"
  by (rule confinedI, rule wp_mono [OF confined_wp [OF assms(1)]])
    (use assms(2) in \<open>blast intro: unchanged_mono\<close>)+

lemma confined_ret [frame]: "confined t R (ret a)"
  by (simp add: confined_def)

lemma confined_throw [frame]: "confined t R (throw e)"
  by (simp add: confined_def)

lemma confined_bindM [frame]:
  assumes m: "confined t R m" and f: "\<And>a. confined t R (f a)"
  shows "confined t R (bindM m f)"
proof (rule confinedI)
  fix d
  have "wp (f a) (\<lambda>_. unchanged t R d) (\<lambda>_. unchanged t R d) d'" if "unchanged t R d d'" for a d'
    by (rule wp_mono [OF confined_wp [OF f]]) (use that in \<open>auto intro: unchanged_trans\<close>)
  then show "wp (bindM m f) (\<lambda>_. unchanged t R d) (\<lambda>_. unchanged t R d) d"
    by (intro wp_bindM wp_mono [OF confined_wp [OF m]])
qed

lemma confined_attempt [frame]: "confined t R m \<Longrightarrow> confined t R (attempt m)"
  by (simp add: confined_def)

lemma confined_ignoring [frame]: "confined t R m \<Longrightarrow> confined t R (ignoring m)"
  unfolding ignoring_def by (intro frame)

lemma confined_forM [frame]: "(\<And>x. confined t R (f x)) \<Longrightarrow> confined t R (forM xs f)"
  by (induction xs) (auto intro: frame)

lemma confined_foldMM [frame]: "(\<And>b x. confined t R (f b x)) \<Longrightarrow> confined t R (foldMM xs b f)"
  by (induction xs arbitrary: b) (auto intro: frame)

lemma confined_if [frame]: "confined t R m \<Longrightarrow> confined t R m' \<Longrightarrow> confined t R (if b then m else m')"
  by simp

lemma confined_case_option [frame]:
  "confined t R m \<Longrightarrow> (\<And>x. confined t R (f x)) \<Longrightarrow> confined t R (case o1 of None \<Rightarrow> m | Some x \<Rightarrow> f x)"
  by (simp split: option.splits)

lemma confined_case_sum [frame]:
  "(\<And>x. confined t R (f x)) \<Longrightarrow> (\<And>x. confined t R (g x)) \<Longrightarrow>
   confined t R (case s of Inl x \<Rightarrow> f x | Inr x \<Rightarrow> g x)"
  by (simp split: sum.splits)

lemma confined_case_prod [frame]: "(\<And>x y. confined t R (f x y)) \<Longrightarrow> confined t R (case p of (x, y) \<Rightarrow> f x y)"
  by (simp split: prod.splits)

lemma confined_volatile [frame]: "(\<And>d. unchanged t R d (snd (f d))) \<Longrightarrow> confined t R (volatile f)"
  by (simp add: confined_def)

lemma confined_kv [frame]:
  "confined t R (kv_get t' c k)"
  "confined t R (kv_list t' c)"
  "confined t R (kv_exists t' c k)"
  "confined t R (kv_generation t')"
  "RColl c \<in> R \<Longrightarrow> confined t R (kv_put t c k v)"
  "RColl c \<in> R \<Longrightarrow> confined t R (kv_del t c k)"
  "RGen \<in> R \<Longrightarrow> confined t R (kv_setGeneration t g)"
  by (simp_all add: confined_def kv_defs unchanged_updates)

lemma confined_json [frame]:
  "confined t R (loadJSON dec t' c k)"
  "confined t R (loadOpt dec t' c k)"
  "RColl c \<in> R \<Longrightarrow> confined t R (saveJSON enc t c k x)"
  "confined t R (ctxErr ctx)"
  by (auto simp: confined_def split: option.splits)
    (simp_all add: ctxErr_def unchanged_updates)

section \<open>Independence of other tenants\<close>

lemma ownI:
  assumes "\<And>d1 d2 fs r1 d1' fs1 r2 d2' fs2. d1 t = d2 t \<Longrightarrow> m (d1, fs) = (r1, (d1', fs1)) \<Longrightarrow>
     m (d2, fs) = (r2, (d2', fs2)) \<Longrightarrow> r1 = r2 \<and> d1' t = d2' t \<and> fs1 = fs2"
  shows "own t m"
  unfolding own_def
proof (intro allI impI)
  fix d1 d2 :: db and fs
  assume eq: "d1 t = d2 t"
  obtain r1 d1' fs1 r2 d2' fs2 where
    m: "m (d1, fs) = (r1, (d1', fs1))" "m (d2, fs) = (r2, (d2', fs2))"
    by (metis prod.exhaust)
  show "case (m (d1, fs), m (d2, fs)) of
      ((r1, d1', fs1), r2, d2', fs2) \<Rightarrow> r1 = r2 \<and> d1' t = d2' t \<and> fs1 = fs2"
    using assms [OF eq m] by (simp add: m)
qed

lemma ownD:
  "own t m \<Longrightarrow> d1 t = d2 t \<Longrightarrow> m (d1, fs) = (r1, (d1', fs1)) \<Longrightarrow> m (d2, fs) = (r2, (d2', fs2)) \<Longrightarrow>
   r1 = r2 \<and> d1' t = d2' t \<and> fs1 = fs2"
  unfolding own_def by (drule spec [of _ d1], drule spec [of _ d2], drule spec [of _ fs]) simp

lemma own_ret [frame]: "own t (ret a)"
  by (simp add: own_def)

lemma own_throw [frame]: "own t (throw e)"
  by (simp add: own_def)

lemma own_bindM [frame]:
  assumes m: "own t m" and f: "\<And>a. own t (f a)"
  shows "own t (bindM m f)"
proof (rule ownI)
  fix d1 d2 fs r1 d1' fs1 r2 d2' fs2
  assume eq: "d1 t = d2 t" and b1: "bindM m f (d1, fs) = (r1, (d1', fs1))"
    and b2: "bindM m f (d2, fs) = (r2, (d2', fs2))"
  obtain q1 e1 gs1 q2 e2 gs2 where m1: "m (d1, fs) = (q1, (e1, gs1))" and m2: "m (d2, fs) = (q2, (e2, gs2))"
    by (metis prod.exhaust)
  have q: "q1 = q2" "e1 t = e2 t" "gs1 = gs2"
    using ownD [OF m eq m1 m2] by auto
  show "r1 = r2 \<and> d1' t = d2' t \<and> fs1 = fs2"
  proof (cases q1)
    case (Inl e)
    then show ?thesis using b1 b2 m1 m2 q by (simp add: bindM_def)
  next
    case (Inr a)
    then have "f a (e1, gs1) = (r1, (d1', fs1))" "f a (e2, gs1) = (r2, (d2', fs2))"
      using b1 b2 m1 m2 q by (simp_all add: bindM_def)
    then show ?thesis using ownD [OF f [of a], of e1 e2] q(2) by blast
  qed
qed

lemma own_attempt [frame]:
  assumes "own t m"
  shows "own t (attempt m)"
proof (rule ownI)
  fix d1 d2 fs r1 d1' fs1 r2 d2' fs2
  assume "d1 t = d2 t" and "attempt m (d1, fs) = (r1, (d1', fs1))"
    and "attempt m (d2, fs) = (r2, (d2', fs2))"
  moreover obtain q1 q2 where "m (d1, fs) = (q1, (d1', fs1))" "m (d2, fs) = (q2, (d2', fs2))"
    "r1 = Inr q1" "r2 = Inr q2"
    using calculation by (cases "m (d1, fs)"; cases "m (d2, fs)") (simp add: attempt_def)
  ultimately show "r1 = r2 \<and> d1' t = d2' t \<and> fs1 = fs2"
    using ownD [OF assms, of d1 d2 fs q1 d1' fs1 q2 d2' fs2] by simp
qed

lemma own_ignoring [frame]: "own t m \<Longrightarrow> own t (ignoring m)"
  unfolding ignoring_def by (intro frame)

lemma own_forM [frame]: "(\<And>x. own t (f x)) \<Longrightarrow> own t (forM xs f)"
  by (induction xs) (auto intro: frame)

lemma own_foldMM [frame]: "(\<And>b x. own t (f b x)) \<Longrightarrow> own t (foldMM xs b f)"
  by (induction xs arbitrary: b) (auto intro: frame)

lemma own_if [frame]: "own t m \<Longrightarrow> own t m' \<Longrightarrow> own t (if b then m else m')"
  by simp

lemma own_case_option [frame]:
  "own t m \<Longrightarrow> (\<And>x. own t (f x)) \<Longrightarrow> own t (case o1 of None \<Rightarrow> m | Some x \<Rightarrow> f x)"
  by (simp split: option.splits)

lemma own_case_sum [frame]:
  "(\<And>x. own t (f x)) \<Longrightarrow> (\<And>x. own t (g x)) \<Longrightarrow> own t (case s of Inl x \<Rightarrow> f x | Inr x \<Rightarrow> g x)"
  by (simp split: sum.splits)

lemma own_case_prod [frame]: "(\<And>x y. own t (f x y)) \<Longrightarrow> own t (case p of (x, y) \<Rightarrow> f x y)"
  by (simp split: prod.splits)

lemma own_volatile [frame]:
  assumes "\<And>x y. x t = y t \<Longrightarrow> fst (f x) = fst (f y) \<and> snd (f x) t = snd (f y) t"
  shows "own t (volatile f :: (db, 'e, 'a) io)"
proof (rule ownI)
  fix x y fs x' fs1 y' fs2 and r1 r2 :: "'e + 'a"
  assume "x t = y t" and "volatile f (x, fs) = (r1, (x', fs1))" "volatile f (y, fs) = (r2, (y', fs2))"
  then show "r1 = r2 \<and> x' t = y' t \<and> fs1 = fs2"
    using assms [of x y] by auto
qed

lemma own_backend:
  assumes "\<And>x y. x t = y t \<Longrightarrow> fst (f x) = fst (f y) \<and> snd (f x) t = snd (f y) t \<and> g x t = g y t"
  shows "own t (backend e f g)"
proof (rule ownI)
  fix x y fs r1 x' fs1 r2 y' fs2
  assume "x t = y t" and "backend e f g (x, fs) = (r1, (x', fs1))" "backend e f g (y, fs) = (r2, (y', fs2))"
  then show "r1 = r2 \<and> x' t = y' t \<and> fs1 = fs2"
    using assms [of x y] by (auto simp: backend_def split: list.splits fault.splits)
qed

lemma own_kv [frame]:
  "own t (kv_get t c k)"
  "own t (kv_list t c)"
  "own t (kv_exists t c k)"
  "own t (kv_generation t)"
  "own t (kv_put t c k v)"
  "own t (kv_del t c k)"
  "own t (kv_setGeneration t g)"
  unfolding kv_defs
  by (rule own_backend;
      simp add: rec_at_def list_at_def gen_at_def put_rec_def del_rec_def set_gen_def)+

lemma own_json [frame]:
  "own t (loadJSON dec t c k)"
  "own t (loadOpt dec t c k)"
  "own t (saveJSON enc t c k x)"
  "own t (ctxErr ctx)"
  by (simp_all add: loadOpt_def loadJSON_def saveJSON_def ctxErr_def own_kv own_ret own_throw own_bindM
      own_case_option own_case_sum own_attempt)

section \<open>Record types\<close>

lemma typedD: "typed d \<Longrightarrow> rec_at d t c k = Some v \<Longrightarrow> coll_ok c v"
  unfolding typed_def by blast

lemma typed_empty: "typed empty_db"
  by (simp add: typed_def rec_at_def empty_db_def empty_tenant_def)

lemma typed_updates [simp]:
  "typed d \<Longrightarrow> coll_ok c v \<Longrightarrow> typed (put_rec t c k v d)"
  "typed d \<Longrightarrow> typed (del_rec t c k d)"
  "typed (set_gen t g d) = typed d"
  by (auto simp: typed_def)

lemma keeps_typesD: "keeps_types m \<Longrightarrow> typed d \<Longrightarrow> wp m (\<lambda>_. typed) (\<lambda>_. typed) d"
  by (simp add: keeps_types_def)

lemma keeps_types_ret [typing]: "keeps_types (ret a)" "keeps_types (throw e)"
  by (simp_all add: keeps_types_def)

lemma keeps_types_bindM [typing]:
  assumes "keeps_types m" and "\<And>a. keeps_types (f a)"
  shows "keeps_types (bindM m f)"
  unfolding keeps_types_def
  by (auto intro!: wp_bindM wp_mono [OF keeps_typesD [OF assms(1)]] keeps_typesD [OF assms(2)])

lemma keeps_types_attempt [typing]: "keeps_types m \<Longrightarrow> keeps_types (attempt m)"
  by (simp add: keeps_types_def)

lemma keeps_types_ignoring [typing]: "keeps_types m \<Longrightarrow> keeps_types (ignoring m)"
  unfolding ignoring_def by (intro typing)

lemma keeps_types_forM [typing]: "(\<And>x. keeps_types (f x)) \<Longrightarrow> keeps_types (forM xs f)"
  by (induction xs) (auto intro: typing)

lemma keeps_types_foldMM [typing]: "(\<And>b x. keeps_types (f b x)) \<Longrightarrow> keeps_types (foldMM xs b f)"
  by (induction xs arbitrary: b) (auto intro: typing)

lemma keeps_types_if [typing]: "keeps_types m \<Longrightarrow> keeps_types m' \<Longrightarrow> keeps_types (if b then m else m')"
  by simp

lemma keeps_types_case [typing]:
  "keeps_types m \<Longrightarrow> (\<And>x. keeps_types (f x)) \<Longrightarrow> keeps_types (case o1 of None \<Rightarrow> m | Some x \<Rightarrow> f x)"
  "(\<And>x. keeps_types (g x)) \<Longrightarrow> (\<And>x. keeps_types (h x)) \<Longrightarrow> keeps_types (case s of Inl x \<Rightarrow> g x | Inr x \<Rightarrow> h x)"
  "(\<And>x y. keeps_types (p x y)) \<Longrightarrow> keeps_types (case xy of (x, y) \<Rightarrow> p x y)"
  by (simp_all split: option.splits sum.splits prod.splits)

lemma keeps_types_volatile [typing]: "(\<And>d. typed d \<Longrightarrow> typed (snd (f d))) \<Longrightarrow> keeps_types (volatile f)"
  by (simp add: keeps_types_def)

lemma keeps_types_kv [typing]:
  "keeps_types (kv_get t c k)"
  "keeps_types (kv_list t c)"
  "keeps_types (kv_exists t c k)"
  "keeps_types (kv_generation t)"
  "coll_ok c v \<Longrightarrow> keeps_types (kv_put t c k v)"
  "keeps_types (kv_del t c k)"
  "keeps_types (kv_setGeneration t g)"
  by (simp_all add: keeps_types_def kv_defs)

lemma keeps_types_json [typing]:
  "keeps_types (loadJSON dec t c k)"
  "keeps_types (loadOpt dec t c k)"
  "coll_ok c (enc x) \<Longrightarrow> keeps_types (saveJSON enc t c k x)"
  "keeps_types (ctxErr ctx)"
  by (simp_all add: loadOpt_def loadJSON_def saveJSON_def ctxErr_def typing)

end
