(* ===== verification/Metric_Catalog.thy ===== *)
theory Metric_Catalog
  imports Prelude "HOL-Library.Product_Lexorder"
begin

text \<open>
  The catalog of telemetry metrics (\<^verbatim>\<open>internal/telemetrymetric/catalog.go\<close>): the table itself, its
  semantic validator, the derived projection order, and the canonical form of the agent's capability
  advertisement.  An \<open>error\<close> of the source is \<open>Some reason\<close>, \<open>nil\<close> is \<open>None\<close>.
\<close>

section \<open>Definitions of the catalog\<close>

definition HistoryCharted :: string where "HistoryCharted = ''charted''"
definition HistoryLiveOnly :: string where "HistoryLiveOnly = ''live-only''"
definition ChartFamilyResource :: string where "ChartFamilyResource = ''resource''"
definition ChartFamilyProbe :: string where "ChartFamilyProbe = ''probe''"
definition ChartFamilyDevice :: string where "ChartFamilyDevice = ''device''"
definition LiveSurfaceVisible :: string where "LiveSurfaceVisible = ''visible''"
definition LiveSurfaceHistoryOnly :: string where "LiveSurfaceHistoryOnly = ''history-only''"

lemmas disposition_defs = HistoryCharted_def HistoryLiveOnly_def ChartFamilyResource_def
  ChartFamilyProbe_def ChartFamilyDevice_def LiveSurfaceVisible_def LiveSurfaceHistoryOnly_def

record metric_definition =
  mdKey :: string
  mdHistory :: string
  mdChartFamily :: string
  mdHistoryPriority :: int
  mdLiveSurface :: string
  mdLiveOnlyReason :: string

definition AgentCapabilitiesKey :: string where
  "AgentCapabilitiesKey = ''agent_capabilities''"

definition MaxAgentCapabilities :: nat where
  "MaxAgentCapabilities = 16"

text \<open>The expression \<^verbatim>\<open>^[a-z0-9][a-z0-9-]{0,62}$\<close>.\<close>

definition lower_or_digit :: "char \<Rightarrow> bool" where
  "lower_or_digit c \<longleftrightarrow> CHR ''a'' \<le> c \<and> c \<le> CHR ''z'' \<or> CHR ''0'' \<le> c \<and> c \<le> CHR ''9''"

fun agentCapabilityPattern :: "string \<Rightarrow> bool" where
  "agentCapabilityPattern [] = False"
| "agentCapabilityPattern (c # cs) \<longleftrightarrow> lower_or_digit c \<and> length cs \<le> 62 \<and>
     list_all (\<lambda>x. lower_or_digit x \<or> x = CHR ''-'') cs"

fun collect_capabilities :: "string list \<Rightarrow> string set \<Rightarrow> string list" where
  "collect_capabilities [] seen = []"
| "collect_capabilities (c # input) seen =
     (if \<not> agentCapabilityPattern c then collect_capabilities input seen
      else if c \<in> seen then collect_capabilities input seen
      else c # collect_capabilities input (insert c seen))"

definition NormalizeAgentCapabilities :: "string list \<Rightarrow> string list" where
  "NormalizeAgentCapabilities input =
     (let capabilities = sort (collect_capabilities input {})
      in if MaxAgentCapabilities < length capabilities
         then take MaxAgentCapabilities capabilities else capabilities)"

fun check_capabilities :: "string option \<Rightarrow> string list \<Rightarrow> string option" where
  "check_capabilities prev [] = None"
| "check_capabilities prev (c # cs) =
     (if \<not> agentCapabilityPattern c then Some ''agent capability is invalid''
      else if (case prev of None \<Rightarrow> False | Some p \<Rightarrow> c \<le> p)
           then Some ''agent capabilities are not sorted unique''
      else check_capabilities (Some c) cs)"

text \<open>The argument is an option: a nil slice (a missing or null field) is rejected.\<close>

definition ValidateAgentCapabilities :: "string list option \<Rightarrow> string option" where
  "ValidateAgentCapabilities capabilities =
     (case capabilities of
        None \<Rightarrow> Some ''agent capabilities field is missing or null''
      | Some cs \<Rightarrow>
          (if MaxAgentCapabilities < length cs then Some ''agent capabilities exceed the limit''
           else check_capabilities None cs))"

definition charted :: "string \<Rightarrow> string \<Rightarrow> int \<Rightarrow> string \<Rightarrow> metric_definition" where
  "charted key family priority surface =
     \<lparr>mdKey = key, mdHistory = HistoryCharted, mdChartFamily = family,
      mdHistoryPriority = priority, mdLiveSurface = surface, mdLiveOnlyReason = []\<rparr>"

definition live_only :: "string \<Rightarrow> string \<Rightarrow> metric_definition" where
  "live_only key reason =
     \<lparr>mdKey = key, mdHistory = HistoryLiveOnly, mdChartFamily = [],
      mdHistoryPriority = 0, mdLiveSurface = LiveSurfaceVisible, mdLiveOnlyReason = reason\<rparr>"

definition catalogDefinitions :: "metric_definition list" where
  "catalogDefinitions =
    [charted ''probe_results'' ChartFamilyProbe 30 LiveSurfaceVisible,
     charted ''probe_samples'' ChartFamilyProbe 20 LiveSurfaceHistoryOnly,
     charted ''resource'' ChartFamilyResource 10 LiveSurfaceVisible,
     live_only ''wireguard_peers''
       ''peer endpoint and handshake state are current operational state, not a retained chart metric'',
     live_only ''native_xdp''
       ''capability is a point-in-time deployment advisory rather than a sampled numeric signal'',
     live_only ''mimic_capability''
       ''capability is a point-in-time deployment advisory rather than a sampled numeric signal'',
     live_only AgentCapabilitiesKey
       ''executable compatibility is current readiness, not a time-series measurement'',
     live_only ''device_inventory''
       ''device identity, support, mount, and truncation state are current categorical inventory rather than numeric time series'',
     charted ''device_samples'' ChartFamilyDevice 40 LiveSurfaceVisible]"

definition orderedChartedDefinitions :: "metric_definition list" where
  "orderedChartedDefinitions =
     sort_key (\<lambda>d. (mdHistoryPriority d, mdKey d))
       (filter (\<lambda>d. mdHistory d = HistoryCharted) catalogDefinitions)"

fun first_families :: "metric_definition list \<Rightarrow> string set \<Rightarrow> string list" where
  "first_families [] seen = []"
| "first_families (d # ds) seen =
     (if mdChartFamily d \<in> seen then first_families ds seen
      else mdChartFamily d # first_families ds (insert (mdChartFamily d) seen))"

definition orderedChartFamilies :: "string list" where
  "orderedChartFamilies = first_families orderedChartedDefinitions {}"

definition ValidateDefinition :: "metric_definition \<Rightarrow> string option" where
  "ValidateDefinition d =
     (if mdKey d = [] then Some ''metric key is empty''
      else
        (case
          (if mdHistory d = HistoryCharted then
             (if mdChartFamily d \<notin> {ChartFamilyResource, ChartFamilyProbe, ChartFamilyDevice}
              then Some ''invalid chart family''
              else if mdHistoryPriority d \<le> 0 then Some ''non-positive history priority''
              else if mdLiveOnlyReason d \<noteq> [] then Some ''charted metric has a live-only reason''
              else None)
           else if mdHistory d = HistoryLiveOnly then
             (if mdChartFamily d \<noteq> [] \<or> mdHistoryPriority d \<noteq> 0
              then Some ''live-only metric declares chart family/priority''
              else if mdLiveOnlyReason d = [] then Some ''live-only metric has no reason''
              else None)
           else Some ''invalid history disposition'')
         of Some e \<Rightarrow> Some e
          | None \<Rightarrow>
             (if mdLiveSurface d = LiveSurfaceVisible then None
              else if mdLiveSurface d = LiveSurfaceHistoryOnly then
                (if mdHistory d \<noteq> HistoryCharted
                 then Some ''history-only metric is not retained as charted history'' else None)
              else Some ''invalid live-surface disposition'')))"

fun validate_catalog_from :: "metric_definition list \<Rightarrow> string set \<Rightarrow> int set \<Rightarrow> string option" where
  "validate_catalog_from [] keys priorities = None"
| "validate_catalog_from (d # ds) keys priorities =
     (case ValidateDefinition d of
        Some e \<Rightarrow> Some e
      | None \<Rightarrow>
          (if mdKey d \<in> keys then Some ''catalog duplicates metric key''
           else if mdHistory d = HistoryCharted then
             (if mdHistoryPriority d \<in> priorities then Some ''charted metrics share history priority''
              else validate_catalog_from ds (insert (mdKey d) keys)
                     (insert (mdHistoryPriority d) priorities))
           else validate_catalog_from ds (insert (mdKey d) keys) priorities))"

definition ValidateCatalog :: "metric_definition list \<Rightarrow> string option" where
  "ValidateCatalog definitions = validate_catalog_from definitions {} {}"

definition VisibleOnLiveSurface :: "string \<Rightarrow> bool" where
  "VisibleOnLiveSurface key =
     (case find (\<lambda>d. mdKey d = key) catalogDefinitions of
        Some d \<Rightarrow> mdLiveSurface d = LiveSurfaceVisible | None \<Rightarrow> True)"

section \<open>Capability advertisements\<close>

lemma set_collect_capabilities:
  "set (collect_capabilities input seen) = {c \<in> set input. agentCapabilityPattern c \<and> c \<notin> seen}"
  by (induction input arbitrary: seen) auto

lemma distinct_collect_capabilities: "distinct (collect_capabilities input seen)"
  by (induction input arbitrary: seen) (auto simp: set_collect_capabilities)

lemma check_capabilities_iff:
  "check_capabilities prev cs = None \<longleftrightarrow>
     list_all agentCapabilityPattern cs \<and>
     sorted_wrt (<) ((case prev of None \<Rightarrow> [] | Some p \<Rightarrow> [p]) @ cs)"
proof (induction cs arbitrary: prev)
  case (Cons c cs)
  show ?case
    by (cases prev) (auto simp: Cons.IH not_le intro: less_trans)
qed (simp split: option.splits)

lemma ValidateAgentCapabilities_iff:
  "ValidateAgentCapabilities (Some cs) = None \<longleftrightarrow>
     length cs \<le> MaxAgentCapabilities \<and> list_all agentCapabilityPattern cs \<and> sorted_wrt (<) cs"
  by (simp add: ValidateAgentCapabilities_def check_capabilities_iff)

lemma NormalizeAgentCapabilities_take:
  "NormalizeAgentCapabilities input = take MaxAgentCapabilities (sort (collect_capabilities input {}))"
  by (simp add: NormalizeAgentCapabilities_def Let_def)

lemma collect_capabilities_id:
  "distinct cs \<Longrightarrow> list_all agentCapabilityPattern cs \<Longrightarrow> set cs \<inter> seen = {} \<Longrightarrow>
   collect_capabilities cs seen = cs"
  by (induction cs arbitrary: seen) auto

lemma sorted_wrt_less_take: "sorted_wrt (<) xs \<Longrightarrow> sorted_wrt (<) (take n xs)"
  by (metis append_take_drop_id sorted_wrt_append)

lemma NormalizeAgentCapabilities_canonical:
  "ValidateAgentCapabilities (Some (NormalizeAgentCapabilities input)) = None"
proof -
  let ?cs = "sort (collect_capabilities input {})"
  have "sorted_wrt (<) ?cs"
    by (simp add: strict_sorted_iff distinct_collect_capabilities)
  moreover have "list_all agentCapabilityPattern (take n ?cs)" for n
    using set_take_subset [of n ?cs] by (auto simp: list_all_iff set_collect_capabilities)
  ultimately show ?thesis
    by (simp add: NormalizeAgentCapabilities_take ValidateAgentCapabilities_iff sorted_wrt_less_take)
qed

lemma NormalizeAgentCapabilities_fixpoint:
  "ValidateAgentCapabilities (Some cs) = None \<Longrightarrow> NormalizeAgentCapabilities cs = cs"
  unfolding ValidateAgentCapabilities_iff NormalizeAgentCapabilities_take
  by (simp add: strict_sorted_iff collect_capabilities_id sorted_sort_id)

section \<open>The catalog\<close>

lemma validate_catalog_from_iff:
  "validate_catalog_from ds keys prios = None \<longleftrightarrow>
     (\<forall>d \<in> set ds. ValidateDefinition d = None) \<and>
     distinct (map mdKey ds) \<and> mdKey ` set ds \<inter> keys = {} \<and>
     distinct (map mdHistoryPriority (filter (\<lambda>d. mdHistory d = HistoryCharted) ds)) \<and>
     mdHistoryPriority ` set (filter (\<lambda>d. mdHistory d = HistoryCharted) ds) \<inter> prios = {}"
  by (induction ds arbitrary: keys prios) (auto split: option.splits)

lemma ValidateCatalog_iff:
  "ValidateCatalog ds = None \<longleftrightarrow>
     (\<forall>d \<in> set ds. ValidateDefinition d = None) \<and> distinct (map mdKey ds) \<and>
     distinct (map mdHistoryPriority (filter (\<lambda>d. mdHistory d = HistoryCharted) ds))"
  by (simp add: ValidateCatalog_def validate_catalog_from_iff)

lemma catalog_valid: "ValidateCatalog catalogDefinitions = None"
  by (simp add: ValidateCatalog_def catalogDefinitions_def ValidateDefinition_def charted_def
      live_only_def disposition_defs AgentCapabilitiesKey_def)

lemma AgentCapabilitiesKey_visible: "VisibleOnLiveSurface AgentCapabilitiesKey"
  by (simp add: VisibleOnLiveSurface_def catalogDefinitions_def charted_def live_only_def
      disposition_defs AgentCapabilitiesKey_def)

end
