(* ===== verification/Go_Strings.thy ===== *)
theory Go_Strings
  imports Prelude
begin

text \<open>
  The parts of Go's \<^verbatim>\<open>strconv\<close> and \<^verbatim>\<open>strings\<close> packages the modelled code uses, over byte strings:
  decimal formatting and parsing of \<^verbatim>\<open>int64\<close>, and trimming of Unicode white space.
\<close>

definition digit_char :: "nat \<Rightarrow> char" where
  "digit_char n = char_of (48 + n)"

fun decimal :: "nat \<Rightarrow> string" where
  "decimal n = (if n < 10 then [digit_char n] else decimal (n div 10) @ [digit_char (n mod 10)])"

declare decimal.simps [simp del]

definition FormatInt :: "int \<Rightarrow> string" where
  "FormatInt i = (if i < 0 then CHR ''-'' # decimal (nat (- i)) else decimal (nat i))"

definition is_digit :: "char \<Rightarrow> bool" where
  "is_digit c \<longleftrightarrow> 48 \<le> (of_char c :: nat) \<and> (of_char c :: nat) \<le> 57"

fun parse_digits :: "nat \<Rightarrow> string \<Rightarrow> nat option" where
  "parse_digits acc [] = Some acc"
| "parse_digits acc (c # cs) =
     (if is_digit c then parse_digits (acc * 10 + (of_char c - 48)) cs else None)"

definition parse_unsigned :: "string \<Rightarrow> nat option" where
  "parse_unsigned s = (if s = [] then None else parse_digits 0 s)"

text \<open>\<^verbatim>\<open>strconv.ParseInt(s, 10, 64)\<close>; a syntax and a range error are both \<open>None\<close>.\<close>

definition ParseInt :: "string \<Rightarrow> int option" where
  "ParseInt s =
     (let neg = (s \<noteq> [] \<and> hd s = CHR ''-'');
          body = (if s \<noteq> [] \<and> (hd s = CHR ''-'' \<or> hd s = CHR ''+'') then tl s else s)
      in case parse_unsigned body of
           None \<Rightarrow> None
         | Some un \<Rightarrow>
             (if \<not> neg \<and> (2 :: int) ^ 63 \<le> int un then None
              else if neg \<and> (2 :: int) ^ 63 < int un then None
              else Some (if neg then - int un else int un)))"

text \<open>
  The byte length of the white-space rune a string starts with (0 when it starts with none), over the
  UTF-8 encodings of the runes \<^verbatim>\<open>unicode.IsSpace\<close> accepts.
\<close>

definition byte :: "string \<Rightarrow> nat \<Rightarrow> nat" where
  "byte s i = (if i < length s then of_char (s ! i) else 0)"

definition space_prefix :: "string \<Rightarrow> nat" where
  "space_prefix s =
     (if byte s 0 \<in> {9, 10, 11, 12, 13, 32} then 1
      else if byte s 0 = 0xC2 \<and> byte s 1 \<in> {0x85, 0xA0} then 2
      else if byte s 0 = 0xE1 \<and> byte s 1 = 0x9A \<and> byte s 2 = 0x80 then 3
      else if byte s 0 = 0xE2 \<and> byte s 1 = 0x80 \<and>
              (0x80 \<le> byte s 2 \<and> byte s 2 \<le> 0x8A \<or> byte s 2 \<in> {0xA8, 0xA9, 0xAF}) then 3
      else if byte s 0 = 0xE2 \<and> byte s 1 = 0x81 \<and> byte s 2 = 0x9F then 3
      else if byte s 0 = 0xE3 \<and> byte s 1 = 0x80 \<and> byte s 2 = 0x80 then 3
      else 0)"

function trim_left :: "string \<Rightarrow> string" where
  "trim_left s = (if s = [] \<or> space_prefix s = 0 then s else trim_left (drop (space_prefix s) s))"
  by pat_completeness auto
termination by (relation "measure length") auto

declare trim_left.simps [simp del]

definition space_suffix :: "string \<Rightarrow> nat" where
  "space_suffix s =
     (if s \<noteq> [] \<and> space_prefix (drop (length s - 1) s) = 1 then 1
      else if 2 \<le> length s \<and> space_prefix (drop (length s - 2) s) = 2 then 2
      else if 3 \<le> length s \<and> space_prefix (drop (length s - 3) s) = 3 then 3
      else 0)"

function trim_right :: "string \<Rightarrow> string" where
  "trim_right s = (if s = [] \<or> space_suffix s = 0 then s
                   else trim_right (take (length s - space_suffix s) s))"
  by pat_completeness auto
termination by (relation "measure length") auto

declare trim_right.simps [simp del]

definition TrimSpace :: "string \<Rightarrow> string" where
  "TrimSpace s = trim_right (trim_left s)"

text \<open>\<^verbatim>\<open>strings.HasPrefix\<close>, \<^verbatim>\<open>strings.TrimPrefix\<close> and \<^verbatim>\<open>strings.HasSuffix\<close>.\<close>

definition HasPrefix :: "string \<Rightarrow> string \<Rightarrow> bool" where
  "HasPrefix s p \<longleftrightarrow> take (length p) s = p"

definition TrimPrefix :: "string \<Rightarrow> string \<Rightarrow> string" where
  "TrimPrefix s p = (if HasPrefix s p then drop (length p) s else s)"

definition HasSuffix :: "string \<Rightarrow> string \<Rightarrow> bool" where
  "HasSuffix s p \<longleftrightarrow> length p \<le> length s \<and> drop (length s - length p) s = p"

text \<open>\<^verbatim>\<open>strings.Split(s, sep)\<close> for a one-byte separator.\<close>

fun split_on :: "char \<Rightarrow> string \<Rightarrow> string list" where
  "split_on sep [] = [[]]"
| "split_on sep (c # cs) =
     (if c = sep then [] # split_on sep cs
      else (case split_on sep cs of [] \<Rightarrow> [[c]] | l # ls \<Rightarrow> (c # l) # ls))"

text \<open>
  \<^verbatim>\<open>t.UTC().Format(time.RFC3339Nano)\<close>: the proleptic Gregorian date of a time in nanoseconds since the
  zero time (1 January of year 1), with the fraction printed without trailing zeros.  The date is
  computed from a day count by the 400-year cycle that starts on 1 March of year 0.
\<close>

definition zero_pad :: "nat \<Rightarrow> nat \<Rightarrow> string" where
  "zero_pad w n = replicate (w - length (decimal n)) (CHR ''0'') @ decimal n"

definition civil_of_days :: "int \<Rightarrow> int \<times> int \<times> int" where
  "civil_of_days days =
     (let z = days + 306;
          doe = z mod 146097;
          yoe = (doe - doe div 1460 + doe div 36524 - doe div 146096) div 365;
          doy = doe - (365 * yoe + yoe div 4 - yoe div 100);
          mp = (5 * doy + 2) div 153;
          m = (if mp < 10 then mp + 3 else mp - 9)
      in (yoe + z div 146097 * 400 + (if m \<le> 2 then 1 else 0), m, doy - (153 * mp + 2) div 5 + 1))"

definition year_digits :: "int \<Rightarrow> string" where
  "year_digits y = (if y < 0 then CHR ''-'' # zero_pad 4 (nat (- y)) else zero_pad 4 (nat y))"

definition fraction_digits :: "nat \<Rightarrow> string" where
  "fraction_digits ns =
     (let ds = rev (dropWhile (\<lambda>c. c = CHR ''0'') (rev (zero_pad 9 ns)))
      in if ds = [] then [] else CHR ''.'' # ds)"

definition FormatRFC3339Nano :: "time \<Rightarrow> string" where
  "FormatRFC3339Nano t =
     (let secs = t div 1000000000; sod = secs mod 86400
      in case civil_of_days (secs div 86400) of (y, m, d) \<Rightarrow>
           year_digits y @ ''-'' @ zero_pad 2 (nat m) @ ''-'' @ zero_pad 2 (nat d) @ ''T'' @
           zero_pad 2 (nat (sod div 3600)) @ '':'' @ zero_pad 2 (nat (sod div 60 mod 60)) @ '':'' @
           zero_pad 2 (nat (sod mod 60)) @ fraction_digits (nat (t mod 1000000000)) @ ''Z'')"

section \<open>Round trip of decimal integers\<close>

lemma of_char_digit [simp]: "n < 10 \<Longrightarrow> of_char (digit_char n) = 48 + n"
  by (simp add: digit_char_def)

lemma is_digit_digit_char [simp]: "n < 10 \<Longrightarrow> is_digit (digit_char n)"
  by (simp add: is_digit_def)

lemma parse_digits_append:
  "parse_digits acc (xs @ ys) = (case parse_digits acc xs of None \<Rightarrow> None | Some a \<Rightarrow> parse_digits a ys)"
  by (induction xs arbitrary: acc) auto

lemma parse_digits_decimal: "parse_digits acc (decimal n) = Some (acc * 10 ^ length (decimal n) + n)"
proof (induction n arbitrary: acc rule: decimal.induct)
  case (1 n)
  show ?case
  proof (cases "n < 10")
    case True
    then show ?thesis by (simp add: decimal.simps [of n])
  next
    case False
    then have "parse_digits acc (decimal (n div 10))
        = Some (acc * 10 ^ length (decimal (n div 10)) + n div 10)"
      using 1 by simp
    with False show ?thesis
      by (simp add: decimal.simps [of n] parse_digits_append algebra_simps)
  qed
qed

lemma decimal_hd: "decimal n \<noteq> [] \<and> is_digit (hd (decimal n))"
proof (induction n rule: decimal.induct)
  case (1 n)
  then show ?case
    by (cases "n < 10") (simp_all add: decimal.simps [of n] hd_append)
qed

lemma decimal_nonempty [simp]: "decimal n \<noteq> []"
  using decimal_hd by simp

lemma decimal_no_sign [simp]:
  "hd (decimal n) \<noteq> CHR ''-''" "hd (decimal n) \<noteq> CHR ''+''"
  using decimal_hd [of n] by (auto simp: is_digit_def)

lemma parse_unsigned_decimal [simp]: "parse_unsigned (decimal n) = Some n"
  by (simp add: parse_unsigned_def parse_digits_decimal)

lemma ParseInt_FormatInt:
  "- (2 ^ 63) \<le> i \<Longrightarrow> i < 2 ^ 63 \<Longrightarrow> ParseInt (FormatInt i) = Some i"
  by (auto simp: ParseInt_def FormatInt_def Let_def)

lemma decimal_inj: "decimal m = decimal n \<Longrightarrow> m = n"
  by (metis option.inject parse_unsigned_decimal)

lemma FormatInt_inj: "FormatInt i = FormatInt j \<longleftrightarrow> i = j"
proof
  assume eq: "FormatInt i = FormatInt j"
  then have "i < 0 \<longleftrightarrow> j < 0"
    by (metis FormatInt_def decimal_no_sign(1) list.sel(1))
  then show "i = j"
    using eq by (auto simp: FormatInt_def dest!: decimal_inj split: if_splits)
qed simp

section \<open>Splitting\<close>

lemma split_on_line: "sep \<notin> set l \<Longrightarrow> split_on sep (l @ sep # s) = l # split_on sep s"
  by (induction l) auto

end
