(* ===== verification/Telemetry.thy ===== *)
theory Telemetry
  imports Frame Metric_Catalog Go_Strings
begin

text \<open>
  The volatile telemetry overlay of the store core
  (\<^verbatim>\<open>internal/controller/storecore_telemetry.go\<close>).  An overlay entry is a value; the pointer the
  source mutates under \<^verbatim>\<open>telemetryMu\<close> is read at the start of a handler and written back at its end.
  The retained history is the sequence of \<^verbatim>\<open>appendMetrics\<close> calls.
\<close>

section \<open>Entries\<close>

definition zero_telemetry :: volatile_telemetry where
  "zero_telemetry = \<lparr>vtWrittenAt = 0, vtConditions = [], vtTelemetry = fmempty, vtAgentVersion = [],
     vtTelemetrySet = False, vtLastSeen = 0, vtLastSeenSet = False, vtSequenceCursors = fmempty,
     vtRetiredBoots = fmempty, vtActiveBootID = [], vtActiveSampledAt = 0\<rparr>"

definition maxTelemetrySequenceCursors :: nat where "maxTelemetrySequenceCursors = 4"
definition maxTelemetryRetiredBoots :: nat where "maxTelemetryRetiredBoots = 8"
definition maxTelemetryReplayAge :: duration where
  "maxTelemetryReplayAge = 24 * 3600 * 1000000000"
definition maxTelemetryFutureSkew :: duration where
  "maxTelemetryFutureSkew = 5 * 60 * 1000000000"
definition telemetryBootStaleSlack :: duration where
  "telemetryBootStaleSlack = 5 * 60 * 1000000000"

definition telemetryEntryLocked :: "db \<Rightarrow> string \<Rightarrow> string \<Rightarrow> volatile_telemetry" where
  "telemetryEntryLocked d t nodeID =
     (case fmlookup (tdTelemetry (d t)) nodeID of None \<Rightarrow> zero_telemetry | Some ent \<Rightarrow> ent)"

definition put_entry :: "string \<Rightarrow> string \<Rightarrow> volatile_telemetry \<Rightarrow> history_sample list \<Rightarrow> db \<Rightarrow> db" where
  "put_entry t nodeID ent samples d =
     d(t := (d t)\<lparr>tdTelemetry := fmupd nodeID ent (tdTelemetry (d t)),
                   tdHistory := tdHistory (d t) @ samples\<rparr>)"

section \<open>Reading and refreshing\<close>

definition overlay_node :: "volatile_telemetry \<Rightarrow> node \<Rightarrow> node" where
  "overlay_node ent n =
     (let n1 = (if vtLastSeenSet ent then n\<lparr>nLastSeen := vtLastSeen ent\<rparr> else n)
      in if vtTelemetrySet ent
         then (let n2 = n1\<lparr>nConditions := vtConditions ent, nTelemetry := vtTelemetry ent\<rparr>
               in if vtAgentVersion ent \<noteq> [] then n2\<lparr>nLastAgentVersion := vtAgentVersion ent\<rparr> else n2)
         else n1)"

definition applyTelemetryOverlay :: "db \<Rightarrow> string \<Rightarrow> node \<Rightarrow> node" where
  "applyTelemetryOverlay d t n =
     (case fmlookup (tdTelemetry (d t)) (nNodeID n) of None \<Rightarrow> n | Some ent \<Rightarrow> overlay_node ent n)"

text \<open>The monotone liveness update every handler ends with.\<close>

definition advance_last_seen :: "time \<Rightarrow> volatile_telemetry \<Rightarrow> volatile_telemetry" where
  "advance_last_seen at ent =
     (if \<not> vtLastSeenSet ent \<or> vtLastSeen ent < at
      then ent\<lparr>vtLastSeen := at, vtLastSeenSet := True\<rparr> else ent)"

definition refresh_entry ::
  "node_condition list \<Rightarrow> string \<Rightarrow> time \<Rightarrow> volatile_telemetry \<Rightarrow> volatile_telemetry" where
  "refresh_entry conditions agentVersion observedAt ent =
     (let ent1 =
        (if \<not> vtTelemetrySet ent \<or> vtWrittenAt ent \<le> observedAt then
           (let e = ent\<lparr>vtConditions := conditions, vtTelemetrySet := True, vtWrittenAt := observedAt\<rparr>
            in if agentVersion \<noteq> [] then e\<lparr>vtAgentVersion := agentVersion\<rparr> else e)
         else ent)
      in advance_last_seen observedAt ent1)"

definition refreshTelemetryOverlayFromReport ::
  "string \<Rightarrow> string \<Rightarrow> node_condition list \<Rightarrow> string \<Rightarrow> time \<Rightarrow> (db, err, unit) io" where
  "refreshTelemetryOverlayFromReport t nodeID conditions agentVersion observedAt =
     volatile (\<lambda>d. ((), put_entry t nodeID
       (refresh_entry conditions agentVersion observedAt (telemetryEntryLocked d t nodeID)) [] d))"

section \<open>Recording samples\<close>

definition cloneLiveMetrics :: "metrics \<Rightarrow> metrics" where
  "cloneLiveMetrics m = fmfilter VisibleOnLiveSurface m"

definition sameAgentCapabilityAdvertisement :: "metrics \<Rightarrow> metrics \<Rightarrow> bool" where
  "sameAgentCapabilityAdvertisement current next \<longleftrightarrow>
     fmlookup current AgentCapabilitiesKey = fmlookup next AgentCapabilitiesKey"

definition normalizeTelemetrySampleTime :: "time \<Rightarrow> time \<Rightarrow> time \<times> bool" where
  "normalizeTelemetrySampleTime sampledAt receivedAt =
     (if sampledAt < receivedAt - maxTelemetryReplayAge \<or> receivedAt + maxTelemetryFutureSkew < sampledAt
      then (receivedAt, False) else (sampledAt, True))"

text \<open>
  The choice of the entry to evict: the smallest receipt time, ties broken by the smaller id.  The
  source scans a Go map in any order; here the scan goes over the sorted listing
  (\<open>oldest_of_perm\<close> shows that the order does not matter).
\<close>

fun oldest_of :: "(string \<times> time) list \<Rightarrow> string \<times> time \<Rightarrow> string \<times> time" where
  "oldest_of [] best = best"
| "oldest_of ((bootID, at) # cs) (oldestID, oldestAt) =
     oldest_of cs
       (if oldestID = [] \<or> at < oldestAt \<or> at = oldestAt \<and> bootID < oldestID
        then (bootID, at) else (oldestID, oldestAt))"

definition evictOldestTelemetryCursor ::
  "(string, telemetry_sequence_cursor) fmap \<Rightarrow> string \<Rightarrow>
   (string \<times> time) \<times> (string, telemetry_sequence_cursor) fmap" where
  "evictOldestTelemetryCursor cursors protectedBootID =
     (let candidates = filter (\<lambda>(bootID, c). \<not> (bootID = protectedBootID \<and> 1 < fcard (fmdom cursors)))
                         (sorted_list_of_fmap cursors);
          oldest = oldest_of (map (\<lambda>(bootID, c). (bootID, tcLastReceivedAt c)) candidates) ([], 0)
      in (oldest, if fst oldest \<noteq> [] then fmdrop (fst oldest) cursors else cursors))"

definition rememberRetiredTelemetryBoot ::
  "string \<Rightarrow> time \<Rightarrow> volatile_telemetry \<Rightarrow> volatile_telemetry" where
  "rememberRetiredTelemetryBoot bootID at ent =
     (if bootID = [] then ent
      else
        (let boots = vtRetiredBoots ent;
             boots1 = (if fmlookup boots bootID = None \<and> maxTelemetryRetiredBoots \<le> fcard (fmdom boots)
                       then fmdrop (fst (oldest_of (sorted_list_of_fmap boots) ([], 0))) boots
                       else boots)
         in ent\<lparr>vtRetiredBoots := fmupd bootID at boots1\<rparr>))"

definition recordTelemetryLocked ::
  "string \<Rightarrow> condition list \<Rightarrow> metrics \<Rightarrow> string \<Rightarrow> time \<Rightarrow> time \<Rightarrow> duration \<Rightarrow> volatile_telemetry \<Rightarrow>
   volatile_telemetry \<times> history_sample list" where
  "recordTelemetryLocked nodeID conditions ms agentVersion observedAt historyAt interval ent =
     (let ent1 = advance_last_seen observedAt ent;
          ent2 = (if \<not> vtTelemetrySet ent1 \<or> vtWrittenAt ent1 \<le> observedAt then
                    (let e = ent1\<lparr>vtConditions := stampConditions conditions observedAt,
                                  vtTelemetry := cloneLiveMetrics ms,
                                  vtTelemetrySet := True, vtWrittenAt := observedAt\<rparr>
                     in if agentVersion \<noteq> [] then e\<lparr>vtAgentVersion := agentVersion\<rparr> else e)
                  else ent1)
      in (ent2, [\<lparr>hsNodeID = nodeID, hsMetrics = ms, hsAt = historyAt, hsInterval = interval\<rparr>]))"

definition telemetryNodeExists :: "bool \<Rightarrow> string \<Rightarrow> string \<Rightarrow> (db, err, unit) io" where
  "telemetryNodeExists ctx t nodeID =
     bindM (ctxErr ctx) (\<lambda>_.
     bindM (kv_exists t CollNodes nodeID) (\<lambda>ok.
       if \<not> ok then throw ErrNotFound else ret ()))"

text \<open>The receipt time a boot that loses the live overlay is retired with.\<close>

definition retirement_time :: "volatile_telemetry \<Rightarrow> string \<Rightarrow> time" where
  "retirement_time ent bootID =
     (case fmlookup (vtSequenceCursors ent) bootID of
        Some previous \<Rightarrow> (if tcLastReceivedAt previous \<noteq> 0 then tcLastReceivedAt previous
                          else vtActiveSampledAt ent)
      | None \<Rightarrow> vtActiveSampledAt ent)"

definition retire_on_capability_change :: "metrics \<Rightarrow> time \<Rightarrow> volatile_telemetry \<Rightarrow> volatile_telemetry" where
  "retire_on_capability_change ms observedAt ent =
     (let currentCapabilities = (fmlookup (vtTelemetry ent) AgentCapabilitiesKey \<noteq> None);
          incomingCapabilities = (fmlookup ms AgentCapabilitiesKey \<noteq> None);
          capabilityReplacement = (\<not> incomingCapabilities \<or>
            currentCapabilities \<and> \<not> sameAgentCapabilityAdvertisement (vtTelemetry ent) ms)
      in if vtTelemetrySet ent \<and> vtWrittenAt ent \<le> observedAt \<and> vtActiveBootID ent \<noteq> [] \<and>
            capabilityReplacement
         then (rememberRetiredTelemetryBoot (vtActiveBootID ent)
                 (retirement_time ent (vtActiveBootID ent)) ent)
                \<lparr>vtActiveBootID := [], vtActiveSampledAt := 0\<rparr>
         else ent)"

definition RecordTelemetry ::
  "bool \<Rightarrow> string \<Rightarrow> string \<Rightarrow> condition list \<Rightarrow> metrics \<Rightarrow> string \<Rightarrow> time \<Rightarrow> (db, err, unit) io" where
  "RecordTelemetry ctx t nodeID conditions ms agentVersion observedAt =
     bindM (telemetryNodeExists ctx t nodeID) (\<lambda>_.
       volatile (\<lambda>d.
         let ent = retire_on_capability_change ms observedAt (telemetryEntryLocked d t nodeID);
             (ent', samples) =
               recordTelemetryLocked nodeID conditions ms agentVersion observedAt observedAt 0 ent
         in ((), put_entry t nodeID ent' samples d)))"

section \<open>Sequenced samples\<close>

record telemetry_receipt =
  trAcknowledgedSequence :: nat
  trDuplicate :: bool
  trSampledAt :: time
  trReceivedAt :: time

definition duplicate_sample :: "string \<Rightarrow> time \<Rightarrow> telemetry_sequence_cursor \<Rightarrow> volatile_telemetry \<Rightarrow> volatile_telemetry" where
  "duplicate_sample bootID receivedAt cursor ent =
     advance_last_seen receivedAt
       (if tcLastReceivedAt cursor < receivedAt
        then ent\<lparr>vtSequenceCursors :=
               fmupd bootID (cursor\<lparr>tcLastReceivedAt := receivedAt\<rparr>) (vtSequenceCursors ent)\<rparr>
        else ent)"

definition cross_boot :: "volatile_telemetry \<Rightarrow> string \<Rightarrow> bool" where
  "cross_boot ent bootID \<longleftrightarrow> vtActiveBootID ent \<noteq> [] \<and> vtActiveBootID ent \<noteq> bootID"

definition ambiguous_cross_boot :: "volatile_telemetry \<Rightarrow> string \<Rightarrow> time \<Rightarrow> bool \<Rightarrow> bool" where
  "ambiguous_cross_boot ent bootID sampledAt trusted \<longleftrightarrow>
     cross_boot ent bootID \<and>
     (\<not> trusted \<or> vtActiveSampledAt ent \<noteq> 0 \<and> sampledAt \<le> vtActiveSampledAt ent)"

definition sample_live :: "volatile_telemetry \<Rightarrow> string \<Rightarrow> time \<Rightarrow> bool \<Rightarrow> bool" where
  "sample_live ent bootID sampledAt trusted =
     (let retiredBoot = (fmlookup (vtRetiredBoots ent) bootID \<noteq> None);
          seen = (fmlookup (vtSequenceCursors ent) bootID \<noteq> None)
      in if cross_boot ent bootID then
           (if retiredBoot then False
            else if seen then trusted \<and> (vtActiveSampledAt ent = 0 \<or> vtActiveSampledAt ent < sampledAt)
            else if trusted \<and> vtActiveSampledAt ent \<noteq> 0 \<and>
                    sampledAt < vtActiveSampledAt ent - telemetryBootStaleSlack then False
            else True)
         else \<not> retiredBoot \<and> (vtActiveBootID ent = [] \<or> vtActiveBootID ent = bootID))"

definition zero_cursor :: telemetry_sequence_cursor where
  "zero_cursor = \<lparr>tcHighestSequence = 0, tcLastSampledAt = 0, tcLastReceivedAt = 0\<rparr>"

definition advance_cursor ::
  "nat \<Rightarrow> time \<Rightarrow> time \<Rightarrow> telemetry_sequence_cursor \<Rightarrow> telemetry_sequence_cursor" where
  "advance_cursor sequence sampledAt receivedAt cursor =
     \<lparr>tcHighestSequence = sequence,
      tcLastSampledAt = (if tcLastSampledAt cursor = 0 \<or> tcLastSampledAt cursor < sampledAt
                         then sampledAt else tcLastSampledAt cursor),
      tcLastReceivedAt = (if tcLastReceivedAt cursor < receivedAt
                          then receivedAt else tcLastReceivedAt cursor)\<rparr>"

definition admit_cursor ::
  "string \<Rightarrow> nat \<Rightarrow> time \<Rightarrow> time \<Rightarrow> volatile_telemetry \<Rightarrow> volatile_telemetry" where
  "admit_cursor bootID sequence sampledAt receivedAt ent =
     (let cursor = (case fmlookup (vtSequenceCursors ent) bootID of None \<Rightarrow> zero_cursor | Some c \<Rightarrow> c);
          ent1 =
            (if fmlookup (vtSequenceCursors ent) bootID = None \<and>
                maxTelemetrySequenceCursors \<le> fcard (fmdom (vtSequenceCursors ent))
             then (let ((retiredID, retiredAt), cursors) =
                         evictOldestTelemetryCursor (vtSequenceCursors ent) (vtActiveBootID ent)
                   in rememberRetiredTelemetryBoot retiredID retiredAt (ent\<lparr>vtSequenceCursors := cursors\<rparr>))
             else ent)
      in ent1\<lparr>vtSequenceCursors :=
                fmupd bootID (advance_cursor sequence sampledAt receivedAt cursor) (vtSequenceCursors ent1)\<rparr>)"

definition history_time :: "volatile_telemetry \<Rightarrow> string \<Rightarrow> time \<Rightarrow> time \<Rightarrow> bool \<Rightarrow> time \<Rightarrow> time" where
  "history_time ent bootID sampledAt receivedAt live normalized =
     (let h1 = (case fmlookup (vtSequenceCursors ent) bootID of
                  Some cursor \<Rightarrow> (if tcLastSampledAt cursor \<noteq> 0 \<and> sampledAt < tcLastSampledAt cursor
                                  then receivedAt else normalized)
                | None \<Rightarrow> normalized)
      in if live \<and> vtActiveSampledAt ent \<noteq> 0 \<and> h1 < vtActiveSampledAt ent then receivedAt else h1)"

definition fresh_sample ::
  "string \<Rightarrow> condition list \<Rightarrow> metrics \<Rightarrow> string \<Rightarrow> string \<Rightarrow> nat \<Rightarrow> time \<Rightarrow> duration \<Rightarrow> time \<Rightarrow>
   volatile_telemetry \<Rightarrow> volatile_telemetry \<times> history_sample list" where
  "fresh_sample nodeID conditions ms agentVersion bootID sequence sampledAt interval receivedAt ent =
     (let (normalized, trusted) = normalizeTelemetrySampleTime sampledAt receivedAt;
          live = sample_live ent bootID sampledAt trusted;
          crossBoot = cross_boot ent bootID;
          ambiguous = ambiguous_cross_boot ent bootID sampledAt trusted;
          ent1 = (if ambiguous \<and> vtTelemetrySet ent
                  then ent\<lparr>vtTelemetry := fmdrop AgentCapabilitiesKey (vtTelemetry ent)\<rparr> else ent);
          historyAt = history_time ent bootID sampledAt receivedAt live normalized;
          ent2 = advance_last_seen receivedAt (admit_cursor bootID sequence sampledAt receivedAt ent1)
      in if live then
           (let ent3 = (if crossBoot
                        then rememberRetiredTelemetryBoot (vtActiveBootID ent2)
                               (retirement_time ent2 (vtActiveBootID ent2)) ent2
                        else ent2);
                ent4 = ent3\<lparr>vtActiveBootID := bootID,
                            vtActiveSampledAt :=
                              (if vtActiveSampledAt ent3 = 0 \<or> vtActiveSampledAt ent3 < historyAt
                               then historyAt else vtActiveSampledAt ent3)\<rparr>;
                liveMetrics = (if ambiguous then fmdrop AgentCapabilitiesKey ms else ms)
            in recordTelemetryLocked nodeID conditions liveMetrics agentVersion receivedAt historyAt interval ent4)
         else (ent2, [\<lparr>hsNodeID = nodeID, hsMetrics = ms, hsAt = historyAt, hsInterval = interval\<rparr>]))"

definition RecordTelemetrySequenced ::
  "bool \<Rightarrow> string \<Rightarrow> string \<Rightarrow> condition list \<Rightarrow> metrics \<Rightarrow> string \<Rightarrow> string \<Rightarrow> nat \<Rightarrow> time \<Rightarrow> duration \<Rightarrow> time \<Rightarrow>
   (db, err, telemetry_receipt) io" where
  "RecordTelemetrySequenced ctx t nodeID conditions ms agentVersion bootID sequence sampledAt interval0 receivedAt =
     (let interval = (if interval0 < 0 then 0 else interval0);
          receipt = \<lparr>trAcknowledgedSequence = sequence, trDuplicate = False,
                     trSampledAt = sampledAt, trReceivedAt = receivedAt\<rparr>
      in if TrimSpace bootID = [] then throw (ErrOther ''telemetry boot id is empty'')
         else if sequence = 0 then throw (ErrOther ''telemetry sequence must be positive'')
         else if sampledAt = 0 \<or> receivedAt = 0 then throw (ErrOther ''telemetry timestamps must be non-zero'')
         else bindM (telemetryNodeExists ctx t nodeID) (\<lambda>_.
           volatile (\<lambda>d.
             let ent = telemetryEntryLocked d t nodeID
             in case fmlookup (vtSequenceCursors ent) bootID of
                  Some cursor \<Rightarrow>
                    (if sequence \<le> tcHighestSequence cursor
                     then (receipt\<lparr>trDuplicate := True\<rparr>,
                           put_entry t nodeID (duplicate_sample bootID receivedAt cursor ent) [] d)
                     else (let (ent', samples) = fresh_sample nodeID conditions ms agentVersion bootID
                                 sequence sampledAt interval receivedAt ent
                           in (receipt, put_entry t nodeID ent' samples d)))
                | None \<Rightarrow>
                    (let (ent', samples) = fresh_sample nodeID conditions ms agentVersion bootID
                           sequence sampledAt interval receivedAt ent
                     in (receipt, put_entry t nodeID ent' samples d)))))"

definition TouchLastSeen :: "bool \<Rightarrow> string \<Rightarrow> string \<Rightarrow> time \<Rightarrow> (db, err, unit) io" where
  "TouchLastSeen ctx t nodeID at =
     bindM (ctxErr ctx) (\<lambda>_.
     bindM (kv_exists t CollNodes nodeID) (\<lambda>ok.
       if \<not> ok then throw ErrNotFound
       else volatile (\<lambda>d. ((), put_entry t nodeID
              (advance_last_seen at (telemetryEntryLocked d t nodeID)) [] d))))"

text \<open>The bounds every entry keeps.\<close>

definition telemetry_wf :: "volatile_telemetry \<Rightarrow> bool" where
  "telemetry_wf ent \<longleftrightarrow>
     fcard (fmdom (vtSequenceCursors ent)) \<le> maxTelemetrySequenceCursors \<and>
     fcard (fmdom (vtRetiredBoots ent)) \<le> maxTelemetryRetiredBoots \<and>
     [] |\<notin>| fmdom (vtSequenceCursors ent) \<and> [] |\<notin>| fmdom (vtRetiredBoots ent)"

definition overlay_wf :: "db \<Rightarrow> string \<Rightarrow> bool" where
  "overlay_wf d t \<longleftrightarrow> fmpred (\<lambda>_. telemetry_wf) (tdTelemetry (d t))"

text \<open>The fields of a node record an agent's heartbeat must never change.\<close>

definition custody_fields ::
  "node \<Rightarrow> string \<times> string \<times> string \<times> node_status \<times> int \<times> int \<times> string \<times> string \<times> time \<times> bool" where
  "custody_fields n = (nNodeID n, nWGPublicKey n, nAPITokenHash n, nStatus n, nDesiredGeneration n,
     nAppliedGeneration n, nLastChecksum n, nLastHealth n, nEnrolledAt n, nRekeyRequested n)"

section \<open>Eviction picks the least recently heard boot\<close>

lemma oldest_of_Min:
  assumes "fst best \<noteq> []" and "\<forall>c \<in> set cs. fst c \<noteq> []"
  shows "oldest_of cs best = prod.swap (Min (prod.swap ` insert best (set cs)))"
  using assms
proof (induction cs arbitrary: best)
  case (Cons c cs)
  obtain b ba i at where [simp]: "best = (b, ba)" "c = (i, at)" by (metis prod.exhaust)
  let ?m = "if at < ba \<or> at = ba \<and> i < b then (i, at) else (b, ba)"
  have sw: "prod.swap ?m = min (ba, b) (at, i)"
    by (auto simp: min_def less_eq_prod_def)
  have "oldest_of (c # cs) best = oldest_of cs ?m"
    using Cons.prems by simp
  also have "\<dots> = prod.swap (Min (prod.swap ` insert ?m (set cs)))"
    using Cons by (intro Cons.IH) auto
  also have "prod.swap ` insert ?m (set cs) = insert (min (ba, b) (at, i)) (prod.swap ` set cs)"
    by (simp only: image_insert sw)
  also have "Min \<dots> = Min (prod.swap ` insert best (set (c # cs)))"
    by (cases "cs = []") (simp_all add: min.assoc)
  finally show ?case .
qed simp

lemma oldest_of_start:
  assumes "cs \<noteq> []" and "\<forall>c \<in> set cs. fst c \<noteq> []"
  shows "oldest_of cs ([], at0) = prod.swap (Min (prod.swap ` set cs))"
proof (cases cs)
  case (Cons c cs')
  then show ?thesis
    using assms oldest_of_Min [of c cs'] by (cases c) simp
qed (use assms in simp)

text \<open>The result is one of the scanned entries, whatever order they are scanned in.\<close>

lemma oldest_of_mem:
  assumes "cs \<noteq> []" and "\<forall>c \<in> set cs. fst c \<noteq> []"
  shows "oldest_of cs ([], at0) \<in> set cs"
proof -
  have "Min (prod.swap ` set cs) \<in> prod.swap ` set cs"
    using assms(1) by (intro Min_in) auto
  then show ?thesis
    unfolding oldest_of_start [OF assms] by force
qed

lemma oldest_of_perm:
  assumes "set cs = set cs'" and "cs \<noteq> []" and "\<forall>c \<in> set cs. fst c \<noteq> []"
  shows "oldest_of cs ([], at0) = oldest_of cs' ([], at0)"
  using assms by (metis oldest_of_start set_empty)

lemma oldest_of_le:
  assumes "c \<in> set cs" and "\<forall>c \<in> set cs. fst c \<noteq> []"
  shows "snd (oldest_of cs ([], at0)) \<le> snd c"
proof -
  have "Min (prod.swap ` set cs) \<le> prod.swap c"
    using assms(1) by (intro Min_le) auto
  moreover have "cs \<noteq> []" using assms(1) by auto
  ultimately show ?thesis
    using oldest_of_start [of cs at0] assms(2) by (auto simp: less_eq_prod_def)
qed

section \<open>Bounded entries\<close>

lemma set_sorted_list_of_fmap: "(k, v) \<in> set (sorted_list_of_fmap m) \<longleftrightarrow> fmlookup m k = Some v"
  by (auto simp: sorted_list_of_fmap_def sorted_list_of_fset.rep_eq fmdomI fmlookup_dom_iff)

lemma fcard_fmupd:
  "fcard (fmdom (fmupd k v m)) = (if fmlookup m k = None then Suc (fcard (fmdom m)) else fcard (fmdom m))"
  by (auto simp: fcard_finsert_if fmlookup_dom_iff)

lemma fcard_fmdrop:
  "fmlookup m k \<noteq> None \<Longrightarrow> fcard (fmdom (fmdrop k m)) < fcard (fmdom m)"
  unfolding fmdom_drop by (rule fcard_fminus1_less) (auto simp: fmlookup_dom_iff)

lemma rememberRetiredTelemetryBoot_wf [simp]:
  assumes "telemetry_wf ent"
  shows "telemetry_wf (rememberRetiredTelemetryBoot bootID at ent)"
proof -
  let ?m = "vtRetiredBoots ent"
  have ne: "\<forall>c \<in> set (sorted_list_of_fmap ?m). fst c \<noteq> []"
    using assms by (auto simp: telemetry_wf_def set_sorted_list_of_fmap fmdomI)
  have "fmlookup ?m (fst (oldest_of (sorted_list_of_fmap ?m) ([], 0))) \<noteq> None"
    if "maxTelemetryRetiredBoots \<le> fcard (fmdom ?m)"
  proof -
    have "sorted_list_of_fmap ?m \<noteq> []"
      using that by (auto simp: maxTelemetryRetiredBoots_def sorted_list_of_fmap_def
          sorted_list_of_fset.rep_eq fcard.rep_eq)
    then show ?thesis
      using oldest_of_mem [OF _ ne, of 0]
      by (metis option.distinct(1) prod.collapse set_sorted_list_of_fmap)
  qed
  from fcard_fmdrop [OF this] show ?thesis
    using assms by (auto simp: rememberRetiredTelemetryBoot_def telemetry_wf_def Let_def fcard_fmupd
        simp del: fmdom_fmupd fmdom_drop) (auto simp: fmlookup_dom_iff)
qed

lemma evict_wf:
  assumes wf: "telemetry_wf ent" and full: "maxTelemetrySequenceCursors \<le> fcard (fmdom (vtSequenceCursors ent))"
    and ev: "evictOldestTelemetryCursor (vtSequenceCursors ent) p = ((rid, rat), cs)"
  shows "fcard (fmdom cs) < maxTelemetrySequenceCursors \<and> [] |\<notin>| fmdom cs \<and>
    (fmlookup (vtSequenceCursors ent) p \<noteq> None \<longrightarrow> fmlookup cs p = fmlookup (vtSequenceCursors ent) p)"
proof -
  let ?m = "vtSequenceCursors ent"
  let ?f = "filter (\<lambda>(b, c). \<not> (b = p \<and> 1 < fcard (fmdom ?m))) (sorted_list_of_fmap ?m)"
  let ?cs = "map (\<lambda>(b, c). (b, tcLastReceivedAt c)) ?f"
  have card: "fcard (fmdom ?m) = 4"
    using wf full by (simp add: telemetry_wf_def maxTelemetrySequenceCursors_def)
  have "\<exists>k. k |\<in>| fmdom ?m \<and> k \<noteq> p"
  proof (rule ccontr)
    assume "\<nexists>k. k |\<in>| fmdom ?m \<and> k \<noteq> p"
    then have "fmdom ?m |\<subseteq>| {|p|}" by auto
    from fcard_mono [OF this] show False using card by (simp add: fcard.rep_eq)
  qed
  then obtain k v where "fmlookup ?m k = Some v" "k \<noteq> p"
    by (auto simp: fmlookup_dom_iff)
  then have "(k, v) \<in> set ?f"
    by (auto simp: set_sorted_list_of_fmap)
  then have "?f \<noteq> []" by (metis empty_iff empty_set)
  then have ne: "?cs \<noteq> []" by simp
  have keys: "\<forall>c \<in> set ?cs. fst c \<noteq> []"
    using wf by (auto simp: telemetry_wf_def set_sorted_list_of_fmap fmdomI)
  have rid: "(rid, rat) \<in> set ?cs" and cs: "cs = (if rid \<noteq> [] then fmdrop rid ?m else ?m)"
    using oldest_of_mem [OF ne keys, of 0] ev
    by (auto simp: evictOldestTelemetryCursor_def Let_def)
  then have "fmlookup ?m rid \<noteq> None" "rid \<noteq> p" and "rid \<noteq> []"
    using card keys [rule_format, OF rid] by (auto simp: set_sorted_list_of_fmap)
  with cs show ?thesis
    using fcard_fmdrop [of ?m rid] card wf by (auto simp: maxTelemetrySequenceCursors_def telemetry_wf_def)
qed

lemma admit_cursor_wf:
  assumes wf: "telemetry_wf ent" and ne: "bootID \<noteq> []"
  shows "telemetry_wf (admit_cursor bootID sequence sampledAt receivedAt ent)"
proof (cases "fmlookup (vtSequenceCursors ent) bootID = None \<and>
              maxTelemetrySequenceCursors \<le> fcard (fmdom (vtSequenceCursors ent))")
  case True
  obtain rid rat cs where ev:
    "evictOldestTelemetryCursor (vtSequenceCursors ent) (vtActiveBootID ent) = ((rid, rat), cs)"
    by (metis prod.exhaust)
  have cs: "fcard (fmdom cs) < maxTelemetrySequenceCursors" "[] |\<notin>| fmdom cs"
    using evict_wf [OF wf _ ev] True by auto
  have same: "vtSequenceCursors (rememberRetiredTelemetryBoot rid rat e) = vtSequenceCursors e" for e
    by (simp add: rememberRetiredTelemetryBoot_def Let_def)
  have "telemetry_wf (ent\<lparr>vtSequenceCursors := cs\<rparr>)"
    using wf cs by (simp add: telemetry_wf_def)
  then have "telemetry_wf (rememberRetiredTelemetryBoot rid rat (ent\<lparr>vtSequenceCursors := cs\<rparr>))"
    by simp
  then show ?thesis
    using True cs ne
    by (auto simp: admit_cursor_def Let_def ev same telemetry_wf_def fcard_finsert_if)
next
  case False
  then show ?thesis
    using wf ne
    by (auto simp: admit_cursor_def Let_def telemetry_wf_def fcard_finsert_if fmlookup_dom_iff)
qed

lemma entry_updates_wf [simp]:
  "telemetry_wf zero_telemetry"
  "telemetry_wf (advance_last_seen at ent) = telemetry_wf ent"
  "telemetry_wf (refresh_entry cs v at ent) = telemetry_wf ent"
  "telemetry_wf (fst (recordTelemetryLocked nodeID conds ms v at hat iv ent)) = telemetry_wf ent"
  "telemetry_wf ent \<Longrightarrow> telemetry_wf (retire_on_capability_change ms at ent)"
proof -
  assume "telemetry_wf ent"
  then have "telemetry_wf (rememberRetiredTelemetryBoot b a ent)" for b a by simp
  then show "telemetry_wf (retire_on_capability_change ms at ent)"
    using \<open>telemetry_wf ent\<close> by (simp add: retire_on_capability_change_def Let_def telemetry_wf_def)
qed (auto simp: telemetry_wf_def zero_telemetry_def advance_last_seen_def refresh_entry_def Let_def
      recordTelemetryLocked_def fcard.rep_eq)

lemma duplicate_sample_wf:
  assumes "telemetry_wf ent" and "fmlookup (vtSequenceCursors ent) bootID = Some cursor"
  shows "telemetry_wf (duplicate_sample bootID receivedAt cursor ent)"
  using assms
  by (auto simp: duplicate_sample_def) (auto simp: telemetry_wf_def fcard_finsert_if fmlookup_dom_iff)

lemma fresh_sample_wf:
  assumes "telemetry_wf ent" and "bootID \<noteq> []"
  shows "telemetry_wf (fst (fresh_sample nodeID conditions ms v bootID sq sampledAt iv receivedAt ent))"
proof -
  have "telemetry_wf (ent\<lparr>vtTelemetry := m\<rparr>)" for m
    using assms by (simp add: telemetry_wf_def)
  then have a: "telemetry_wf (admit_cursor bootID sq sampledAt receivedAt (ent\<lparr>vtTelemetry := m\<rparr>))"
    "telemetry_wf (admit_cursor bootID sq sampledAt receivedAt ent)" for m
    using assms by (auto intro: admit_cursor_wf)
  have b: "telemetry_wf (e\<lparr>vtActiveBootID := x, vtActiveSampledAt := y\<rparr>) = telemetry_wf e" for e x y
    by (simp add: telemetry_wf_def)
  show ?thesis
    unfolding fresh_sample_def Let_def by (auto simp: a b split: prod.splits)
qed

section \<open>Handlers\<close>

lemma TrimSpace_Nil [simp]: "TrimSpace [] = []"
  by (simp add: TrimSpace_def trim_left.simps trim_right.simps)

lemma put_entry_simps [simp]:
  "tdTelemetry (put_entry t nodeID ent hs d t) = fmupd nodeID ent (tdTelemetry (d t))"
  "tdHistory (put_entry t nodeID ent hs d t) = tdHistory (d t) @ hs"
  "rec_at (put_entry t nodeID ent hs d) = rec_at d"
  "gen_at (put_entry t nodeID ent hs d) = gen_at d"
  "list_at (put_entry t nodeID ent hs d) = list_at d"
  by (auto simp: put_entry_def rec_at_def gen_at_def list_at_def fun_eq_iff)

lemma unchanged_put_entry: "RTelemetry \<in> R \<Longrightarrow> unchanged t R d (put_entry t nodeID ent hs d)"
  by (auto simp: unchanged_def put_entry_def)

lemma put_entry_cong:
  "x t = y t \<Longrightarrow> put_entry t nodeID ent hs x t = put_entry t nodeID ent hs y t"
  by (simp add: put_entry_def)

lemma entry_cong: "x t = y t \<Longrightarrow> telemetryEntryLocked x t nodeID = telemetryEntryLocked y t nodeID"
  by (simp add: telemetryEntryLocked_def)

lemma overlay_wf_entry: "overlay_wf d t \<Longrightarrow> telemetry_wf (telemetryEntryLocked d t nodeID)"
  by (auto simp: overlay_wf_def telemetryEntryLocked_def split: option.splits)

lemma overlay_wf_put: "overlay_wf d t \<Longrightarrow> telemetry_wf ent \<Longrightarrow> overlay_wf (put_entry t nodeID ent hs d) t"
  by (auto simp: overlay_wf_def)

lemma confined_telemetry [frame]:
  "RTelemetry \<in> R \<Longrightarrow> confined t R (refreshTelemetryOverlayFromReport t nodeID conds v at)"
  "RTelemetry \<in> R \<Longrightarrow> confined t R (RecordTelemetry ctx t nodeID conds' ms v at)"
  "RTelemetry \<in> R \<Longrightarrow>
     confined t R (RecordTelemetrySequenced ctx t nodeID conds' ms v bootID sq sampledAt iv receivedAt)"
  "RTelemetry \<in> R \<Longrightarrow> confined t R (TouchLastSeen ctx t nodeID at)"
  unfolding refreshTelemetryOverlayFromReport_def RecordTelemetry_def RecordTelemetrySequenced_def
    TouchLastSeen_def telemetryNodeExists_def Let_def
  by (auto intro!: frame unchanged_put_entry split: prod.splits option.splits)

lemma own_telemetry [frame]:
  "own t (refreshTelemetryOverlayFromReport t nodeID conds v at)"
  "own t (RecordTelemetry ctx t nodeID conds' ms v at)"
  "own t (RecordTelemetrySequenced ctx t nodeID conds' ms v bootID sq sampledAt iv receivedAt)"
  "own t (TouchLastSeen ctx t nodeID at)"
  unfolding refreshTelemetryOverlayFromReport_def RecordTelemetry_def RecordTelemetrySequenced_def
    TouchLastSeen_def telemetryNodeExists_def Let_def
  by (auto intro!: frame simp: telemetryEntryLocked_def put_entry_def split: prod.split option.split)



text \<open>What the entry helpers leave alone.\<close>

lemma remember_fields [simp]:
  "vtSequenceCursors (rememberRetiredTelemetryBoot b at ent) = vtSequenceCursors ent"
  "vtTelemetry (rememberRetiredTelemetryBoot b at ent) = vtTelemetry ent"
  "vtConditions (rememberRetiredTelemetryBoot b at ent) = vtConditions ent"
  "vtAgentVersion (rememberRetiredTelemetryBoot b at ent) = vtAgentVersion ent"
  "vtTelemetrySet (rememberRetiredTelemetryBoot b at ent) = vtTelemetrySet ent"
  "vtWrittenAt (rememberRetiredTelemetryBoot b at ent) = vtWrittenAt ent"
  "vtLastSeen (rememberRetiredTelemetryBoot b at ent) = vtLastSeen ent"
  "vtLastSeenSet (rememberRetiredTelemetryBoot b at ent) = vtLastSeenSet ent"
  "vtActiveBootID (rememberRetiredTelemetryBoot b at ent) = vtActiveBootID ent"
  "vtActiveSampledAt (rememberRetiredTelemetryBoot b at ent) = vtActiveSampledAt ent"
  "b \<noteq> [] \<Longrightarrow> fmlookup (vtRetiredBoots (rememberRetiredTelemetryBoot b at ent)) b = Some at"
  by (simp_all add: rememberRetiredTelemetryBoot_def Let_def)

lemma advance_fields [simp]:
  "vtSequenceCursors (advance_last_seen at ent) = vtSequenceCursors ent"
  "vtTelemetry (advance_last_seen at ent) = vtTelemetry ent"
  "vtConditions (advance_last_seen at ent) = vtConditions ent"
  "vtAgentVersion (advance_last_seen at ent) = vtAgentVersion ent"
  "vtTelemetrySet (advance_last_seen at ent) = vtTelemetrySet ent"
  "vtWrittenAt (advance_last_seen at ent) = vtWrittenAt ent"
  "vtActiveBootID (advance_last_seen at ent) = vtActiveBootID ent"
  "vtActiveSampledAt (advance_last_seen at ent) = vtActiveSampledAt ent"
  "vtRetiredBoots (advance_last_seen at ent) = vtRetiredBoots ent"
  "vtLastSeenSet (advance_last_seen at ent)"
  "vtLastSeen (advance_last_seen at ent) = (if vtLastSeenSet ent then max (vtLastSeen ent) at else at)"
  by (auto simp: advance_last_seen_def)

lemma admit_fields [simp]:
  "vtTelemetry (admit_cursor b sq s r ent) = vtTelemetry ent"
  "vtConditions (admit_cursor b sq s r ent) = vtConditions ent"
  "vtAgentVersion (admit_cursor b sq s r ent) = vtAgentVersion ent"
  "vtTelemetrySet (admit_cursor b sq s r ent) = vtTelemetrySet ent"
  "vtWrittenAt (admit_cursor b sq s r ent) = vtWrittenAt ent"
  "vtLastSeen (admit_cursor b sq s r ent) = vtLastSeen ent"
  "vtLastSeenSet (admit_cursor b sq s r ent) = vtLastSeenSet ent"
  "vtActiveBootID (admit_cursor b sq s r ent) = vtActiveBootID ent"
  "vtActiveSampledAt (admit_cursor b sq s r ent) = vtActiveSampledAt ent"
  "\<exists>c. fmlookup (vtSequenceCursors (admit_cursor b sq s r ent)) b = Some c \<and> tcHighestSequence c = sq"
  by (auto simp: admit_cursor_def Let_def advance_cursor_def split: prod.splits)

lemma record_fields [simp]:
  "vtSequenceCursors (fst (recordTelemetryLocked nodeID conds ms v at hat iv ent)) = vtSequenceCursors ent"
  "vtRetiredBoots (fst (recordTelemetryLocked nodeID conds ms v at hat iv ent)) = vtRetiredBoots ent"
  "vtActiveBootID (fst (recordTelemetryLocked nodeID conds ms v at hat iv ent)) = vtActiveBootID ent"
  "vtLastSeen (fst (recordTelemetryLocked nodeID conds ms v at hat iv ent)) = vtLastSeen (advance_last_seen at ent)"
  "vtLastSeenSet (fst (recordTelemetryLocked nodeID conds ms v at hat iv ent))"
  "snd (recordTelemetryLocked nodeID conds ms v at hat iv ent) =
     [\<lparr>hsNodeID = nodeID, hsMetrics = ms, hsAt = hat, hsInterval = iv\<rparr>]"
  by (simp_all add: recordTelemetryLocked_def Let_def)

lemma duplicate_fields [simp]:
  "vtTelemetry (duplicate_sample b r c ent) = vtTelemetry ent"
  "vtConditions (duplicate_sample b r c ent) = vtConditions ent"
  "vtAgentVersion (duplicate_sample b r c ent) = vtAgentVersion ent"
  "vtTelemetrySet (duplicate_sample b r c ent) = vtTelemetrySet ent"
  "vtActiveBootID (duplicate_sample b r c ent) = vtActiveBootID ent"
  "vtRetiredBoots (duplicate_sample b r c ent) = vtRetiredBoots ent"
  "vtLastSeen (duplicate_sample b r c ent) = vtLastSeen (advance_last_seen r ent)"
  "vtLastSeenSet (duplicate_sample b r c ent)"
  by (simp_all add: duplicate_sample_def)


lemma record_agent_version:
  "v \<noteq> [] \<Longrightarrow> vtWrittenAt ent \<le> at \<Longrightarrow>
   vtAgentVersion (fst (recordTelemetryLocked nodeID conds ms v at hat iv ent)) = v"
  by (simp add: recordTelemetryLocked_def Let_def)

lemma fresh_sample_live:
  assumes "normalizeTelemetrySampleTime s r = (nz, tr)" and "sample_live ent b s tr"
  shows "vtActiveBootID (fst (fresh_sample nodeID conds ms v b sq s iv r ent)) = b"
    and "v \<noteq> [] \<Longrightarrow> vtWrittenAt ent \<le> r \<Longrightarrow>
      vtAgentVersion (fst (fresh_sample nodeID conds ms v b sq s iv r ent)) = v"
  using assms unfolding fresh_sample_def Let_def by (simp_all add: record_agent_version)

text \<open>A boot that lost the overlay cannot take it back.\<close>

lemma retired_not_live: "fmlookup (vtRetiredBoots ent) b \<noteq> None \<Longrightarrow> \<not> sample_live ent b s trusted"
  by (simp add: sample_live_def Let_def)

lemma fresh_sample_retired:
  assumes "fmlookup (vtRetiredBoots ent) b \<noteq> None"
    and "fresh_sample nodeID conds ms v b sq s iv r ent = (ent', hs)"
  shows "vtConditions ent' = vtConditions ent" "vtAgentVersion ent' = vtAgentVersion ent"
    "vtActiveBootID ent' = vtActiveBootID ent" "vtActiveSampledAt ent' = vtActiveSampledAt ent"
    "vtTelemetry ent' = vtTelemetry ent \<or> vtTelemetry ent' = fmdrop AgentCapabilitiesKey (vtTelemetry ent)"
  using assms retired_not_live [OF assms(1)] unfolding fresh_sample_def Let_def
  by (auto split: prod.splits if_splits)

lemma fresh_sample_takeover:
  assumes "fresh_sample nodeID conds ms v b sq s iv r ent = (ent', hs)"
    and "vtActiveBootID ent' \<noteq> vtActiveBootID ent" and "vtActiveBootID ent \<noteq> []"
  shows "vtActiveBootID ent' = b \<and> fmlookup (vtRetiredBoots ent') (vtActiveBootID ent) \<noteq> None"
proof -
  have e: "ent' = fst (fresh_sample nodeID conds ms v b sq s iv r ent)"
    using assms by simp
  obtain nz tr where n: "normalizeTelemetrySampleTime s r = (nz, tr)"
    by (metis prod.exhaust)
  show ?thesis
    using assms(2,3) unfolding e fresh_sample_def Let_def cross_boot_def
    by (cases "sample_live ent b s tr") (auto simp: n split: if_splits)
qed



section \<open>Properties\<close>



text \<open>
  Claim C11: a heartbeat never writes a durable record.  Under every fault script the four
  telemetry entry points change nothing but the overlay and the history of the addressed tenant, and
  the overlay itself cannot change a custody field of a node it is merged into.
\<close>

theorem heartbeats_touch_only_the_overlay:
  "confined t {RTelemetry} (RecordTelemetry ctx t nodeID conds ms v at) \<and>
   confined t {RTelemetry}
     (RecordTelemetrySequenced ctx t nodeID conds ms v bootID sq sampledAt iv receivedAt) \<and>
   confined t {RTelemetry} (TouchLastSeen ctx t nodeID at) \<and>
   confined t {RTelemetry} (refreshTelemetryOverlayFromReport t nodeID stamped v at) \<and>
   custody_fields (applyTelemetryOverlay d t n) = custody_fields n"
  by (simp add: confined_telemetry custody_fields_def applyTelemetryOverlay_def overlay_node_def Let_def
      split: option.splits)

text \<open>
  Claim C12: a superseded agent process cannot reclaim the live state.  When a sample of
  boot \<open>b\<close> takes the live overlay over from another boot, that boot is remembered as retired; and as
  long as a boot is remembered, a sample of it (fresh, with any clock) leaves the conditions, the
  agent version and the ownership of the overlay alone, and can at most withdraw the capability
  advertisement.
\<close>

theorem superseded_boot_stays_retired:
  assumes "fresh_sample nodeID conds ms v b sq s iv r ent = (ent', hs)"
  shows "(vtActiveBootID ent' \<noteq> vtActiveBootID ent \<and> vtActiveBootID ent \<noteq> [] \<longrightarrow>
       vtActiveBootID ent' = b \<and> fmlookup (vtRetiredBoots ent') (vtActiveBootID ent) \<noteq> None) \<and>
    (fmlookup (vtRetiredBoots ent) b \<noteq> None \<longrightarrow>
       vtConditions ent' = vtConditions ent \<and> vtAgentVersion ent' = vtAgentVersion ent \<and>
       vtActiveBootID ent' = vtActiveBootID ent \<and>
       (vtTelemetry ent' = vtTelemetry ent \<or>
        vtTelemetry ent' = fmdrop AgentCapabilitiesKey (vtTelemetry ent)))"
  using fresh_sample_takeover [OF assms] fresh_sample_retired [OF _ assms] by blast

theorem superseded_boot_stays_retired_witness:
  "let ent = zero_telemetry\<lparr>vtActiveBootID := ''a'', vtActiveSampledAt := 100, vtTelemetrySet := True\<rparr>;
       ent' = fst (fresh_sample ''n1'' [] fmempty ''v2'' ''b'' 1 200 30 200 ent);
       ent'' = fst (fresh_sample ''n1'' [] fmempty ''v1'' ''a'' 9 300 30 300 ent')
   in vtActiveBootID ent' = ''b'' \<and> fmlookup (vtRetiredBoots ent') ''a'' \<noteq> None \<and>
      vtActiveBootID ent'' = ''b'' \<and> vtAgentVersion ent'' = ''v2''"
proof -
  let ?ent = "zero_telemetry\<lparr>vtActiveBootID := ''a'', vtActiveSampledAt := 100, vtTelemetrySet := True\<rparr>"
  obtain ent' hs where e': "fresh_sample ''n1'' [] fmempty ''v2'' ''b'' 1 200 30 200 ?ent = (ent', hs)"
    by (metis prod.exhaust)
  obtain ent'' hs' where e'': "fresh_sample ''n1'' [] fmempty ''v1'' ''a'' 9 300 30 300 ent' = (ent'', hs')"
    by (metis prod.exhaust)
  have live: "sample_live ?ent ''b'' 200 True"
    by (simp add: sample_live_def cross_boot_def zero_telemetry_def telemetryBootStaleSlack_def)
  have trusted: "normalizeTelemetrySampleTime 200 200 = (200, True)"
    by (simp add: normalizeTelemetrySampleTime_def maxTelemetryReplayAge_def maxTelemetryFutureSkew_def)
  have b: "vtActiveBootID ent' = ''b''" "vtAgentVersion ent' = ''v2''"
    using e' fresh_sample_live [OF trusted live, where nodeID = "''n1''" and conds = "[]"
        and ms = fmempty and v = "''v2''" and sq = 1 and iv = 30]
    by (simp_all add: zero_telemetry_def)
  then have "fmlookup (vtRetiredBoots ent') ''a'' \<noteq> None"
    using conjunct1 [OF superseded_boot_stays_retired [OF e']] by (simp add: zero_telemetry_def)
  then show ?thesis
    using b e' e'' conjunct2 [OF superseded_boot_stays_retired [OF e'']] by (simp add: Let_def)
qed

end
