(* ===== verification/Store_Core.thy ===== *)
theory Store_Core
  imports Telemetry
begin

text \<open>
  The store core (\<^verbatim>\<open>internal/controller/storecore.go\<close>) without the topology history and the staged
  set, which have theories of their own: the node registry, enrollment tokens, assertion challenges,
  node API tokens, the operator credential and its pending transition, operators, sessions, settings
  and the signing anchor.  \<open>ctx\<close> says whether the request's context is already done; the wall clock a
  method is given (\<open>now\<close>) is an argument as in the source.
\<close>

section \<open>Registry\<close>

definition UpsertNode :: "bool \<Rightarrow> string \<Rightarrow> node \<Rightarrow> (db, err, unit) io" where
  "UpsertNode ctx t n =
     bindM (ctxErr ctx) (\<lambda>_. saveJSON VNode t CollNodes (nNodeID n) n)"

definition getNode :: "bool \<Rightarrow> string \<Rightarrow> string \<Rightarrow> bool \<Rightarrow> (db, err, node) io" where
  "getNode ctx t nodeID withOverlay =
     bindM (ctxErr ctx) (\<lambda>_.
     bindM (loadJSON as_node t CollNodes nodeID) (\<lambda>n.
       if withOverlay then volatile (\<lambda>d. (applyTelemetryOverlay d t n, d)) else ret n))"

definition GetNode :: "bool \<Rightarrow> string \<Rightarrow> string \<Rightarrow> (db, err, node) io" where
  "GetNode ctx t nodeID = getNode ctx t nodeID True"

definition GetNodeRecord :: "bool \<Rightarrow> string \<Rightarrow> string \<Rightarrow> (db, err, node) io" where
  "GetNodeRecord ctx t nodeID = getNode ctx t nodeID False"

definition ListNodes :: "bool \<Rightarrow> string \<Rightarrow> (db, err, node list) io" where
  "ListNodes ctx t =
     bindM (ctxErr ctx) (\<lambda>_.
     bindM (kv_list t CollNodes) (\<lambda>recs.
       case those (map (\<lambda>(k, v). as_node v) recs) of
         None \<Rightarrow> throw ErrParse
       | Some ns \<Rightarrow> volatile (\<lambda>d. (map (applyTelemetryOverlay d t) ns, d))))"

definition SetAppliedGeneration ::
  "bool \<Rightarrow> string \<Rightarrow> string \<Rightarrow> int \<Rightarrow> string \<Rightarrow> string \<Rightarrow> string \<Rightarrow> condition list \<Rightarrow> time \<Rightarrow> (db, err, unit) io" where
  "SetAppliedGeneration ctx t nodeID gen checksum health agentVersion conditions observedAt =
     bindM (ctxErr ctx) (\<lambda>_.
     bindM (loadJSON as_node t CollNodes nodeID) (\<lambda>n0.
       let n1 = n0\<lparr>nAppliedGeneration := gen, nLastChecksum := checksum, nLastHealth := health\<rparr>;
           n2 = (if agentVersion \<noteq> [] then n1\<lparr>nLastAgentVersion := agentVersion\<rparr> else n1);
           n = n2\<lparr>nConditions := stampConditions conditions observedAt\<rparr>
       in bindM (saveJSON VNode t CollNodes nodeID n) (\<lambda>_.
            refreshTelemetryOverlayFromReport t nodeID (nConditions n) agentVersion observedAt)))"

section \<open>Bundles and generation: the plain reads\<close>

definition GetCurrentBundle :: "bool \<Rightarrow> string \<Rightarrow> string \<Rightarrow> (db, err, signed_bundle) io" where
  "GetCurrentBundle ctx t nodeID =
     bindM (ctxErr ctx) (\<lambda>_. loadJSON as_bundle t CollCurrent nodeID)"

definition CurrentGeneration :: "bool \<Rightarrow> string \<Rightarrow> (db, err, int) io" where
  "CurrentGeneration ctx t = bindM (ctxErr ctx) (\<lambda>_. kv_generation t)"

section \<open>Enrollment tokens\<close>

definition CreateEnrollmentToken :: "bool \<Rightarrow> string \<Rightarrow> enrollment_token \<Rightarrow> (db, err, unit) io" where
  "CreateEnrollmentToken ctx t tok =
     bindM (ctxErr ctx) (\<lambda>_. saveJSON VToken t CollTokens (etTokenHash tok) tok)"

definition ConsumeEnrollmentToken ::
  "bool \<Rightarrow> string \<Rightarrow> string \<Rightarrow> string \<Rightarrow> time \<Rightarrow> (db, err, unit) io" where
  "ConsumeEnrollmentToken ctx t tokenHash nodeID now =
     bindM (ctxErr ctx) (\<lambda>_.
     bindM (loadOpt as_token t CollTokens tokenHash) (\<lambda>r.
       case r of
         None \<Rightarrow> throw ErrTokenInvalid
       | Some tok \<Rightarrow>
           (if etNodeID tok \<noteq> nodeID \<or> \<not> now < etExpiresAt tok then throw ErrTokenInvalid
            else if etConsumedAt tok \<noteq> None then throw ErrTokenConsumed
            else saveJSON VToken t CollTokens tokenHash (tok\<lparr>etConsumedAt := Some now\<rparr>))))"

text \<open>The purge reports its count together with the error, so both are part of the result.\<close>

fun purge_tokens :: "string \<Rightarrow> string \<Rightarrow> (string \<times> kvval) list \<Rightarrow> nat \<Rightarrow> (db, err, nat \<times> err option) io" where
  "purge_tokens t nodeID [] n = ret (n, None)"
| "purge_tokens t nodeID ((key, v) # recs) n =
     (case as_token v of
        None \<Rightarrow> purge_tokens t nodeID recs n
      | Some tok \<Rightarrow>
          (if etNodeID tok = nodeID then
             bindM (attempt (kv_del t CollTokens key)) (\<lambda>r.
               case r of
                 Inl e \<Rightarrow> ret (n, Some e)
               | Inr _ \<Rightarrow> purge_tokens t nodeID recs (n + 1))
           else purge_tokens t nodeID recs n))"

definition PurgeEnrollmentTokensForNode ::
  "bool \<Rightarrow> string \<Rightarrow> string \<Rightarrow> (db, err, nat \<times> err option) io" where
  "PurgeEnrollmentTokensForNode ctx t nodeID =
     (if ctx then ret (0, Some ErrCtx)
      else bindM (attempt (kv_list t CollTokens)) (\<lambda>r.
        case r of
          Inl e \<Rightarrow> ret (0, Some e)
        | Inr recs \<Rightarrow> purge_tokens t nodeID recs 0))"

section \<open>Assertion challenges\<close>

definition createAssertionChallenge ::
  "bool \<Rightarrow> string \<Rightarrow> assertion_challenge \<Rightarrow> time \<Rightarrow> bool \<Rightarrow> (db, err, unit) io" where
  "createAssertionChallenge ctx t challenge now replaceSubject =
     bindM (ctxErr ctx) (\<lambda>_.
     bindM (kv_list t CollLoginChal) (\<lambda>recs.
     bindM (forM recs (\<lambda>(key, v).
        case as_challenge v of
          None \<Rightarrow> ret ()
        | Some prior \<Rightarrow>
            (if \<not> now < acExpiresAt prior \<or> replaceSubject \<and> acSubject prior = acSubject challenge
             then kv_del t CollLoginChal key else ret ()))) (\<lambda>_.
       saveJSON VChallenge t CollLoginChal (acChallengeHash challenge) challenge)))"

definition CreateAssertionChallenge ::
  "bool \<Rightarrow> string \<Rightarrow> assertion_challenge \<Rightarrow> time \<Rightarrow> (db, err, unit) io" where
  "CreateAssertionChallenge ctx t challenge now = createAssertionChallenge ctx t challenge now False"

definition ReplaceAssertionChallengeForSubject ::
  "bool \<Rightarrow> string \<Rightarrow> assertion_challenge \<Rightarrow> time \<Rightarrow> (db, err, unit) io" where
  "ReplaceAssertionChallengeForSubject ctx t challenge now =
     createAssertionChallenge ctx t challenge now True"

definition ConsumeAssertionChallenge ::
  "bool \<Rightarrow> string \<Rightarrow> string \<Rightarrow> string \<Rightarrow> time \<Rightarrow> (db, err, unit) io" where
  "ConsumeAssertionChallenge ctx t challengeHash subject now =
     bindM (ctxErr ctx) (\<lambda>_.
     bindM (loadOpt as_challenge t CollLoginChal challengeHash) (\<lambda>r.
       case r of
         None \<Rightarrow> throw ErrChallengeInvalid
       | Some challenge \<Rightarrow>
           (if \<not> now < acExpiresAt challenge
            then bindM (kv_del t CollLoginChal challengeHash) (\<lambda>_. throw ErrChallengeInvalid)
            else if acSubject challenge \<noteq> subject then throw ErrChallengeInvalid
            else kv_del t CollLoginChal challengeHash)))"

section \<open>Node API tokens\<close>

definition IssueNodeAPIToken :: "bool \<Rightarrow> string \<Rightarrow> string \<Rightarrow> string \<Rightarrow> (db, err, unit) io" where
  "IssueNodeAPIToken ctx t nodeID tokenHash =
     bindM (ctxErr ctx) (\<lambda>_.
     bindM (loadJSON as_node t CollNodes nodeID) (\<lambda>n.
     bindM (if nAPITokenHash n \<noteq> [] \<and> nAPITokenHash n \<noteq> tokenHash
            then kv_del t CollAPITokens (nAPITokenHash n) else ret ()) (\<lambda>_.
     bindM (saveJSON VNode t CollNodes nodeID (n\<lparr>nAPITokenHash := tokenHash\<rparr>)) (\<lambda>_.
       saveJSON VAPIToken t CollAPITokens tokenHash nodeID))))"

definition LookupNodeByAPIToken :: "bool \<Rightarrow> string \<Rightarrow> string \<Rightarrow> (db, err, node) io" where
  "LookupNodeByAPIToken ctx t tokenHash =
     bindM (ctxErr ctx) (\<lambda>_.
     bindM (loadOpt as_apitoken t CollAPITokens tokenHash) (\<lambda>r.
       case r of
         None \<Rightarrow> throw ErrTokenInvalid
       | Some idxNodeID \<Rightarrow>
           bindM (loadOpt as_node t CollNodes idxNodeID) (\<lambda>r2.
             case r2 of
               None \<Rightarrow> throw ErrTokenInvalid
             | Some n \<Rightarrow>
                 (if nAPITokenHash n \<noteq> tokenHash \<or> nStatus n \<noteq> NodeApproved
                  then throw ErrTokenInvalid else ret n))))"

definition RevokeNodeAPIToken :: "bool \<Rightarrow> string \<Rightarrow> string \<Rightarrow> (db, err, unit) io" where
  "RevokeNodeAPIToken ctx t nodeID =
     bindM (ctxErr ctx) (\<lambda>_.
     bindM (loadOpt as_node t CollNodes nodeID) (\<lambda>r.
       case r of
         None \<Rightarrow> ret ()
       | Some n \<Rightarrow>
           (if nAPITokenHash n = [] then ret ()
            else bindM (saveJSON VNode t CollNodes nodeID (n\<lparr>nAPITokenHash := []\<rparr>)) (\<lambda>_.
                   kv_del t CollAPITokens (nAPITokenHash n)))))"

section \<open>Operator credential and pending transition\<close>

definition CompareAndSetOperatorCredential ::
  "bool \<Rightarrow> string \<Rightarrow> operator_credential option \<Rightarrow> operator_credential \<Rightarrow> (db, err, unit) io" where
  "CompareAndSetOperatorCredential ctx t expected next =
     bindM (ctxErr ctx) (\<lambda>_.
     bindM (loadOpt as_credential t CollOperatorCred []) (\<lambda>current.
       case expected of
         None \<Rightarrow>
           (if current \<noteq> None then throw ErrOperatorCredentialChanged
            else saveJSON VCredential t CollOperatorCred [] next)
       | Some e \<Rightarrow>
           (case current of
              None \<Rightarrow> throw ErrOperatorCredentialChanged
            | Some cur \<Rightarrow>
                (if cur \<noteq> e then throw ErrOperatorCredentialChanged
                 else if cur = next then ret ()
                 else saveJSON VCredential t CollOperatorCred [] next))))"

definition GetOperatorCredential :: "bool \<Rightarrow> string \<Rightarrow> (db, err, operator_credential) io" where
  "GetOperatorCredential ctx t =
     bindM (ctxErr ctx) (\<lambda>_. loadJSON as_credential t CollOperatorCred [])"

definition CreatePendingKeystoneTransition ::
  "bool \<Rightarrow> string \<Rightarrow> pending_keystone_transition \<Rightarrow> (db, err, unit) io" where
  "CreatePendingKeystoneTransition ctx t pending =
     bindM (ctxErr ctx) (\<lambda>_.
       if aEventID (ptAudit pending) = [] \<or> aTimestamp (ptAudit pending) = 0 then throw ErrArg
       else bindM (loadOpt as_transition t CollKeystoneTransition []) (\<lambda>current.
         case current of
           Some cur \<Rightarrow>
             (if aEventID (ptAudit cur) = aEventID (ptAudit pending) \<and> cur = pending then ret ()
              else throw ErrPendingKeystoneTransitionConflict)
         | None \<Rightarrow> saveJSON VTransition t CollKeystoneTransition [] pending))"

definition GetPendingKeystoneTransition :: "bool \<Rightarrow> string \<Rightarrow> (db, err, pending_keystone_transition) io" where
  "GetPendingKeystoneTransition ctx t =
     bindM (ctxErr ctx) (\<lambda>_. loadJSON as_transition t CollKeystoneTransition [])"

definition DeletePendingKeystoneTransition :: "bool \<Rightarrow> string \<Rightarrow> string \<Rightarrow> (db, err, unit) io" where
  "DeletePendingKeystoneTransition ctx t eventID =
     bindM (ctxErr ctx) (\<lambda>_.
       if eventID = [] then throw ErrArg
       else bindM (loadOpt as_transition t CollKeystoneTransition []) (\<lambda>current.
         case current of
           None \<Rightarrow> ret ()
         | Some cur \<Rightarrow>
             (if aEventID (ptAudit cur) \<noteq> eventID then throw ErrPendingKeystoneTransitionConflict
              else kv_del t CollKeystoneTransition [])))"

section \<open>Operators and sessions\<close>

definition PutOperator :: "bool \<Rightarrow> string \<Rightarrow> operator \<Rightarrow> (db, err, unit) io" where
  "PutOperator ctx t opr =
     bindM (ctxErr ctx) (\<lambda>_. saveJSON VOperator t CollOperators (opUsername opr) opr)"

definition sameLoginCredential :: "login_credential option \<Rightarrow> login_credential option \<Rightarrow> bool" where
  "sameLoginCredential a b =
     (case (a, b) of
        (Some x, Some y) \<Rightarrow> x = y
      | _ \<Rightarrow> a = None \<and> b = None)"

definition CompareAndSetLoginCredential ::
  "bool \<Rightarrow> string \<Rightarrow> string \<Rightarrow> login_credential option \<Rightarrow> login_credential option \<Rightarrow> time \<Rightarrow> (db, err, unit) io" where
  "CompareAndSetLoginCredential ctx t username expected next now =
     bindM (ctxErr ctx) (\<lambda>_.
     bindM (loadJSON as_operator t CollOperators username) (\<lambda>opr.
       if \<not> sameLoginCredential (opLoginCredential opr) expected then throw ErrLoginCredentialChanged
       else saveJSON VOperator t CollOperators username
              (opr\<lparr>opLoginCredential := next, opUpdatedAt := now\<rparr>)))"

definition CompareAndSetTOTPState ::
  "bool \<Rightarrow> string \<Rightarrow> string \<Rightarrow> totp_state \<Rightarrow> totp_state \<Rightarrow> time \<Rightarrow> (db, err, unit) io" where
  "CompareAndSetTOTPState ctx t username expected next now =
     bindM (ctxErr ctx) (\<lambda>_.
     bindM (loadJSON as_operator t CollOperators username) (\<lambda>opr.
       if \<lparr>tsSecret = opTOTPSecret opr, tsLastUsedStep = opTOTPLastUsedStep opr\<rparr> \<noteq> expected
       then throw ErrTOTPStateChanged
       else saveJSON VOperator t CollOperators username
              (opr\<lparr>opTOTPSecret := tsSecret next, opTOTPLastUsedStep := tsLastUsedStep next,
                   opUpdatedAt := now\<rparr>)))"

definition GetOperator :: "bool \<Rightarrow> string \<Rightarrow> string \<Rightarrow> (db, err, operator) io" where
  "GetOperator ctx t username =
     bindM (ctxErr ctx) (\<lambda>_. loadJSON as_operator t CollOperators username)"

definition ListOperators :: "bool \<Rightarrow> string \<Rightarrow> (db, err, operator list) io" where
  "ListOperators ctx t =
     bindM (ctxErr ctx) (\<lambda>_.
     bindM (kv_list t CollOperators) (\<lambda>recs.
       case those (map (\<lambda>(k, v). as_operator v) recs) of None \<Rightarrow> throw ErrParse | Some ops \<Rightarrow> ret ops))"

definition DeleteOperator :: "bool \<Rightarrow> string \<Rightarrow> string \<Rightarrow> (db, err, unit) io" where
  "DeleteOperator ctx t username = bindM (ctxErr ctx) (\<lambda>_. kv_del t CollOperators username)"

definition AdvanceTOTPStep :: "bool \<Rightarrow> string \<Rightarrow> string \<Rightarrow> int \<Rightarrow> (db, err, bool) io" where
  "AdvanceTOTPStep ctx t username step =
     bindM (ctxErr ctx) (\<lambda>_.
     bindM (loadJSON as_operator t CollOperators username) (\<lambda>opr.
       if step \<le> opTOTPLastUsedStep opr then ret False
       else bindM (saveJSON VOperator t CollOperators username (opr\<lparr>opTOTPLastUsedStep := step\<rparr>))
              (\<lambda>_. ret True)))"

definition CreateSession :: "bool \<Rightarrow> string \<Rightarrow> session \<Rightarrow> (db, err, unit) io" where
  "CreateSession ctx t sess =
     bindM (ctxErr ctx) (\<lambda>_. saveJSON VSession t CollSessions (seTokenHash sess) sess)"

definition LookupSession :: "bool \<Rightarrow> string \<Rightarrow> string \<Rightarrow> time \<Rightarrow> (db, err, session) io" where
  "LookupSession ctx t tokenHash now =
     bindM (ctxErr ctx) (\<lambda>_.
     bindM (loadOpt as_session t CollSessions tokenHash) (\<lambda>r.
       case r of
         None \<Rightarrow> throw ErrTokenInvalid
       | Some sess \<Rightarrow>
           (if \<not> now < seExpiresAt sess
            then bindM (kv_del t CollSessions tokenHash) (\<lambda>_. throw ErrTokenInvalid)
            else ret sess)))"

definition DeleteSession :: "bool \<Rightarrow> string \<Rightarrow> string \<Rightarrow> (db, err, unit) io" where
  "DeleteSession ctx t tokenHash = bindM (ctxErr ctx) (\<lambda>_. kv_del t CollSessions tokenHash)"

section \<open>Settings and signing anchor\<close>

text \<open>\<^verbatim>\<open>history.setCap\<close>: the cap cache the append path reads.\<close>

definition setCap :: "string \<Rightarrow> int \<Rightarrow> (db, err, unit) io" where
  "setCap t cap = volatile (\<lambda>d. ((), d(t := (d t)\<lparr>tdHistoryCap := cap\<rparr>)))"

definition GetSettings :: "bool \<Rightarrow> string \<Rightarrow> (db, err, controller_settings) io" where
  "GetSettings ctx t =
     bindM (ctxErr ctx) (\<lambda>_.
     bindM (loadJSON as_settings t CollSettings []) (\<lambda>cs.
     bindM (setCap t (EffectiveHistoryCap cs)) (\<lambda>_. ret cs)))"

definition PutSettings :: "bool \<Rightarrow> string \<Rightarrow> controller_settings \<Rightarrow> (db, err, unit) io" where
  "PutSettings ctx t cs =
     bindM (ctxErr ctx) (\<lambda>_.
     bindM (saveJSON VSettings t CollSettings [] cs) (\<lambda>_. setCap t (EffectiveHistoryCap cs)))"

definition GetSigningAnchor :: "bool \<Rightarrow> string \<Rightarrow> (db, err, signing_anchor) io" where
  "GetSigningAnchor ctx t =
     bindM (ctxErr ctx) (\<lambda>_. loadJSON as_anchor t CollSigningAnchor [])"

definition PutSigningAnchor :: "bool \<Rightarrow> string \<Rightarrow> signing_anchor \<Rightarrow> (db, err, unit) io" where
  "PutSigningAnchor ctx t a =
     bindM (ctxErr ctx) (\<lambda>_. saveJSON VAnchor t CollSigningAnchor [] a)"

section \<open>Footprints\<close>

lemma unchanged_cap: "RCap \<in> R \<Longrightarrow> unchanged t R d (d(t := (d t)\<lparr>tdHistoryCap := cap\<rparr>))"
  by (auto simp: unchanged_def)

lemma confined_setCap [frame]: "RCap \<in> R \<Longrightarrow> confined t R (setCap t cap)"
  unfolding setCap_def by (rule confined_volatile) (simp add: unchanged_cap)

lemma own_setCap [frame]: "own t (setCap t cap)"
  unfolding setCap_def by (rule own_volatile) simp

lemma own_overlay [frame]: "own t (volatile (\<lambda>d. (applyTelemetryOverlay d t n, d)))"
  by (rule own_volatile) (simp add: applyTelemetryOverlay_def)

lemma own_overlays [frame]: "own t (volatile (\<lambda>d. (map (applyTelemetryOverlay d t) ns, d)))"
  by (rule own_volatile) (simp add: applyTelemetryOverlay_def)

lemma confined_purge_tokens [frame]: "RColl CollTokens \<in> R \<Longrightarrow> confined t R (purge_tokens t nodeID recs n)"
  by (induction t nodeID recs n rule: purge_tokens.induct) (auto intro!: frame split: option.splits)

lemma own_purge_tokens [frame]: "own t (purge_tokens t nodeID recs n)"
  by (induction t nodeID recs n rule: purge_tokens.induct) (auto intro!: frame split: option.splits)

lemmas registry_defs = UpsertNode_def getNode_def GetNode_def GetNodeRecord_def ListNodes_def
  SetAppliedGeneration_def GetCurrentBundle_def CurrentGeneration_def
lemmas token_defs = CreateEnrollmentToken_def ConsumeEnrollmentToken_def PurgeEnrollmentTokensForNode_def
  createAssertionChallenge_def CreateAssertionChallenge_def ReplaceAssertionChallengeForSubject_def
  ConsumeAssertionChallenge_def IssueNodeAPIToken_def LookupNodeByAPIToken_def RevokeNodeAPIToken_def
lemmas credential_defs = CompareAndSetOperatorCredential_def GetOperatorCredential_def
  CreatePendingKeystoneTransition_def GetPendingKeystoneTransition_def
  DeletePendingKeystoneTransition_def
lemmas operator_defs = PutOperator_def CompareAndSetLoginCredential_def CompareAndSetTOTPState_def
  GetOperator_def ListOperators_def DeleteOperator_def AdvanceTOTPStep_def CreateSession_def
  LookupSession_def DeleteSession_def GetSettings_def PutSettings_def GetSigningAnchor_def
  PutSigningAnchor_def

lemma confined_reads [frame]:
  "confined t R (GetNode ctx t nodeID)"
  "confined t R (GetNodeRecord ctx t nodeID)"
  "confined t R (ListNodes ctx t)"
  "confined t R (GetCurrentBundle ctx t nodeID)"
  "confined t R (CurrentGeneration ctx t)"
  "confined t R (LookupNodeByAPIToken ctx t tokenHash)"
  "confined t R (GetOperatorCredential ctx t)"
  "confined t R (GetPendingKeystoneTransition ctx t)"
  "confined t R (GetOperator ctx t username)"
  "confined t R (ListOperators ctx t)"
  "confined t R (GetSigningAnchor ctx t)"
  unfolding registry_defs token_defs credential_defs operator_defs
  by (auto intro!: frame split: option.splits)

lemma confined_registry [frame]:
  "RColl CollNodes \<in> R \<Longrightarrow> confined t R (UpsertNode ctx t n)"
  "RColl CollNodes \<in> R \<Longrightarrow> RTelemetry \<in> R \<Longrightarrow>
     confined t R (SetAppliedGeneration ctx t nodeID gen checksum health v conds at)"
  unfolding registry_defs Let_def by (auto intro!: frame)

lemma confined_tokens [frame]:
  "RColl CollTokens \<in> R \<Longrightarrow> confined t R (CreateEnrollmentToken ctx t tok)"
  "RColl CollTokens \<in> R \<Longrightarrow> confined t R (ConsumeEnrollmentToken ctx t tokenHash nodeID now)"
  "RColl CollTokens \<in> R \<Longrightarrow> confined t R (PurgeEnrollmentTokensForNode ctx t nodeID)"
  "RColl CollLoginChal \<in> R \<Longrightarrow> confined t R (CreateAssertionChallenge ctx t ch now)"
  "RColl CollLoginChal \<in> R \<Longrightarrow> confined t R (ReplaceAssertionChallengeForSubject ctx t ch now)"
  "RColl CollLoginChal \<in> R \<Longrightarrow> confined t R (ConsumeAssertionChallenge ctx t chHash subject now)"
  "RColl CollNodes \<in> R \<Longrightarrow> RColl CollAPITokens \<in> R \<Longrightarrow> confined t R (IssueNodeAPIToken ctx t nodeID tokenHash)"
  "RColl CollNodes \<in> R \<Longrightarrow> RColl CollAPITokens \<in> R \<Longrightarrow> confined t R (RevokeNodeAPIToken ctx t nodeID)"
  unfolding token_defs by (auto intro!: frame split: option.splits)

lemma confined_credentials [frame]:
  "RColl CollOperatorCred \<in> R \<Longrightarrow> confined t R (CompareAndSetOperatorCredential ctx t expected next)"
  "RColl CollKeystoneTransition \<in> R \<Longrightarrow> confined t R (CreatePendingKeystoneTransition ctx t pending)"
  "RColl CollKeystoneTransition \<in> R \<Longrightarrow> confined t R (DeletePendingKeystoneTransition ctx t eventID)"
  unfolding credential_defs by (auto intro!: frame split: option.splits)

lemma confined_operators [frame]:
  "RColl CollOperators \<in> R \<Longrightarrow> confined t R (PutOperator ctx t opr)"
  "RColl CollOperators \<in> R \<Longrightarrow> confined t R (CompareAndSetLoginCredential ctx t username exl nxl now)"
  "RColl CollOperators \<in> R \<Longrightarrow> confined t R (CompareAndSetTOTPState ctx t username ext nxt now)"
  "RColl CollOperators \<in> R \<Longrightarrow> confined t R (DeleteOperator ctx t username)"
  "RColl CollOperators \<in> R \<Longrightarrow> confined t R (AdvanceTOTPStep ctx t username step)"
  "RColl CollSessions \<in> R \<Longrightarrow> confined t R (CreateSession ctx t sess)"
  "RColl CollSessions \<in> R \<Longrightarrow> confined t R (LookupSession ctx t tokenHash now)"
  "RColl CollSessions \<in> R \<Longrightarrow> confined t R (DeleteSession ctx t tokenHash)"
  "RCap \<in> R \<Longrightarrow> confined t R (GetSettings ctx t)"
  "RColl CollSettings \<in> R \<Longrightarrow> RCap \<in> R \<Longrightarrow> confined t R (PutSettings ctx t cs)"
  "RColl CollSigningAnchor \<in> R \<Longrightarrow> confined t R (PutSigningAnchor ctx t an)"
  unfolding operator_defs by (auto intro!: frame split: option.splits)

lemma own_core [frame]:
  "own t (UpsertNode ctx t n)" "own t (GetNode ctx t nodeID)" "own t (GetNodeRecord ctx t nodeID)"
  "own t (ListNodes ctx t)" "own t (SetAppliedGeneration ctx t nodeID gen checksum health v conds at)"
  "own t (GetCurrentBundle ctx t nodeID)" "own t (CurrentGeneration ctx t)"
  "own t (CreateEnrollmentToken ctx t tok)" "own t (ConsumeEnrollmentToken ctx t tokenHash nodeID now)"
  "own t (PurgeEnrollmentTokensForNode ctx t nodeID)" "own t (CreateAssertionChallenge ctx t ch now)"
  "own t (ReplaceAssertionChallengeForSubject ctx t ch now)"
  "own t (ConsumeAssertionChallenge ctx t chHash subject now)"
  "own t (IssueNodeAPIToken ctx t nodeID tokenHash)" "own t (LookupNodeByAPIToken ctx t tokenHash)"
  "own t (RevokeNodeAPIToken ctx t nodeID)"
  unfolding registry_defs token_defs Let_def by (auto intro!: frame split: option.splits)

lemma own_operators [frame]:
  "own t (CompareAndSetOperatorCredential ctx t expected next)" "own t (GetOperatorCredential ctx t)"
  "own t (CreatePendingKeystoneTransition ctx t pending)" "own t (GetPendingKeystoneTransition ctx t)"
  "own t (DeletePendingKeystoneTransition ctx t eventID)" "own t (PutOperator ctx t opr)"
  "own t (CompareAndSetLoginCredential ctx t username exl nxl now)"
  "own t (CompareAndSetTOTPState ctx t username ext nxt now)" "own t (GetOperator ctx t username)"
  "own t (ListOperators ctx t)" "own t (DeleteOperator ctx t username)"
  "own t (AdvanceTOTPStep ctx t username step)" "own t (CreateSession ctx t sess)"
  "own t (LookupSession ctx t tokenHash now)" "own t (DeleteSession ctx t tokenHash)"
  "own t (GetSettings ctx t)" "own t (PutSettings ctx t cs)" "own t (GetSigningAnchor ctx t)"
  "own t (PutSigningAnchor ctx t an)"
  unfolding credential_defs operator_defs by (auto intro!: frame split: option.splits)

section \<open>What the operations do, under every fault script\<close>

lemma wp_consume_token:
  "wp (ConsumeEnrollmentToken ctx t h nodeID now)
     (\<lambda>_ d1. \<exists>tok. rec_at d t CollTokens h = Some (VToken tok) \<and> etNodeID tok = nodeID \<and>
        now < etExpiresAt tok \<and> etConsumedAt tok = None \<and>
        rec_at d1 t CollTokens h = Some (VToken (tok\<lparr>etConsumedAt := Some now\<rparr>)))
     (\<lambda>_ _. True) d"
  by (auto simp: ConsumeEnrollmentToken_def split: option.splits)

lemma wp_consume_burned:
  "rec_at d t CollTokens h = Some (VToken tok) \<Longrightarrow> etConsumedAt tok \<noteq> None \<Longrightarrow>
   wp (ConsumeEnrollmentToken ctx t h nodeID now) (\<lambda>_ _. False) (\<lambda>_ _. True) d"
  by (simp add: ConsumeEnrollmentToken_def)

lemma wp_consume_challenge:
  "wp (ConsumeAssertionChallenge ctx t h subject now)
     (\<lambda>_ d1. (\<exists>ch. rec_at d t CollLoginChal h = Some (VChallenge ch) \<and> acSubject ch = subject \<and>
        now < acExpiresAt ch) \<and> rec_at d1 t CollLoginChal h = None)
     (\<lambda>_ _. True) d"
  by (auto simp: ConsumeAssertionChallenge_def split: option.splits)

lemma wp_consume_no_challenge:
  "rec_at d t CollLoginChal h = None \<Longrightarrow>
   wp (ConsumeAssertionChallenge ctx t h subject now) (\<lambda>_ _. False) (\<lambda>_ _. True) d"
  by (simp add: ConsumeAssertionChallenge_def)

lemma wp_lookup_api_token:
  "wp (LookupNodeByAPIToken ctx t h)
     (\<lambda>n d1. d1 = d \<and> nAPITokenHash n = h \<and> nStatus n = NodeApproved \<and>
        (\<exists>nid. rec_at d t CollAPITokens h = Some (VAPIToken nid) \<and> rec_at d t CollNodes nid = Some (VNode n)))
     (\<lambda>_ d1. d1 = d) d"
  by (auto simp: LookupNodeByAPIToken_def split: option.splits)

lemma wp_issue_api_token:
  "wp (IssueNodeAPIToken ctx t nodeID h)
     (\<lambda>_ d1. \<exists>n. rec_at d t CollNodes nodeID = Some (VNode n) \<and>
        rec_at d1 t CollNodes nodeID = Some (VNode (n\<lparr>nAPITokenHash := h\<rparr>)) \<and>
        rec_at d1 t CollAPITokens h = Some (VAPIToken nodeID) \<and>
        (nAPITokenHash n \<noteq> [] \<and> nAPITokenHash n \<noteq> h \<longrightarrow> rec_at d1 t CollAPITokens (nAPITokenHash n) = None))
     (\<lambda>_ _. True) d"
  by (auto simp: IssueNodeAPIToken_def split: option.splits)

lemma wp_lookup_unmapped:
  "rec_at d t CollAPITokens h = None \<Longrightarrow>
   wp (LookupNodeByAPIToken ctx t h) (\<lambda>_ _. False) (\<lambda>_ _. True) d"
  by (simp add: LookupNodeByAPIToken_def)

lemma wp_lookup_cleared:
  "rec_at d t CollAPITokens h = Some (VAPIToken nid) \<Longrightarrow> rec_at d t CollNodes nid = Some (VNode n) \<Longrightarrow>
   nAPITokenHash n \<noteq> h \<Longrightarrow>
   wp (LookupNodeByAPIToken ctx t h) (\<lambda>_ _. False) (\<lambda>_ _. True) d"
  by (simp add: LookupNodeByAPIToken_def)



lemma wp_lookup_session:
  "wp (LookupSession ctx t h now)
     (\<lambda>sess d1. d1 = d \<and> rec_at d t CollSessions h = Some (VSession sess) \<and> now < seExpiresAt sess)
     (\<lambda>_ _. True) d"
  by (auto simp: LookupSession_def split: option.splits)



section \<open>Properties\<close>

text \<open>
  Claim C5: an enrollment token admits at most one enrollment.  A consumption that succeeds found the
  token addressed to that node, unexpired and unburned; and in every later state whose token record is
  the one that consumption left, no consumption of the same token succeeds, for any node, time or
  sequence of backend faults.
\<close>

theorem enrollment_token_single_use:
  assumes "ConsumeEnrollmentToken ctx t h nodeID now (d, fs) = (Inr (), (d1, fs1))"
    and "rec_at d2 t CollTokens h = rec_at d1 t CollTokens h"
  shows "(\<exists>tok. rec_at d t CollTokens h = Some (VToken tok) \<and> etNodeID tok = nodeID \<and>
      now < etExpiresAt tok \<and> etConsumedAt tok = None) \<and>
    fst (ConsumeEnrollmentToken ctx' t h nodeID' now' (d2, fs')) \<noteq> Inr ()"
proof -
  obtain tok where tok: "rec_at d t CollTokens h = Some (VToken tok)" "etNodeID tok = nodeID"
    "now < etExpiresAt tok" "etConsumedAt tok = None"
    and burned: "rec_at d1 t CollTokens h = Some (VToken (tok\<lparr>etConsumedAt := Some now\<rparr>))"
    using wp_value [OF wp_consume_token assms(1)] by blast
  have "rec_at d2 t CollTokens h = Some (VToken (tok\<lparr>etConsumedAt := Some now\<rparr>))"
    using burned assms(2) by simp
  then show ?thesis
    using tok wp_never [OF wp_consume_burned] by simp
qed

theorem enrollment_token_single_use_witness:
  "let tok = \<lparr>etTokenHash = ''h'', etNodeID = ''n1'', etExpiresAt = 100, etConsumedAt = None\<rparr>;
       d = put_rec ''acme'' CollTokens ''h'' (VToken tok) empty_db;
       d1 = put_rec ''acme'' CollTokens ''h'' (VToken (tok\<lparr>etConsumedAt := Some 7\<rparr>)) d
   in ConsumeEnrollmentToken False ''acme'' ''h'' ''n1'' 7 (d, []) = (Inr (), (d1, [])) \<and>
      fst (ConsumeEnrollmentToken False ''acme'' ''h'' ''n1'' 8 (d1, [])) \<noteq> Inr ()"
proof -
  let ?tok = "\<lparr>etTokenHash = ''h'', etNodeID = ''n1'', etExpiresAt = 100, etConsumedAt = None\<rparr>"
  let ?d = "put_rec ''acme'' CollTokens ''h'' (VToken ?tok) empty_db"
  let ?d1 = "put_rec ''acme'' CollTokens ''h'' (VToken (?tok\<lparr>etConsumedAt := Some 7\<rparr>)) ?d"
  have run: "ConsumeEnrollmentToken False ''acme'' ''h'' ''n1'' 7 (?d, []) = (Inr (), (?d1, []))"
    by (simp add: ConsumeEnrollmentToken_def)
  then show ?thesis
    using enrollment_token_single_use [OF run refl, of False "''n1''" 8 "[]"] by (simp add: Let_def)
qed

text \<open>
  Claim C6: a WebAuthn challenge is answered at most once.  A consumption that succeeds found the
  challenge live and issued to that subject, and afterwards no consumption of the same challenge
  succeeds as long as nobody stores it again.
\<close>

theorem assertion_challenge_single_use:
  assumes "ConsumeAssertionChallenge ctx t h subject now (d, fs) = (Inr (), (d1, fs1))"
    and "rec_at d2 t CollLoginChal h = rec_at d1 t CollLoginChal h"
  shows "(\<exists>ch. rec_at d t CollLoginChal h = Some (VChallenge ch) \<and> acSubject ch = subject \<and>
      now < acExpiresAt ch) \<and>
    fst (ConsumeAssertionChallenge ctx' t h subject' now' (d2, fs')) \<noteq> Inr ()"
  using wp_value [OF wp_consume_challenge assms(1)] assms(2) wp_never [OF wp_consume_no_challenge, of d2]
  by auto

theorem assertion_challenge_single_use_witness:
  "let d = put_rec ''acme'' CollLoginChal ''c'' (VChallenge
             \<lparr>acChallengeHash = ''c'', acSubject = ''alice'', acExpiresAt = 9\<rparr>) empty_db
   in fst (ConsumeAssertionChallenge False ''acme'' ''c'' ''alice'' 3 (d, [])) = Inr () \<and>
      fst (ConsumeAssertionChallenge False ''acme'' ''c'' ''alice'' 3
        (del_rec ''acme'' CollLoginChal ''c'' d, [])) \<noteq> Inr ()"
proof -
  let ?d = "put_rec ''acme'' CollLoginChal ''c'' (VChallenge
             \<lparr>acChallengeHash = ''c'', acSubject = ''alice'', acExpiresAt = 9\<rparr>) empty_db"
  have run: "ConsumeAssertionChallenge False ''acme'' ''c'' ''alice'' 3 (?d, [])
      = (Inr (), (del_rec ''acme'' CollLoginChal ''c'' ?d, []))"
    by (simp add: ConsumeAssertionChallenge_def)
  show ?thesis
    using run assertion_challenge_single_use [OF run refl, of False "''alice''" 3 "[]"] by (simp add: Let_def)
qed

text \<open>
  Claim C7: rotating a node's API token ends the old one.  After a successful issue the new hash resolves to
  the node (when the node is approved), and the hash the node held before resolves to nothing, under
  every fault script of the lookup.  Whatever a lookup returns is an approved node that is stored with
  exactly the presented hash.
\<close>

theorem api_token_rotation:
  assumes "IssueNodeAPIToken ctx t nodeID h (d, fs) = (Inr (), (d1, fs1))"
  shows "\<exists>n. rec_at d t CollNodes nodeID = Some (VNode n) \<and>
    (nStatus n = NodeApproved \<longrightarrow>
       LookupNodeByAPIToken False t h (d1, []) = (Inr (n\<lparr>nAPITokenHash := h\<rparr>), (d1, []))) \<and>
    (nAPITokenHash n \<noteq> [] \<and> nAPITokenHash n \<noteq> h \<longrightarrow>
       (\<forall>fs' m. fst (LookupNodeByAPIToken ctx' t (nAPITokenHash n) (d1, fs')) \<noteq> Inr m)) \<and>
    (\<forall>h' fs' m d2 fs2. LookupNodeByAPIToken ctx' t h' (d1, fs') = (Inr m, (d2, fs2)) \<longrightarrow>
       nAPITokenHash m = h' \<and> nStatus m = NodeApproved \<and> d2 = d1)"
proof -
  obtain n where n: "rec_at d t CollNodes nodeID = Some (VNode n)"
    "rec_at d1 t CollNodes nodeID = Some (VNode (n\<lparr>nAPITokenHash := h\<rparr>))"
    "rec_at d1 t CollAPITokens h = Some (VAPIToken nodeID)"
    "nAPITokenHash n \<noteq> [] \<and> nAPITokenHash n \<noteq> h \<longrightarrow> rec_at d1 t CollAPITokens (nAPITokenHash n) = None"
    using wp_value [OF wp_issue_api_token assms] by blast
  show ?thesis
  proof (intro exI [of _ n] conjI impI allI)
    show "LookupNodeByAPIToken False t h (d1, []) = (Inr (n\<lparr>nAPITokenHash := h\<rparr>), (d1, []))"
      if "nStatus n = NodeApproved"
      using n that by (simp add: LookupNodeByAPIToken_def)
    show "fst (LookupNodeByAPIToken ctx' t (nAPITokenHash n) (d1, fs')) \<noteq> Inr m"
      if "nAPITokenHash n \<noteq> [] \<and> nAPITokenHash n \<noteq> h" for fs' m
      using n that by (intro wp_never [OF wp_lookup_unmapped]) blast
  qed (use n in \<open>auto dest: wp_value [OF wp_lookup_api_token]\<close>)
qed

theorem api_token_rotation_witness:
  "let n = \<lparr>nNodeID = ''n1'', nWGPublicKey = [], nAPITokenHash = ''old'', nStatus = NodeApproved,
            nDesiredGeneration = 0, nAppliedGeneration = 0, nLastChecksum = [], nLastHealth = [],
            nLastAgentVersion = [], nConditions = [], nTelemetry = fmempty, nLastSeen = 0,
            nEnrolledAt = 0, nRekeyRequested = False\<rparr>;
       d = put_rec ''acme'' CollAPITokens ''old'' (VAPIToken ''n1'')
             (put_rec ''acme'' CollNodes ''n1'' (VNode n) empty_db);
       d1 = fst (snd (IssueNodeAPIToken False ''acme'' ''n1'' ''new'' (d, [])))
   in fst (LookupNodeByAPIToken False ''acme'' ''old'' (d, [])) = Inr n \<and>
      LookupNodeByAPIToken False ''acme'' ''new'' (d1, []) = (Inr (n\<lparr>nAPITokenHash := ''new''\<rparr>), (d1, [])) \<and>
      (\<forall>m. fst (LookupNodeByAPIToken False ''acme'' ''old'' (d1, [])) \<noteq> Inr m)"
proof -
  let ?n = "\<lparr>nNodeID = ''n1'', nWGPublicKey = [], nAPITokenHash = ''old'', nStatus = NodeApproved,
            nDesiredGeneration = 0, nAppliedGeneration = 0, nLastChecksum = [], nLastHealth = [],
            nLastAgentVersion = [], nConditions = [], nTelemetry = fmempty, nLastSeen = 0,
            nEnrolledAt = 0, nRekeyRequested = False\<rparr>"
  let ?d = "put_rec ''acme'' CollAPITokens ''old'' (VAPIToken ''n1'')
             (put_rec ''acme'' CollNodes ''n1'' (VNode ?n) empty_db)"
  obtain d1 where run: "IssueNodeAPIToken False ''acme'' ''n1'' ''new'' (?d, []) = (Inr (), (d1, []))"
    by (simp add: IssueNodeAPIToken_def)
  have "fst (LookupNodeByAPIToken False ''acme'' ''old'' (?d, [])) = Inr ?n"
    by (simp add: LookupNodeByAPIToken_def)
  then show ?thesis
    using api_token_rotation [OF run, of False] run by (auto simp: Let_def)
qed





end
