(* ===== verification/Topology.thy ===== *)
theory Topology
  imports Store_Core
begin

text \<open>
  The versioned topology of the store core (\<^verbatim>\<open>internal/controller/storecore.go\<close>): the current record,
  the retained history, compare-and-set, listing and point reads.  The wall clock \<^verbatim>\<open>time.Now()\<close> the
  write stamps is the argument \<open>now\<close>.
\<close>

section \<open>Operations\<close>

definition zeroTopology :: topology_record where
  "zeroTopology = \<lparr>tVersion = 0, tJSON = [], tUpdatedAt = 0\<rparr>"

definition loadTopologyForWriteLocked :: "string \<Rightarrow> (db, err, topology_record) io" where
  "loadTopologyForWriteLocked t =
     bindM (loadOpt as_topology t CollTopology []) (\<lambda>r.
       ret (case r of None \<Rightarrow> zeroTopology | Some prev \<Rightarrow> prev))"

definition backfillHistory :: "string \<Rightarrow> topology_record \<Rightarrow> (db, err, unit) io" where
  "backfillHistory t prev =
     (if 0 < tVersion prev then
        bindM (kv_get t CollTopoHistory (FormatInt (tVersion prev))) (\<lambda>raw.
          case raw of
            None \<Rightarrow> saveJSON VTopology t CollTopoHistory (FormatInt (tVersion prev)) prev
          | Some _ \<Rightarrow> ret ())
      else ret ())"

definition pruneHistory :: "string \<Rightarrow> int \<Rightarrow> (db, err, unit) io" where
  "pruneHistory t cutoff =
     (if 0 < cutoff then
        bindM (attempt (kv_list t CollTopoHistory)) (\<lambda>r.
          case r of
            Inl _ \<Rightarrow> ret ()
          | Inr recs \<Rightarrow>
              forM recs (\<lambda>(key, _).
                case ParseInt key of
                  None \<Rightarrow> ret ()
                | Some v \<Rightarrow> (if v \<le> cutoff then ignoring (kv_del t CollTopoHistory key) else ret ())))
      else ret ())"

definition putTopologyAfterLocked ::
  "string \<Rightarrow> topology_record \<Rightarrow> string \<Rightarrow> time \<Rightarrow> (db, err, topology_record) io" where
  "putTopologyAfterLocked t prev jsonBytes now =
     (let r = \<lparr>tVersion = tVersion prev + 1, tJSON = jsonBytes, tUpdatedAt = now\<rparr>
      in bindM (backfillHistory t prev) (\<lambda>_.
         bindM (saveJSON VTopology t CollTopoHistory (FormatInt (tVersion r)) r) (\<lambda>_.
         bindM (saveJSON VTopology t CollTopology [] r) (\<lambda>_.
         bindM (pruneHistory t (tVersion r - TopologyHistoryLimit)) (\<lambda>_.
           ret r)))))"

definition PutTopology :: "bool \<Rightarrow> string \<Rightarrow> string \<Rightarrow> time \<Rightarrow> (db, err, topology_record) io" where
  "PutTopology ctx t jsonBytes now =
     bindM (ctxErr ctx) (\<lambda>_.
     bindM (loadTopologyForWriteLocked t) (\<lambda>prev.
       putTopologyAfterLocked t prev jsonBytes now))"

definition CompareAndSetTopology ::
  "bool \<Rightarrow> string \<Rightarrow> int \<Rightarrow> string \<Rightarrow> time \<Rightarrow> (db, err, topology_record) io" where
  "CompareAndSetTopology ctx t expectedVersion jsonBytes now =
     bindM (ctxErr ctx) (\<lambda>_.
     bindM (loadTopologyForWriteLocked t) (\<lambda>prev.
       if tVersion prev \<noteq> expectedVersion then throw ErrTopologyChanged
       else if tJSON prev = jsonBytes then ret prev
       else putTopologyAfterLocked t prev jsonBytes now))"

definition GetTopology :: "bool \<Rightarrow> string \<Rightarrow> (db, err, topology_record) io" where
  "GetTopology ctx t = bindM (ctxErr ctx) (\<lambda>_. loadJSON as_topology t CollTopology [])"

definition version_info :: "topology_record \<Rightarrow> topology_version_info" where
  "version_info r = \<lparr>tviVersion = tVersion r, tviUpdatedAt = tUpdatedAt r, tviBytes = length (tJSON r)\<rparr>"

definition listed_entry :: "topology_record \<Rightarrow> string \<times> kvval \<Rightarrow> topology_version_info option" where
  "listed_entry cur r =
     (case ParseInt (fst r) of
        None \<Rightarrow> None
      | Some v \<Rightarrow>
          (if v \<le> 0 \<or> tVersion cur < v then None
           else case as_topology (snd r) of
                  None \<Rightarrow> None
                | Some h \<Rightarrow> (if tVersion h \<noteq> v then None else Some (version_info h))))"

definition ListTopologyVersions :: "bool \<Rightarrow> string \<Rightarrow> (db, err, topology_version_info list) io" where
  "ListTopologyVersions ctx t =
     bindM (ctxErr ctx) (\<lambda>_.
     bindM (loadOpt as_topology t CollTopology []) (\<lambda>c.
       case c of
         None \<Rightarrow> ret []
       | Some cur \<Rightarrow>
           bindM (kv_list t CollTopoHistory) (\<lambda>recs.
             let infos = List.map_filter (listed_entry cur) recs;
                 sawCurrent = list_ex (\<lambda>i. tviVersion i = tVersion cur) infos;
                 out = (if sawCurrent then infos else infos @ [version_info cur])
             in ret (sort_key (\<lambda>i. - tviVersion i) out))))"

definition GetTopologyVersion :: "bool \<Rightarrow> string \<Rightarrow> int \<Rightarrow> (db, err, topology_record) io" where
  "GetTopologyVersion ctx t version =
     bindM (ctxErr ctx) (\<lambda>_.
       if version \<le> 0 then throw ErrNotFound
       else bindM (loadJSON as_topology t CollTopology []) (\<lambda>cur.
         if tVersion cur < version then throw ErrNotFound
         else if version = tVersion cur then ret cur
         else loadJSON as_topology t CollTopoHistory (FormatInt version)))"

section \<open>The retained history as a specification\<close>

definition topo_version :: "db \<Rightarrow> string \<Rightarrow> int" where
  "topo_version d t = (case rec_at d t CollTopology [] of Some (VTopology cur) \<Rightarrow> tVersion cur | _ \<Rightarrow> 0)"



section \<open>Writes keep the history, under every fault script\<close>





lemma topo_version_simps [simp]:
  "c \<noteq> CollTopology \<Longrightarrow> topo_version (put_rec t c k v d) t' = topo_version d t'"
  "c \<noteq> CollTopology \<Longrightarrow> topo_version (del_rec t c k d) t' = topo_version d t'"
  "topo_version (put_rec t CollTopology [] (VTopology r) d) t = tVersion r"
  by (simp_all add: topo_version_def)











section \<open>Reads\<close>





lemma confined_topology [frame]:
  "RColl CollTopoHistory \<in> R \<Longrightarrow> RColl CollTopology \<in> R \<Longrightarrow> confined t R (PutTopology ctx t js now)"
  "RColl CollTopoHistory \<in> R \<Longrightarrow> RColl CollTopology \<in> R \<Longrightarrow>
     confined t R (CompareAndSetTopology ctx t expected js now)"
  "confined t R (GetTopology ctx t)"
  "confined t R (ListTopologyVersions ctx t)"
  "confined t R (GetTopologyVersion ctx t version)"
  unfolding PutTopology_def CompareAndSetTopology_def GetTopology_def ListTopologyVersions_def
    GetTopologyVersion_def putTopologyAfterLocked_def loadTopologyForWriteLocked_def
    backfillHistory_def pruneHistory_def Let_def
  by (auto intro!: frame split: option.splits sum.splits prod.splits)

lemma own_topology [frame]:
  "own t (PutTopology ctx t js now)"
  "own t (CompareAndSetTopology ctx t expected js now)"
  "own t (GetTopology ctx t)"
  "own t (ListTopologyVersions ctx t)"
  "own t (GetTopologyVersion ctx t version)"
  unfolding PutTopology_def CompareAndSetTopology_def GetTopology_def ListTopologyVersions_def
    GetTopologyVersion_def putTopologyAfterLocked_def loadTopologyForWriteLocked_def
    backfillHistory_def pruneHistory_def Let_def
  by (auto intro!: frame split: option.splits sum.splits prod.splits)



section \<open>Properties\<close>







end
