(* ===== verification/Staging.thy ===== *)
theory Staging
  imports Topology
begin

text \<open>
  The staged-set transaction protocol (\<^verbatim>\<open>internal/controller/storecore_stage.go\<close>) together with the
  generation bump and the trust-list reads of \<^verbatim>\<open>storecore.go\<close> that take part in it.  A candidate
  configuration is a set of staged bundles and an optional trust list, sealed by a small record that is
  deleted first and written last; promotion copies the sealed bundles to the current collection and
  commits by advancing the generation counter as its last live-state write.
\<close>

section \<open>Helpers\<close>

definition trustListSHA256 :: "string \<Rightarrow> string" where
  "trustListSHA256 canonical = sha256_hex canonical"

fun sameStringSet :: "string list \<Rightarrow> string list \<Rightarrow> bool" where
  "sameStringSet [] [] = True"
| "sameStringSet (x # xs) (y # ys) = (if x \<noteq> y then False else sameStringSet xs ys)"
| "sameStringSet _ _ = False"

fun check_current :: "int \<Rightarrow> (string \<times> kvval) list \<Rightarrow> err option" where
  "check_current committed [] = None"
| "check_current committed ((key, v) # recs) =
     (case as_bundle v of
        None \<Rightarrow> Some ErrParse
      | Some b \<Rightarrow>
          (if bNodeID b \<noteq> key then Some ErrParse
           else if committed < bGeneration b then Some ErrUncommittedPromotion
           else check_current committed recs))"

definition requireCompletedPromotionLocked :: "string \<Rightarrow> int \<Rightarrow> (db, err, unit) io" where
  "requireCompletedPromotionLocked t committed =
     bindM (kv_list t CollCurrent) (\<lambda>recs.
       case check_current committed recs of
         Some e \<Rightarrow> throw e
       | None \<Rightarrow>
           bindM (loadOpt as_trustlist t CollServedTL []) (\<lambda>s.
             case s of
               None \<Rightarrow> ret ()
             | Some served \<Rightarrow>
                 (if committed < tlPromotedGeneration served then throw ErrUncommittedPromotion else ret ())))"

fun staged_for :: "int \<Rightarrow> (string \<times> kvval) list \<Rightarrow> err + (signed_bundle list \<times> string list)" where
  "staged_for generation [] = Inr ([], [])"
| "staged_for generation ((key, v) # recs) =
     (case as_bundle v of
        None \<Rightarrow> Inl ErrParse
      | Some b \<Rightarrow>
          (if bNodeID b \<noteq> key then Inl ErrParse
           else case staged_for generation recs of
                  Inl e \<Rightarrow> Inl e
                | Inr (bundles, ids) \<Rightarrow>
                    (if bGeneration b \<noteq> generation then Inr (bundles, ids)
                     else Inr (b # bundles, key # ids))))"

definition stagedBundlesForGenerationLocked ::
  "string \<Rightarrow> int \<Rightarrow> (db, err, signed_bundle list \<times> string list) io" where
  "stagedBundlesForGenerationLocked t generation =
     bindM (kv_list t CollStaged) (\<lambda>recs.
       case staged_for generation recs of Inl e \<Rightarrow> throw e | Inr r \<Rightarrow> ret r)"

fun seal_ids_ok :: "string option \<Rightarrow> string list \<Rightarrow> bool" where
  "seal_ids_ok prev [] = True"
| "seal_ids_ok prev (i # ids) = (if i = [] \<or> prev = Some i then False else seal_ids_ok (Some i) ids)"

definition seal_ok :: "staged_set_seal \<Rightarrow> bool" where
  "seal_ok seal =
     (if sealGeneration seal \<le> 0 then False
      else if \<not> sorted (sealNodeIDs seal) then False
      else if sealHistorical seal \<and> (sealNodeIDs seal \<noteq> [] \<or> \<not> sealHasTrustList seal) then False
      else if \<not> seal_ids_ok None (sealNodeIDs seal) then False
      else if sealHasTrustList seal = (sealTrustListSHA256 seal = []) then False
      else True)"

definition loadSealLocked :: "string \<Rightarrow> (db, err, staged_set_seal) io" where
  "loadSealLocked t =
     bindM (attempt (loadJSON as_seal t CollStagedSeal [])) (\<lambda>r.
       case r of
         Inl e \<Rightarrow> throw (if e \<noteq> ErrNotFound then ErrIncompleteStagedSet else e)
       | Inr seal \<Rightarrow> (if seal_ok seal then ret seal else throw ErrIncompleteStagedSet))"

definition loadSealedTrustListLocked ::
  "string \<Rightarrow> staged_set_seal \<Rightarrow> (db, err, stored_trust_list option) io" where
  "loadSealedTrustListLocked t seal =
     (if \<not> sealHasTrustList seal then ret None
      else bindM (attempt (loadJSON as_trustlist t CollStagedTL [])) (\<lambda>r.
        case r of
          Inl e \<Rightarrow> throw ErrIncompleteStagedSet
        | Inr sl \<Rightarrow>
            (if tlEpoch sl \<noteq> sealTrustListEpoch seal \<or>
                trustListSHA256 (tlTrustListJSON sl) \<noteq> sealTrustListSHA256 seal
             then throw ErrIncompleteStagedSet else ret (Some sl))))"

definition candidate_seal :: "int \<Rightarrow> string list \<Rightarrow> stored_trust_list option \<Rightarrow> staged_set_seal" where
  "candidate_seal generation ids sl =
     (case sl of
        None \<Rightarrow> \<lparr>sealGeneration = generation, sealNodeIDs = ids, sealHistorical = False,
                 sealHasTrustList = False, sealTrustListSHA256 = [], sealTrustListEpoch = 0\<rparr>
      | Some s \<Rightarrow> \<lparr>sealGeneration = generation, sealNodeIDs = ids, sealHistorical = False,
                   sealHasTrustList = True, sealTrustListSHA256 = trustListSHA256 (tlTrustListJSON s),
                   sealTrustListEpoch = tlEpoch s\<rparr>)"

definition historical_seal :: "int \<Rightarrow> stored_trust_list \<Rightarrow> staged_set_seal" where
  "historical_seal generation h =
     \<lparr>sealGeneration = generation, sealNodeIDs = [], sealHistorical = True, sealHasTrustList = True,
      sealTrustListSHA256 = trustListSHA256 (tlTrustListJSON h), sealTrustListEpoch = tlEpoch h\<rparr>"

definition saveSealForGenerationLocked ::
  "string \<Rightarrow> int \<Rightarrow> stored_trust_list option \<Rightarrow> bool \<Rightarrow> (db, err, unit) io" where
  "saveSealForGenerationLocked t generation sl allowEmpty =
     bindM (stagedBundlesForGenerationLocked t generation) (\<lambda>(_, ids).
       if ids = [] \<and> sl = None then ret ()
       else if ids = [] \<and> \<not> allowEmpty then ret ()
       else saveJSON VSeal t CollStagedSeal [] (candidate_seal generation ids sl))"

definition pendingSealedTrustListLocked :: "string \<Rightarrow> int \<Rightarrow> (db, err, stored_trust_list option) io" where
  "pendingSealedTrustListLocked t nextGeneration =
     bindM (attempt (loadSealLocked t)) (\<lambda>r.
       case r of
         Inl _ \<Rightarrow> ret None
       | Inr seal \<Rightarrow>
           (if sealHistorical seal \<or> sealGeneration seal \<noteq> nextGeneration \<or> \<not> sealHasTrustList seal
            then ret None
            else bindM (attempt (loadSealedTrustListLocked t seal)) (\<lambda>r2.
              case r2 of Inl _ \<Rightarrow> ret None | Inr sl \<Rightarrow> ret sl)))"

section \<open>Staging\<close>

definition as_staged :: "signed_bundle \<Rightarrow> signed_bundle" where
  "as_staged b = b\<lparr>bIsStaged := True, bIsCurrent := False\<rparr>"

definition StageBundle :: "bool \<Rightarrow> string \<Rightarrow> signed_bundle \<Rightarrow> (db, err, unit) io" where
  "StageBundle ctx t b =
     bindM (ctxErr ctx) (\<lambda>_.
       if bNodeID b = [] \<or> bGeneration b \<le> 0 then throw ErrArg
       else bindM (kv_generation t) (\<lambda>cur.
         bindM (requireCompletedPromotionLocked t cur) (\<lambda>_.
         bindM (pendingSealedTrustListLocked t (cur + 1)) (\<lambda>manifest.
         bindM (kv_del t CollStagedSeal []) (\<lambda>_.
         bindM (saveJSON VBundle t CollStaged (bNodeID b) (as_staged b)) (\<lambda>_.
           saveSealForGenerationLocked t (cur + 1) manifest False))))))"

text \<open>
  The prune loops collect the keys they removed, also when a later deletion fails: the keys and the
  error are both results.
\<close>

fun prune_staged ::
  "string \<Rightarrow> string set \<Rightarrow> (string \<times> kvval) list \<Rightarrow> string list \<Rightarrow> (db, err, string list \<times> err option) io" where
  "prune_staged t keep [] purged = ret (purged, None)"
| "prune_staged t keep ((key, v) # recs) purged =
     (if key \<in> keep then prune_staged t keep recs purged
      else bindM (attempt (kv_del t CollStaged key)) (\<lambda>r.
        case r of
          Inl e \<Rightarrow> ret (purged, Some e)
        | Inr _ \<Rightarrow> prune_staged t keep recs (purged @ [key])))"

fun check_candidate :: "int \<Rightarrow> signed_bundle list \<Rightarrow> string set \<Rightarrow> err option" where
  "check_candidate generation [] keep = None"
| "check_candidate generation (b # bs) keep =
     (if bNodeID b = [] \<or> bGeneration b \<noteq> generation then Some ErrArg
      else if bNodeID b \<in> keep then Some ErrArg
      else check_candidate generation bs (insert (bNodeID b) keep))"

definition replaceTrustList ::
  "string \<Rightarrow> bool \<Rightarrow> stored_trust_list option \<Rightarrow> (db, err, unit) io" where
  "replaceTrustList t noBundles trustList =
     (case trustList of
        None \<Rightarrow>
          bindM (if noBundles then
                   bindM (loadOpt as_trustlist t CollStagedTL []) (\<lambda>r.
                     case r of
                       None \<Rightarrow> ret ()
                     | Some prior \<Rightarrow> saveJSON VTrustList t CollStagedTLHist [] prior)
                 else ret ()) (\<lambda>_.
            kv_del t CollStagedTL [])
      | Some sl \<Rightarrow>
          bindM (saveJSON VTrustList t CollStagedTL [] sl) (\<lambda>_.
            saveJSON VTrustList t CollStagedTLHist [] sl))"

definition sealEmptySet :: "string \<Rightarrow> int \<Rightarrow> (db, err, unit) io" where
  "sealEmptySet t cur =
     bindM (loadOpt as_trustlist t CollStagedTLHist []) (\<lambda>r.
       case r of
         None \<Rightarrow> ret ()
       | Some history \<Rightarrow>
           bindM (saveJSON VTrustList t CollStagedTL [] history) (\<lambda>_.
             saveJSON VSeal t CollStagedSeal [] (historical_seal (if cur \<le> 0 then 1 else cur) history)))"

definition sealCandidate ::
  "string \<Rightarrow> int \<Rightarrow> string list \<Rightarrow> stored_trust_list option \<Rightarrow> (db, err, unit) io" where
  "sealCandidate t generation expected trustList =
     bindM (saveSealForGenerationLocked t generation trustList False) (\<lambda>_.
     bindM (loadSealLocked t) (\<lambda>seal.
       if \<not> sameStringSet (sealNodeIDs seal) expected
       then bindM (ignoring (kv_del t CollStagedSeal [])) (\<lambda>_. throw ErrIncompleteStagedSet)
       else ret ()))"

definition pruneThen ::
  "string \<Rightarrow> string set \<Rightarrow> (string \<times> kvval) list \<Rightarrow> (db, err, unit) io \<Rightarrow> (db, err, string list \<times> err option) io" where
  "pruneThen t keep recs rest =
     bindM (prune_staged t keep recs []) (\<lambda>(purged, failed).
       case failed of
         Some e \<Rightarrow> ret (sort purged, Some e)
       | None \<Rightarrow>
           bindM (attempt rest) (\<lambda>r.
             ret (sort purged, case r of Inl e \<Rightarrow> Some e | Inr _ \<Rightarrow> None)))"

text \<open>The part of a replacement before the prune loop, and the part after it.\<close>

definition prepareReplacement ::
  "string \<Rightarrow> int \<Rightarrow> signed_bundle list \<Rightarrow> (db, err, int \<times> (string \<times> kvval) list) io" where
  "prepareReplacement t generation bundles =
     bindM (kv_generation t) (\<lambda>cur.
     bindM (requireCompletedPromotionLocked t cur) (\<lambda>_.
       if bundles \<noteq> [] \<and> generation \<noteq> cur + 1 then throw ErrArg
       else
         bindM (kv_del t CollStagedSeal []) (\<lambda>_.
         bindM (forM bundles (\<lambda>b. saveJSON VBundle t CollStaged (bNodeID b) b)) (\<lambda>_.
         bindM (kv_list t CollStaged) (\<lambda>recs.
           ret (cur, recs))))))"

definition finishReplacement ::
  "string \<Rightarrow> int \<Rightarrow> signed_bundle list \<Rightarrow> stored_trust_list option \<Rightarrow> int \<Rightarrow> (db, err, unit) io" where
  "finishReplacement t generation bundles trustList cur =
     bindM (replaceTrustList t (bundles = []) trustList) (\<lambda>_.
       if bundles = [] then sealEmptySet t cur
       else sealCandidate t generation (map bNodeID bundles) trustList)"

definition ReplaceStagedSet ::
  "bool \<Rightarrow> string \<Rightarrow> staged_set \<Rightarrow> (db, err, string list \<times> err option) io" where
  "ReplaceStagedSet ctx t cand =
     (if ctx then ret ([], Some ErrCtx)
      else if ssBundles cand \<noteq> [] \<and> ssGeneration cand \<le> 0 then ret ([], Some ErrArg)
      else if ssBundles cand = [] \<and> ssTrustList cand \<noteq> None then ret ([], Some ErrArg)
      else
        (let sorted_bundles = sort_key bNodeID (ssBundles cand);
             bundles = map as_staged sorted_bundles
         in case check_candidate (ssGeneration cand) sorted_bundles {} of
              Some e \<Rightarrow> ret ([], Some e)
            | None \<Rightarrow>
                bindM (attempt (prepareReplacement t (ssGeneration cand) bundles)) (\<lambda>r.
                  case r of
                    Inl e \<Rightarrow> ret ([], Some e)
                  | Inr (cur, recs) \<Rightarrow>
                      pruneThen t (set (map bNodeID bundles)) recs
                        (finishReplacement t (ssGeneration cand) bundles (ssTrustList cand) cur))))"

definition preparePrune ::
  "string \<Rightarrow> (db, err, int \<times> stored_trust_list option \<times> (string \<times> kvval) list) io" where
  "preparePrune t =
     bindM (kv_generation t) (\<lambda>cur.
     bindM (requireCompletedPromotionLocked t cur) (\<lambda>_.
     bindM (pendingSealedTrustListLocked t (cur + 1)) (\<lambda>manifest.
     bindM (kv_del t CollStagedSeal []) (\<lambda>_.
     bindM (kv_list t CollStaged) (\<lambda>recs.
       ret (cur, manifest, recs))))))"

definition PruneStagedBundles ::
  "bool \<Rightarrow> string \<Rightarrow> string list \<Rightarrow> (db, err, string list \<times> err option) io" where
  "PruneStagedBundles ctx t keepIDs =
     (if ctx then ret ([], Some ErrCtx)
      else
        bindM (attempt (preparePrune t)) (\<lambda>r.
          case r of
            Inl e \<Rightarrow> ret ([], Some e)
          | Inr (cur, manifest, recs) \<Rightarrow>
              pruneThen t (set keepIDs) recs
                (saveSealForGenerationLocked t (cur + 1) manifest False)))"

section \<open>Promotion\<close>

definition as_current :: "signed_bundle \<Rightarrow> signed_bundle" where
  "as_current b = b\<lparr>bIsStaged := False, bIsCurrent := True\<rparr>"

definition promoteBundle :: "string \<Rightarrow> int \<Rightarrow> signed_bundle \<Rightarrow> (db, err, unit) io" where
  "promoteBundle t newGen b =
     bindM (saveJSON VBundle t CollCurrent (bNodeID b) (as_current b)) (\<lambda>_.
     bindM (loadOpt as_node t CollNodes (bNodeID b)) (\<lambda>r.
       case r of
         None \<Rightarrow> ret ()
       | Some n \<Rightarrow> saveJSON VNode t CollNodes (bNodeID b) (n\<lparr>nDesiredGeneration := newGen\<rparr>)))"

definition promoteTrustList :: "string \<Rightarrow> int \<Rightarrow> stored_trust_list option \<Rightarrow> (db, err, unit) io" where
  "promoteTrustList t newGen stagedTL =
     (case stagedTL of
        None \<Rightarrow> ret ()
      | Some sl \<Rightarrow>
          (if tlSignatureJSON sl \<noteq> []
           then saveJSON VTrustList t CollServedTL [] (sl\<lparr>tlPromotedGeneration := newGen\<rparr>)
           else ret ()))"

text \<open>
  The source tags the staged trust list with its generation before it serves it, and the history
  record written after the commit carries that tag; an unsigned list stays untagged.
\<close>

definition promoteCleanup ::
  "string \<Rightarrow> int \<Rightarrow> string list \<Rightarrow> stored_trust_list option \<Rightarrow> (db, err, unit) io" where
  "promoteCleanup t newGen ids stagedTL =
     bindM (forM ids (\<lambda>i. ignoring (kv_del t CollStaged i))) (\<lambda>_.
       case stagedTL of
         None \<Rightarrow>
           bindM (ignoring (kv_del t CollStagedSeal [])) (\<lambda>_.
             ignoring (kv_del t CollStagedTL []))
       | Some sl0 \<Rightarrow>
           (let sl = (if tlSignatureJSON sl0 \<noteq> [] then sl0\<lparr>tlPromotedGeneration := newGen\<rparr> else sl0)
            in bindM (ignoring (saveJSON VTrustList t CollStagedTLHist [] sl)) (\<lambda>_.
                 ignoring (saveJSON VSeal t CollStagedSeal [] (historical_seal newGen sl)))))"

definition promoteSealed ::
  "string \<Rightarrow> int \<Rightarrow> staged_set_seal \<Rightarrow> signed_bundle list \<Rightarrow> string list \<Rightarrow> (db, err, int) io" where
  "promoteSealed t newGen seal staged ids =
     bindM (loadSealedTrustListLocked t seal) (\<lambda>stagedTL.
     bindM (forM staged (promoteBundle t newGen)) (\<lambda>_.
     bindM (promoteTrustList t newGen stagedTL) (\<lambda>_.
     bindM (kv_setGeneration t newGen) (\<lambda>_.
     bindM (promoteCleanup t newGen ids stagedTL) (\<lambda>_.
       ret newGen)))))"

definition PromoteStaged :: "bool \<Rightarrow> string \<Rightarrow> (db, err, int) io" where
  "PromoteStaged ctx t =
     bindM (ctxErr ctx) (\<lambda>_.
     bindM (kv_generation t) (\<lambda>cur.
       let newGen = cur + 1
       in bindM (attempt (loadSealLocked t)) (\<lambda>r.
          case r of
            Inl e \<Rightarrow>
              (if e = ErrNotFound then
                 bindM (kv_list t CollStaged) (\<lambda>recs.
                   throw (if recs \<noteq> [] then ErrIncompleteStagedSet else ErrNoStagedBundle))
               else throw e)
          | Inr seal \<Rightarrow>
              (if sealGeneration seal \<noteq> newGen then throw ErrNoStagedBundle
               else if sealHistorical seal \<or> sealNodeIDs seal = [] then throw ErrNoStagedBundle
               else
                 bindM (attempt (stagedBundlesForGenerationLocked t newGen)) (\<lambda>r2.
                   case r2 of
                     Inl _ \<Rightarrow> throw ErrIncompleteStagedSet
                   | Inr (staged, ids) \<Rightarrow>
                       (if \<not> sameStringSet ids (sealNodeIDs seal) then throw ErrIncompleteStagedSet
                        else promoteSealed t newGen seal staged ids))))))"

section \<open>Generation bump and trust lists\<close>

definition BumpGeneration :: "bool \<Rightarrow> string \<Rightarrow> (db, err, int) io" where
  "BumpGeneration ctx t =
     bindM (ctxErr ctx) (\<lambda>_.
     bindM (kv_generation t) (\<lambda>cur.
     bindM (requireCompletedPromotionLocked t cur) (\<lambda>_.
       let newGen = cur + 1
       in bindM (bindM (loadOpt as_trustlist t CollStagedTLHist []) (\<lambda>h.
                   case h of
                     Some history \<Rightarrow> ret (Some history)
                   | None \<Rightarrow> loadOpt as_trustlist t CollStagedTL [])) (\<lambda>history.
          bindM (kv_del t CollStagedSeal []) (\<lambda>_.
          bindM (case history of
                   Some h \<Rightarrow>
                     bindM (saveJSON VTrustList t CollStagedTLHist [] h) (\<lambda>_.
                     bindM (saveJSON VTrustList t CollStagedTL [] h) (\<lambda>_.
                       saveJSON VSeal t CollStagedSeal [] (historical_seal newGen h)))
                 | None \<Rightarrow> kv_del t CollStagedTL []) (\<lambda>_.
          bindM (kv_setGeneration t newGen) (\<lambda>_.
            ret newGen)))))))"

definition PutSignedTrustList :: "bool \<Rightarrow> string \<Rightarrow> stored_trust_list \<Rightarrow> (db, err, unit) io" where
  "PutSignedTrustList ctx t sl =
     bindM (ctxErr ctx) (\<lambda>_.
     bindM (kv_generation t) (\<lambda>cur.
     bindM (requireCompletedPromotionLocked t cur) (\<lambda>_.
       let next = cur + 1
       in bindM (attempt (loadSealLocked t)) (\<lambda>r.
          if (case r of
                Inl _ \<Rightarrow> False
              | Inr seal \<Rightarrow> (sealHistorical seal \<or> sealGeneration seal = next) \<and> sealHasTrustList seal \<and>
                  sealTrustListEpoch seal = tlEpoch sl \<and>
                  sealTrustListSHA256 seal = trustListSHA256 (tlTrustListJSON sl))
          then bindM (saveJSON VTrustList t CollStagedTLHist [] sl) (\<lambda>_.
                 saveJSON VTrustList t CollStagedTL [] sl)
          else
            bindM (kv_del t CollStagedSeal []) (\<lambda>_.
            bindM (saveJSON VTrustList t CollStagedTL [] sl) (\<lambda>_.
            bindM (saveJSON VTrustList t CollStagedTLHist [] sl) (\<lambda>_.
              saveSealForGenerationLocked t next (Some sl) True)))))))"

definition GetCurrentSignedTrustList :: "bool \<Rightarrow> string \<Rightarrow> (db, err, stored_trust_list) io" where
  "GetCurrentSignedTrustList ctx t =
     bindM (ctxErr ctx) (\<lambda>_.
     bindM (loadSealLocked t) (\<lambda>seal.
     bindM (loadSealedTrustListLocked t seal) (\<lambda>sealed.
       case sealed of None \<Rightarrow> throw ErrNotFound | Some sl \<Rightarrow> ret sl)))"

definition GetLastStagedTrustList :: "bool \<Rightarrow> string \<Rightarrow> (db, err, stored_trust_list) io" where
  "GetLastStagedTrustList ctx t =
     bindM (ctxErr ctx) (\<lambda>_.
     bindM (loadOpt as_trustlist t CollStagedTLHist []) (\<lambda>h.
       case h of
         Some sl \<Rightarrow> ret sl
       | None \<Rightarrow>
           bindM (loadOpt as_trustlist t CollStagedTL []) (\<lambda>s.
             case s of
               Some sl \<Rightarrow> ret sl
             | None \<Rightarrow> loadJSON as_trustlist t CollServedTL [])))"

definition GetServedTrustList :: "bool \<Rightarrow> string \<Rightarrow> (db, err, stored_trust_list) io" where
  "GetServedTrustList ctx t =
     bindM (ctxErr ctx) (\<lambda>_.
     bindM (loadJSON as_trustlist t CollServedTL []) (\<lambda>sl.
     bindM (kv_generation t) (\<lambda>committed.
       if committed < tlPromotedGeneration sl then throw ErrUncommittedPromotion else ret sl)))"

definition GetServedConfig :: "bool \<Rightarrow> string \<Rightarrow> string \<Rightarrow> (db, err, served_config) io" where
  "GetServedConfig ctx t nodeID =
     bindM (ctxErr ctx) (\<lambda>_.
     bindM (loadJSON as_bundle t CollCurrent nodeID) (\<lambda>b.
     bindM (kv_generation t) (\<lambda>committed.
       if committed < bGeneration b then throw ErrUncommittedPromotion
       else
         bindM (loadOpt as_credential t CollOperatorCred []) (\<lambda>cred.
         let sc = \<lparr>scBundle = b, scKeystoneOn = (cred \<noteq> None),
                   scTrustList = zeroTrustList, scHasTrustList = False\<rparr>
         in if cred = None then ret sc
            else
              bindM (loadOpt as_trustlist t CollServedTL []) (\<lambda>r.
                case r of
                  None \<Rightarrow> ret sc
                | Some sl \<Rightarrow>
                    (if committed < tlPromotedGeneration sl then throw ErrUncommittedPromotion
                     else if tlSignatureJSON sl \<noteq> []
                          then ret (sc\<lparr>scTrustList := sl, scHasTrustList := True\<rparr>)
                          else ret sc))))))"

section \<open>The invariant of the protocol\<close>

text \<open>The bundles a listing holds for one generation.\<close>

definition bundles_of :: "int \<Rightarrow> (string \<times> kvval) list \<Rightarrow> signed_bundle list" where
  "bundles_of g recs = List.map_filter (\<lambda>r. case as_bundle (snd r) of
      None \<Rightarrow> None | Some b \<Rightarrow> (if bGeneration b = g then Some b else None)) recs"

abbreviation staged_at :: "db \<Rightarrow> string \<Rightarrow> int \<Rightarrow> signed_bundle list" where
  "staged_at d t g \<equiv> bundles_of g (list_at d t CollStaged)"

definition bundle_recs :: "db \<Rightarrow> string \<Rightarrow> coll \<Rightarrow> bool" where
  "bundle_recs d t c \<longleftrightarrow>
     (\<forall>k v. rec_at d t c k = Some v \<longrightarrow> k \<noteq> [] \<and> (\<exists>b. v = VBundle b \<and> bNodeID b = k))"

text \<open>A seal that would authorise the next promotion, and live records ahead of the counter.\<close>

definition live_seal :: "db \<Rightarrow> string \<Rightarrow> staged_set_seal \<Rightarrow> bool" where
  "live_seal d t s \<longleftrightarrow> rec_at d t CollStagedSeal [] = Some (VSeal s) \<and> \<not> sealHistorical s \<and>
     sealGeneration s = gen_at d t + 1"

definition ahead :: "db \<Rightarrow> string \<Rightarrow> bool" where
  "ahead d t \<longleftrightarrow>
     (\<exists>k b. rec_at d t CollCurrent k = Some (VBundle b) \<and> gen_at d t < bGeneration b) \<or>
     (\<exists>sl. rec_at d t CollServedTL [] = Some (VTrustList sl) \<and> gen_at d t < tlPromotedGeneration sl)"

definition seal_matches_tl :: "db \<Rightarrow> string \<Rightarrow> staged_set_seal \<Rightarrow> bool" where
  "seal_matches_tl d t s \<longleftrightarrow> (sealHasTrustList s \<longrightarrow>
     (\<exists>sl. rec_at d t CollStagedTL [] = Some (VTrustList sl) \<and> tlEpoch sl = sealTrustListEpoch s \<and>
        trustListSHA256 (tlTrustListJSON sl) = sealTrustListSHA256 s))"

text \<open>Everything ahead of the counter is a copy of what the live seal names.\<close>

definition ahead_sealed :: "db \<Rightarrow> string \<Rightarrow> staged_set_seal \<Rightarrow> bool" where
  "ahead_sealed d t s \<longleftrightarrow>
     (\<forall>k b. rec_at d t CollCurrent k = Some (VBundle b) \<and> gen_at d t < bGeneration b \<longrightarrow>
        b \<in> as_current ` set (staged_at d t (gen_at d t + 1))) \<and>
     (\<forall>sl. rec_at d t CollServedTL [] = Some (VTrustList sl) \<and> gen_at d t < tlPromotedGeneration sl \<longrightarrow>
        sealHasTrustList s \<and>
        (\<exists>sl0. rec_at d t CollStagedTL [] = Some (VTrustList sl0) \<and>
           sl = sl0\<lparr>tlPromotedGeneration := gen_at d t + 1\<rparr>))"

definition tl_recs :: "db \<Rightarrow> string \<Rightarrow> bool" where
  "tl_recs d t \<longleftrightarrow>
     (\<forall>v. rec_at d t CollStagedTL [] = Some v \<longrightarrow> (\<exists>sl. v = VTrustList sl)) \<and>
     (\<forall>v. rec_at d t CollStagedTLHist [] = Some v \<longrightarrow> (\<exists>sl. v = VTrustList sl)) \<and>
     (\<forall>v. rec_at d t CollServedTL [] = Some v \<longrightarrow>
        (\<exists>sl. v = VTrustList sl \<and> tlSignatureJSON sl \<noteq> [] \<and> tlPromotedGeneration sl \<le> gen_at d t + 1))"

definition stage_base :: "db \<Rightarrow> string \<Rightarrow> bool" where
  "stage_base d t \<longleftrightarrow> 0 \<le> gen_at d t \<and> bundle_recs d t CollStaged \<and> bundle_recs d t CollCurrent \<and>
     (\<forall>k b. rec_at d t CollCurrent k = Some (VBundle b) \<longrightarrow> bGeneration b \<le> gen_at d t + 1) \<and>
     tl_recs d t \<and>
     (\<forall>v. rec_at d t CollStagedSeal [] = Some v \<longrightarrow> (\<exists>s. v = VSeal s \<and> seal_ok s))"

definition stage_inv :: "db \<Rightarrow> string \<Rightarrow> bool" where
  "stage_inv d t \<longleftrightarrow> stage_base d t \<and>
     (\<forall>s. live_seal d t s \<longrightarrow>
        sealNodeIDs s = map bNodeID (staged_at d t (gen_at d t + 1)) \<and> seal_matches_tl d t s) \<and>
     (ahead d t \<longrightarrow> (\<exists>s. live_seal d t s \<and> sealNodeIDs s \<noteq> [] \<and> ahead_sealed d t s))"

text \<open>The states a staging operation moves through once the old seal is gone.\<close>

definition quiet :: "db \<Rightarrow> string \<Rightarrow> bool" where
  "quiet d t \<longleftrightarrow> stage_inv d t \<and> (\<forall>s. \<not> live_seal d t s)"

text \<open>Staging touches the staged collections only; only a promotion reaches the live ones.\<close>

definition staging_regions :: "region set" where
  "staging_regions = RColl ` {CollStaged, CollStagedTL, CollStagedTLHist, CollStagedSeal}"

definition promotion_regions :: "region set" where
  "promotion_regions = insert RGen (RColl ` {CollCurrent, CollNodes, CollServedTL}) \<union> staging_regions"

lemmas stage_defs = bundle_recs_def live_seal_def ahead_def seal_matches_tl_def ahead_sealed_def
  tl_recs_def

section \<open>Listing the staged bundles\<close>

lemma sameStringSet_eq [simp]: "sameStringSet xs ys \<longleftrightarrow> xs = ys"
  by (induction xs ys rule: sameStringSet.induct) auto

lemma staged_for_bundles_of:
  assumes "\<forall>(k, v) \<in> set recs. \<exists>b. v = VBundle b \<and> bNodeID b = k"
  shows "staged_for g recs = Inr (bundles_of g recs, map bNodeID (bundles_of g recs))"
  using assms by (induction recs) (auto simp: bundles_of_def List.map_filter_simps)

lemma bundle_recsD:
  assumes "bundle_recs d t c" and "rec_at d t c k = Some v"
  obtains b where "v = VBundle b" "bNodeID b = k" "k \<noteq> []"
  using assms unfolding bundle_recs_def by blast

lemma bundle_recs_list:
  "bundle_recs d t c \<Longrightarrow> \<forall>(k, v) \<in> set (list_at d t c). \<exists>b. v = VBundle b \<and> bNodeID b = k"
  by (auto simp: list_at_mem elim: bundle_recsD)

lemma staged_for_list_at:
  "bundle_recs d t CollStaged \<Longrightarrow>
   staged_for g (list_at d t CollStaged) = Inr (staged_at d t g, map bNodeID (staged_at d t g))"
  by (intro staged_for_bundles_of bundle_recs_list)

lemma set_staged_at:
  assumes "bundle_recs d t CollStaged"
  shows "b \<in> set (staged_at d t g) \<longleftrightarrow>
    rec_at d t CollStaged (bNodeID b) = Some (VBundle b) \<and> bGeneration b = g"
proof
  assume "b \<in> set (staged_at d t g)"
  then obtain k v where kv: "(k, v) \<in> set (list_at d t CollStaged)" "v = VBundle b" "bGeneration b = g"
    by (auto simp: bundles_of_def set_map_filter_iff split: option.splits if_splits)
  with assms show "rec_at d t CollStaged (bNodeID b) = Some (VBundle b) \<and> bGeneration b = g"
    by (auto simp: list_at_mem elim: bundle_recsD)
next
  assume "rec_at d t CollStaged (bNodeID b) = Some (VBundle b) \<and> bGeneration b = g"
  then show "b \<in> set (staged_at d t g)"
    unfolding bundles_of_def set_map_filter_iff
    by (intro bexI [of _ "(bNodeID b, VBundle b)"]) (auto simp: list_at_mem)
qed

lemma map_bNodeID_bundles_of:
  assumes "\<forall>(k, v) \<in> set recs. \<exists>b. v = VBundle b \<and> bNodeID b = k"
  shows "\<exists>ps. map bNodeID (bundles_of g recs) = map fst (filter ps recs)"
proof
  show "map bNodeID (bundles_of g recs)
      = map fst (filter (\<lambda>r. case as_bundle (snd r) of None \<Rightarrow> False | Some b \<Rightarrow> bGeneration b = g) recs)"
    using assms by (induction recs) (auto simp: bundles_of_def List.map_filter_simps)
qed

lemma staged_ids_sorted:
  assumes "bundle_recs d t CollStaged"
  shows "sorted (map bNodeID (staged_at d t g))" "distinct (map bNodeID (staged_at d t g))"
    "[] \<notin> set (map bNodeID (staged_at d t g))"
proof -
  obtain ps where ps: "map bNodeID (staged_at d t g) = map fst (filter ps (list_at d t CollStaged))"
    using map_bNodeID_bundles_of [OF bundle_recs_list [OF assms]] by blast
  show "sorted (map bNodeID (staged_at d t g))" "distinct (map bNodeID (staged_at d t g))"
    unfolding ps by (auto simp: sorted_filter memkv.list_sorted memkv.list_distinct distinct_map_filter)
  show "[] \<notin> set (map bNodeID (staged_at d t g))"
    using assms by (auto simp: set_staged_at elim: bundle_recsD)
qed

lemma seal_ids_ok_distinct:
  "distinct ids \<Longrightarrow> [] \<notin> set ids \<Longrightarrow> (case prev of None \<Rightarrow> True | Some p \<Rightarrow> p \<notin> set ids) \<Longrightarrow> seal_ids_ok prev ids"
  by (induction prev ids rule: seal_ids_ok.induct) (auto split: option.splits)

lemma trustListSHA256_nonempty [simp]: "trustListSHA256 s \<noteq> []"
  by (simp add: trustListSHA256_def sha256_hex_nonempty)

lemma candidate_seal_ok:
  "bundle_recs d t CollStaged \<Longrightarrow> 0 < g \<Longrightarrow> seal_ok (candidate_seal g (map bNodeID (staged_at d t g')) sl)"
  using staged_ids_sorted [of d t g']
  by (auto simp: candidate_seal_def seal_ok_def intro!: seal_ids_ok_distinct split: option.splits)

lemma historical_seal_ok: "0 < g \<Longrightarrow> seal_ok (historical_seal g h)"
  by (simp add: historical_seal_def seal_ok_def)

section \<open>Single writes and the invariant\<close>

lemma quiet_iff: "quiet d t \<longleftrightarrow> stage_base d t \<and> \<not> ahead d t \<and> (\<forall>s. \<not> live_seal d t s)"
  by (auto simp: quiet_def stage_inv_def)

lemma quiet_stage_inv: "quiet d t \<Longrightarrow> stage_inv d t"
  by (simp add: quiet_def)

lemma quiet_del_seal:
  "stage_inv d t \<Longrightarrow> \<not> ahead d t \<Longrightarrow> quiet (del_rec t CollStagedSeal [] d) t"
  by (simp add: quiet_iff stage_inv_def stage_base_def stage_defs)

lemma quiet_put_staged:
  "quiet d t \<Longrightarrow> bNodeID b \<noteq> [] \<Longrightarrow> quiet (put_rec t CollStaged (bNodeID b) (VBundle b) d) t"
  by (simp add: quiet_iff stage_base_def stage_defs)

lemma quiet_del_staged: "quiet d t \<Longrightarrow> quiet (del_rec t CollStaged k d) t"
  by (simp add: quiet_iff stage_base_def stage_defs)

lemma quiet_put_tl: "quiet d t \<Longrightarrow> quiet (put_rec t CollStagedTL [] (VTrustList sl) d) t"
  by (simp add: quiet_iff stage_base_def stage_defs)

lemma quiet_del_tl: "quiet d t \<Longrightarrow> quiet (del_rec t CollStagedTL [] d) t"
  by (simp add: quiet_iff stage_base_def stage_defs)

lemma quiet_del_seal': "quiet d t \<Longrightarrow> quiet (del_rec t CollStagedSeal [] d) t"
  by (simp add: quiet_iff stage_base_def stage_defs)

lemma quiet_put_hist: "quiet d t \<Longrightarrow> quiet (put_rec t CollStagedTLHist [] (VTrustList sl) d) t"
  by (simp add: quiet_iff stage_base_def stage_defs)

lemma quiet_historical:
  "quiet d t \<Longrightarrow> 0 < g \<Longrightarrow> quiet (put_rec t CollStagedSeal [] (VSeal (historical_seal g h)) d) t"
  by (simp add: quiet_iff stage_base_def stage_defs historical_seal_ok) (simp add: historical_seal_def)

lemma inv_put_hist: "stage_inv d t \<Longrightarrow> stage_inv (put_rec t CollStagedTLHist [] (VTrustList sl) d) t"
  by (simp add: stage_inv_def stage_base_def stage_defs)

text \<open>Publishing a candidate seal is sound when it names what the store holds.\<close>

lemma inv_put_candidate:
  assumes "quiet d t"
    and "\<And>s. sl = Some s \<Longrightarrow> rec_at d t CollStagedTL [] = Some (VTrustList s)"
  shows "stage_inv (put_rec t CollStagedSeal []
    (VSeal (candidate_seal (gen_at d t + 1) (map bNodeID (staged_at d t (gen_at d t + 1))) sl)) d) t"
proof -
  let ?s = "candidate_seal (gen_at d t + 1) (map bNodeID (staged_at d t (gen_at d t + 1))) sl"
  have "seal_ok ?s"
    using assms(1) by (intro candidate_seal_ok) (auto simp: quiet_iff stage_base_def)
  then have "stage_base (put_rec t CollStagedSeal [] (VSeal ?s) d) t"
    using assms(1) by (simp add: quiet_iff stage_base_def bundle_recs_def tl_recs_def)
  moreover have "\<not> ahead (put_rec t CollStagedSeal [] (VSeal ?s) d) t"
    using assms(1) by (simp add: quiet_iff ahead_def)
  moreover have "sealNodeIDs ?s = map bNodeID (staged_at d t (gen_at d t + 1))"
    by (simp add: candidate_seal_def split: option.splits)
  moreover have "seal_matches_tl d t ?s"
    using assms(2) by (auto simp: seal_matches_tl_def candidate_seal_def split: option.splits)
  ultimately show ?thesis
    by (auto simp: stage_inv_def live_seal_def seal_matches_tl_def)
qed

text \<open>Refilling the signature of the sealed trust list.\<close>

lemma inv_put_signature:
  assumes "stage_inv d t" and "\<not> ahead d t"
    and "\<And>s. live_seal d t s \<Longrightarrow> sealHasTrustList s \<Longrightarrow> tlEpoch sl = sealTrustListEpoch s \<and>
           trustListSHA256 (tlTrustListJSON sl) = sealTrustListSHA256 s"
  shows "stage_inv (put_rec t CollStagedTL [] (VTrustList sl) d) t"
  using assms
  by (auto simp: stage_inv_def stage_base_def bundle_recs_def tl_recs_def ahead_def live_seal_def
      seal_matches_tl_def)

text \<open>Advancing the counter when nothing is ahead of it and no seal waits for it.\<close>

lemma inv_bump:
  assumes "quiet d t" and "\<And>s. rec_at d t CollStagedSeal [] = Some (VSeal s) \<Longrightarrow> sealHistorical s"
  shows "quiet (set_gen t (gen_at d t + 1) d) t"
proof -
  have cur: "\<forall>k b. rec_at d t CollCurrent k = Some (VBundle b) \<longrightarrow> bGeneration b \<le> gen_at d t"
    "\<forall>sl. rec_at d t CollServedTL [] = Some (VTrustList sl) \<longrightarrow> tlPromotedGeneration sl \<le> gen_at d t"
    using assms(1) by (auto simp: quiet_iff ahead_def not_less)
  then have "\<not> ahead (set_gen t (gen_at d t + 1) d) t"
    by (fastforce simp: ahead_def)
  then show ?thesis
    using assms cur by (fastforce simp: quiet_iff stage_base_def bundle_recs_def tl_recs_def live_seal_def)
qed

text \<open>The writes of a promotion, up to and including its commit.\<close>

lemma as_current_simps [simp]:
  "bNodeID (as_current b) = bNodeID b" "bGeneration (as_current b) = bGeneration b"
  "bFiles (as_current b) = bFiles b" "bCreatedAt (as_current b) = bCreatedAt b"
  by (simp_all add: as_current_def)

lemma as_staged_simps [simp]:
  "bNodeID (as_staged b) = bNodeID b" "bGeneration (as_staged b) = bGeneration b"
  "bFiles (as_staged b) = bFiles b" "bCreatedAt (as_staged b) = bCreatedAt b"
  by (simp_all add: as_staged_def)

lemma live_seal_unique: "live_seal d t s \<Longrightarrow> live_seal d t s' \<Longrightarrow> s' = s"
  by (simp add: live_seal_def)

lemma inv_ahead_sealed: "stage_inv d t \<Longrightarrow> live_seal d t s \<Longrightarrow> ahead_sealed d t s"
  unfolding stage_inv_def by (cases "ahead d t") (auto simp: ahead_def ahead_sealed_def dest: live_seal_unique)

lemma inv_live_seal:
  assumes "stage_inv d t" and "live_seal d t s"
  shows "sealNodeIDs s = map bNodeID (staged_at d t (gen_at d t + 1))" "seal_matches_tl d t s" "seal_ok s"
  using assms by (auto simp: stage_inv_def stage_base_def live_seal_def)

lemma inv_bundle_recs: "stage_inv d t \<Longrightarrow> bundle_recs d t CollStaged" "stage_inv d t \<Longrightarrow> bundle_recs d t CollCurrent"
  by (simp_all add: stage_inv_def stage_base_def)

lemma inv_put_current:
  assumes inv: "stage_inv d t" and s: "live_seal d t s" and b: "b \<in> set (staged_at d t (gen_at d t + 1))"
  shows "stage_inv (put_rec t CollCurrent (bNodeID b) (VBundle (as_current b)) d) t"
proof -
  let ?d = "put_rec t CollCurrent (bNodeID b) (VBundle (as_current b)) d"
  have ids: "sealNodeIDs s \<noteq> []"
    using inv_live_seal(1) [OF inv s] b by auto
  have bs: "rec_at d t CollStaged (bNodeID b) = Some (VBundle b)" "bGeneration b = gen_at d t + 1"
    using b set_staged_at [OF inv_bundle_recs(1) [OF inv]] by auto
  then have "bNodeID b \<noteq> []"
    using inv_bundle_recs(1) [OF inv] by (auto elim: bundle_recsD)
  then have base: "stage_base ?d t"
    using inv bs unfolding stage_inv_def stage_base_def bundle_recs_def tl_recs_def by auto
  have live: "live_seal ?d t s' \<longleftrightarrow> live_seal d t s'" for s'
    by (simp add: live_seal_def)
  have "ahead_sealed ?d t s"
    using inv_ahead_sealed [OF inv s] b unfolding ahead_sealed_def by auto
  then show ?thesis
    using base inv s ids unfolding stage_inv_def live seal_matches_tl_def by auto
qed

lemma inv_put_served:
  assumes inv: "stage_inv d t" and s: "live_seal d t s" and ids: "sealNodeIDs s \<noteq> []"
    and has: "sealHasTrustList s" and sl: "rec_at d t CollStagedTL [] = Some (VTrustList sl)"
    and sig: "tlSignatureJSON sl \<noteq> []"
  shows "stage_inv (put_rec t CollServedTL [] (VTrustList (sl\<lparr>tlPromotedGeneration := gen_at d t + 1\<rparr>)) d) t"
proof -
  let ?d = "put_rec t CollServedTL [] (VTrustList (sl\<lparr>tlPromotedGeneration := gen_at d t + 1\<rparr>)) d"
  have base: "stage_base ?d t"
    using inv sig unfolding stage_inv_def stage_base_def bundle_recs_def tl_recs_def by auto
  have live: "live_seal ?d t s' \<longleftrightarrow> live_seal d t s'" for s'
    by (simp add: live_seal_def)
  have "ahead_sealed ?d t s"
    using inv_ahead_sealed [OF inv s] has sl unfolding ahead_sealed_def by auto
  then show ?thesis
    using base inv s ids unfolding stage_inv_def live seal_matches_tl_def by auto
qed

lemma inv_commit:
  assumes inv: "stage_inv d t" and s: "live_seal d t s"
  shows "quiet (set_gen t (gen_at d t + 1) d) t"
proof -
  have "\<not> ahead (set_gen t (gen_at d t + 1) d) t"
    using inv unfolding stage_inv_def stage_base_def ahead_def tl_recs_def by (fastforce simp: not_less)
  moreover have "\<not> live_seal (set_gen t (gen_at d t + 1) d) t s'" for s'
    using s by (auto simp: live_seal_def)
  moreover have "stage_base (set_gen t (gen_at d t + 1) d) t"
    using inv unfolding stage_inv_def stage_base_def bundle_recs_def tl_recs_def by fastforce
  ultimately show ?thesis by (simp add: quiet_iff)
qed

text \<open>Writes outside the protocol's collections do not matter.\<close>

lemma stage_inv_cong:
  assumes "\<And>c. c \<in> {CollStaged, CollCurrent, CollStagedTL, CollStagedTLHist, CollStagedSeal, CollServedTL} \<Longrightarrow>
      rec_at d' t c = rec_at d t c" and "gen_at d' t = gen_at d t"
  shows "stage_inv d' t = stage_inv d t" "ahead d' t = ahead d t" "live_seal d' t = live_seal d t" "quiet d' t = quiet d t"
proof -
  have "staged_at d' t = staged_at d t"
    by (rule ext, rule arg_cong [of _ _ "bundles_of _"], rule list_at_cong) (simp add: assms(1))
  then show inv: "stage_inv d' t = stage_inv d t" and "ahead d' t = ahead d t"
    and l: "live_seal d' t = live_seal d t"
    by (auto simp: stage_inv_def stage_base_def stage_defs assms fun_eq_iff)
  show "quiet d' t = quiet d t" by (simp add: quiet_def inv l)
qed

lemma stage_inv_put_node [simp]:
  "stage_inv (put_rec t CollNodes k v d) t = stage_inv d t"
  "live_seal (put_rec t CollNodes k v d) t = live_seal d t"
  "ahead (put_rec t CollNodes k v d) t = ahead d t"
  by (rule stage_inv_cong; auto)+

section \<open>Footprints and record types\<close>

lemmas staging_helper_defs = requireCompletedPromotionLocked_def stagedBundlesForGenerationLocked_def
  loadSealLocked_def loadSealedTrustListLocked_def pendingSealedTrustListLocked_def saveSealForGenerationLocked_def

lemmas staging_defs = StageBundle_def replaceTrustList_def sealEmptySet_def sealCandidate_def pruneThen_def
  prepareReplacement_def finishReplacement_def ReplaceStagedSet_def preparePrune_def PruneStagedBundles_def
  promoteBundle_def promoteTrustList_def promoteCleanup_def promoteSealed_def PromoteStaged_def
  BumpGeneration_def PutSignedTrustList_def

lemmas trust_list_read_defs = GetCurrentSignedTrustList_def GetLastStagedTrustList_def GetServedTrustList_def
  GetServedConfig_def

lemma confined_staging_helpers [frame]:
  "confined t R (requireCompletedPromotionLocked t g)"
  "confined t R (stagedBundlesForGenerationLocked t g)"
  "confined t R (loadSealLocked t)"
  "confined t R (loadSealedTrustListLocked t s)"
  "confined t R (pendingSealedTrustListLocked t g)"
  "RColl CollStagedSeal \<in> R \<Longrightarrow> confined t R (saveSealForGenerationLocked t g tlo ae)"
  unfolding staging_helper_defs by (auto intro!: frame split: option.splits sum.splits prod.splits)

lemma confined_prune_staged [frame]: "RColl CollStaged \<in> R \<Longrightarrow> confined t R (prune_staged t keep recs purged)"
  by (induction t keep recs purged rule: prune_staged.induct) (auto intro!: frame split: sum.splits)

lemma confined_staging [frame]:
  "staging_regions \<subseteq> R \<Longrightarrow> confined t R (StageBundle ctx t b)"
  "staging_regions \<subseteq> R \<Longrightarrow> confined t R (ReplaceStagedSet ctx t cand)"
  "staging_regions \<subseteq> R \<Longrightarrow> confined t R (PruneStagedBundles ctx t keepIDs)"
  "staging_regions \<subseteq> R \<Longrightarrow> confined t R (PutSignedTrustList ctx t sl)"
  "insert RGen staging_regions \<subseteq> R \<Longrightarrow> confined t R (BumpGeneration ctx t)"
  "promotion_regions \<subseteq> R \<Longrightarrow> confined t R (PromoteStaged ctx t)"
  unfolding staging_defs staging_regions_def promotion_regions_def Let_def
  by (auto intro!: frame split: option.splits sum.splits prod.splits)

lemma confined_trust_list_reads [frame]:
  "confined t R (GetCurrentSignedTrustList ctx t)"
  "confined t R (GetLastStagedTrustList ctx t)"
  "confined t R (GetServedTrustList ctx t)"
  "confined t R (GetServedConfig ctx t n)"
  unfolding trust_list_read_defs Let_def by (auto intro!: frame split: option.splits sum.splits prod.splits)

lemma own_staging_helpers [frame]:
  "own t (requireCompletedPromotionLocked t g)"
  "own t (stagedBundlesForGenerationLocked t g)"
  "own t (loadSealLocked t)"
  "own t (loadSealedTrustListLocked t s)"
  "own t (pendingSealedTrustListLocked t g)"
  "own t (saveSealForGenerationLocked t g tlo ae)"
  unfolding staging_helper_defs by (auto intro!: frame split: option.splits sum.splits prod.splits)

lemma own_prune_staged [frame]: "own t (prune_staged t keep recs purged)"
  by (induction t keep recs purged rule: prune_staged.induct) (auto intro!: frame split: sum.splits)

lemma own_staging [frame]:
  "own t (StageBundle ctx t b)"
  "own t (ReplaceStagedSet ctx t cand)"
  "own t (PruneStagedBundles ctx t keepIDs)"
  "own t (PutSignedTrustList ctx t sl)"
  "own t (BumpGeneration ctx t)"
  "own t (PromoteStaged ctx t)"
  "own t (GetCurrentSignedTrustList ctx t)"
  "own t (GetLastStagedTrustList ctx t)"
  "own t (GetServedTrustList ctx t)"
  "own t (GetServedConfig ctx t n)"
  unfolding staging_defs trust_list_read_defs Let_def
  by (auto intro!: frame split: option.splits sum.splits prod.splits)

lemma types_staging_helpers [typing]:
  "keeps_types (requireCompletedPromotionLocked t g)"
  "keeps_types (stagedBundlesForGenerationLocked t g)"
  "keeps_types (loadSealLocked t)"
  "keeps_types (loadSealedTrustListLocked t s)"
  "keeps_types (pendingSealedTrustListLocked t g)"
  "keeps_types (saveSealForGenerationLocked t g tlo ae)"
  unfolding staging_helper_defs by (auto intro!: typing split: option.splits sum.splits prod.splits)

lemma types_prune_staged [typing]: "keeps_types (prune_staged t keep recs purged)"
  by (induction t keep recs purged rule: prune_staged.induct) (auto intro!: typing split: sum.splits)

lemma types_staging [typing]:
  "keeps_types (StageBundle ctx t b)"
  "keeps_types (ReplaceStagedSet ctx t cand)"
  "keeps_types (PruneStagedBundles ctx t keepIDs)"
  "keeps_types (PutSignedTrustList ctx t sl)"
  "keeps_types (BumpGeneration ctx t)"
  "keeps_types (PromoteStaged ctx t)"
  "keeps_types (GetCurrentSignedTrustList ctx t)"
  "keeps_types (GetLastStagedTrustList ctx t)"
  "keeps_types (GetServedTrustList ctx t)"
  "keeps_types (GetServedConfig ctx t n)"
  unfolding staging_defs trust_list_read_defs Let_def
  by (auto intro!: typing split: option.splits sum.splits prod.splits)

end
