(* ===== verification/Staging_Protocol.thy ===== *)
theory Staging_Protocol
  imports Staging
begin

text \<open>
  The staging operations against the protocol invariant of \<open>Staging\<close>: every operation keeps it under
  every fault script, an interrupted promotion can only be completed, and what agents are served is
  never a mixture of two generations.
\<close>

section \<open>Outcomes\<close>

text \<open>
  The outcome of an operation that stages: the invariant holds again, and while a promotion is
  unfinished nothing was touched.
\<close>

definition staged_ok :: "string \<Rightarrow> db \<Rightarrow> db \<Rightarrow> bool" where
  "staged_ok t d d1 \<longleftrightarrow> stage_inv d1 t \<and> (ahead d t \<longrightarrow> d1 = d)"

text \<open>The loops between the deletion of the old seal and the new one stay quiet.\<close>

definition quiet_since :: "string \<Rightarrow> db \<Rightarrow> db \<Rightarrow> bool" where
  "quiet_since t d d1 \<longleftrightarrow> quiet d1 t \<and> gen_at d1 t = gen_at d t \<and>
     rec_at d1 t CollStagedTL [] = rec_at d t CollStagedTL []"

section \<open>Helpers under every fault script\<close>

lemma check_current_spec:
  assumes "\<forall>(k, v) \<in> set recs. \<exists>b. v = VBundle b \<and> bNodeID b = k"
  shows "check_current g recs =
    (if list_ex (\<lambda>r. case as_bundle (snd r) of None \<Rightarrow> False | Some b \<Rightarrow> g < bGeneration b) recs
     then Some ErrUncommittedPromotion else None)"
  using assms by (induction recs) auto

lemma check_current_list_at:
  assumes "stage_inv d t"
  shows "check_current g (list_at d t CollCurrent) =
    (if \<exists>k b. rec_at d t CollCurrent k = Some (VBundle b) \<and> g < bGeneration b
     then Some ErrUncommittedPromotion else None)"
proof -
  have "list_ex (\<lambda>r. case as_bundle (snd r) of None \<Rightarrow> False | Some b \<Rightarrow> g < bGeneration b) (list_at d t CollCurrent)
      \<longleftrightarrow> (\<exists>k v b. (k, v) \<in> set (list_at d t CollCurrent) \<and> v = VBundle b \<and> g < bGeneration b)"
    by (auto simp: list_ex_iff Bex_def split: option.splits)
  also have "\<dots> \<longleftrightarrow> (\<exists>k b. rec_at d t CollCurrent k = Some (VBundle b) \<and> g < bGeneration b)"
    by (auto simp: list_at_mem)
  finally have "list_ex (\<lambda>r. case as_bundle (snd r) of None \<Rightarrow> False | Some b \<Rightarrow> g < bGeneration b) (list_at d t CollCurrent)
      \<longleftrightarrow> (\<exists>k b. rec_at d t CollCurrent k = Some (VBundle b) \<and> g < bGeneration b)" .
  then show ?thesis
    using check_current_spec [OF bundle_recs_list [OF inv_bundle_recs(2) [OF assms]]] by simp
qed

lemma served_tl_cases:
  assumes "stage_inv d t"
  obtains "rec_at d t CollServedTL [] = None"
  | sl where "rec_at d t CollServedTL [] = Some (VTrustList sl)" "tlSignatureJSON sl \<noteq> []"
      "tlPromotedGeneration sl \<le> gen_at d t + 1"
  using assms by (cases "rec_at d t CollServedTL []") (auto simp: stage_inv_def stage_base_def tl_recs_def)

lemma wp_require:
  assumes inv: "stage_inv d t" and g: "g = gen_at d t"
  shows "wp (requireCompletedPromotionLocked t g)
    (\<lambda>_ d1. d1 = d \<and> \<not> ahead d t)
    (\<lambda>e d1. d1 = d \<and> (e = ErrIO \<or> e = ErrUncommittedPromotion)) d"
  using served_tl_cases [OF inv]
  by cases (auto simp: requireCompletedPromotionLocked_def check_current_list_at [OF inv] g ahead_def not_less
      split: option.splits)

lemma run_require:
  assumes inv: "stage_inv d t"
  shows "requireCompletedPromotionLocked t (gen_at d t) (d, []) =
    ((if ahead d t then Inl ErrUncommittedPromotion else Inr ()), (d, []))"
proof (cases "\<exists>k b. rec_at d t CollCurrent k = Some (VBundle b) \<and> gen_at d t < bGeneration b")
  case True
  then have "ahead d t" unfolding ahead_def by blast
  with True show ?thesis
    by (simp add: requireCompletedPromotionLocked_def check_current_list_at [OF inv])
next
  case False
  then have "ahead d t \<longleftrightarrow> (\<exists>sl. rec_at d t CollServedTL [] = Some (VTrustList sl) \<and>
      gen_at d t < tlPromotedGeneration sl)"
    unfolding ahead_def by blast
  with False show ?thesis
    by (cases rule: served_tl_cases [OF inv])
      (auto simp: requireCompletedPromotionLocked_def check_current_list_at [OF inv])
qed

lemma wp_loadSealLocked:
  assumes "\<And>s. rec_at d t CollStagedSeal [] = Some (VSeal s) \<Longrightarrow> seal_ok s \<Longrightarrow> Q s d"
    and "rec_at d t CollStagedSeal [] = None \<Longrightarrow> E ErrNotFound d" and "E ErrIncompleteStagedSet d"
  shows "wp (loadSealLocked t) Q E d"
  unfolding loadSealLocked_def
  by (rule wp_bindM) (use assms in \<open>auto split: option.splits\<close>)

lemma wp_loadSealedTrustListLocked:
  assumes "\<not> sealHasTrustList s \<Longrightarrow> Q None d"
    and "\<And>sl. sealHasTrustList s \<Longrightarrow> rec_at d t CollStagedTL [] = Some (VTrustList sl) \<Longrightarrow>
           tlEpoch sl = sealTrustListEpoch s \<Longrightarrow> trustListSHA256 (tlTrustListJSON sl) = sealTrustListSHA256 s \<Longrightarrow>
           Q (Some sl) d"
    and "E ErrIncompleteStagedSet d"
  shows "wp (loadSealedTrustListLocked t s) Q E d"
proof (cases "sealHasTrustList s")
  case True
  then show ?thesis
    unfolding loadSealedTrustListLocked_def
    by (simp, intro wp_bindM) (use assms in \<open>auto split: option.splits\<close>)
qed (use assms in \<open>simp add: loadSealedTrustListLocked_def\<close>)

lemma wp_pendingSealedTrustListLocked:
  "wp (pendingSealedTrustListLocked t g)
    (\<lambda>m d1. d1 = d \<and> (\<forall>sl. m = Some sl \<longrightarrow> rec_at d t CollStagedTL [] = Some (VTrustList sl))) E d"
  unfolding pendingSealedTrustListLocked_def
  by (rule wp_bindM, unfold wp_attempt, rule wp_loadSealLocked)
    (auto intro!: wp_bindM wp_loadSealedTrustListLocked)

lemma wp_stagedBundles:
  assumes "bundle_recs d t CollStaged"
  shows "wp (stagedBundlesForGenerationLocked t g)
    (\<lambda>(bs, ids) d1. d1 = d \<and> bs = staged_at d t g \<and> ids = map bNodeID bs) (\<lambda>e d1. d1 = d \<and> e = ErrIO) d"
  using assms by (simp add: stagedBundlesForGenerationLocked_def staged_for_list_at)

lemma wp_saveSealForGenerationLocked:
  assumes q: "quiet d t" and g: "g = gen_at d t + 1"
    and m: "\<And>s. sl = Some s \<Longrightarrow> rec_at d t CollStagedTL [] = Some (VTrustList s)"
  shows "wp (saveSealForGenerationLocked t g sl ae)
    (\<lambda>_ d1. stage_inv d1 t \<and> \<not> ahead d1 t) (\<lambda>_ d1. stage_inv d1 t \<and> \<not> ahead d1 t) d"
proof -
  have recs: "bundle_recs d t CollStaged" and na: "\<not> ahead d t" and inv: "stage_inv d t"
    using inv_bundle_recs(1) [OF quiet_stage_inv [OF q]] quiet_stage_inv [OF q] q quiet_iff by auto
  have na': "\<not> ahead (put_rec t CollStagedSeal [] v d) t" for v
    using na by (simp add: ahead_def)
  have "wp (stagedBundlesForGenerationLocked t g)
      (\<lambda>(bs, ids). wp (if ids = [] \<and> sl = None then ret () else if ids = [] \<and> \<not> ae then ret ()
          else saveJSON VSeal t CollStagedSeal [] (candidate_seal g ids sl))
          (\<lambda>_ d1. stage_inv d1 t \<and> \<not> ahead d1 t) (\<lambda>_ d1. stage_inv d1 t \<and> \<not> ahead d1 t))
      (\<lambda>_ d1. stage_inv d1 t \<and> \<not> ahead d1 t) d"
    by (rule wp_mono [OF wp_stagedBundles [OF recs]])
      (use inv na na' m inv_put_candidate [OF q, of sl] in \<open>auto simp: g\<close>)
  then show ?thesis
    unfolding saveSealForGenerationLocked_def
    by (intro wp_bindM) (auto elim!: wp_mono split: prod.splits)
qed

lemma wp_saveSeal_inv:
  assumes "quiet d t" and "g = gen_at d t + 1"
    and "\<And>s. sl = Some s \<Longrightarrow> rec_at d t CollStagedTL [] = Some (VTrustList s)"
  shows "wp (saveSealForGenerationLocked t g sl ae) (\<lambda>_ d1. stage_inv d1 t) (\<lambda>_ d1. stage_inv d1 t) d"
  by (rule wp_mono [OF wp_saveSealForGenerationLocked [OF assms]]) auto

section \<open>Every staging operation keeps the invariant\<close>

lemma staged_okI: "stage_inv d1 t \<Longrightarrow> \<not> ahead d t \<Longrightarrow> staged_ok t d d1"
  by (simp add: staged_ok_def)

lemma staged_ok_refl: "stage_inv d t \<Longrightarrow> staged_ok t d d"
  by (simp add: staged_ok_def)

text \<open>Every operation starts by reading the counter and requiring a completed promotion.\<close>

lemma wp_after_require:
  assumes inv: "stage_inv d t"
    and rest: "\<not> ahead d t \<Longrightarrow> wp (k ()) Q E d"
    and err: "E ErrIO d" "E ErrUncommittedPromotion d"
  shows "wp (bindM (requireCompletedPromotionLocked t (gen_at d t)) k) Q E d"
  by (rule wp_bindM, rule wp_mono [OF wp_require [OF inv refl]]) (use rest err in auto)

lemma wp_after_pending:
  assumes "\<And>m. (\<And>sl. m = Some sl \<Longrightarrow> rec_at d t CollStagedTL [] = Some (VTrustList sl)) \<Longrightarrow> wp (k m) Q E d"
  shows "wp (bindM (pendingSealedTrustListLocked t g) k) Q E d"
  by (rule wp_bindM, rule wp_mono [OF wp_pendingSealedTrustListLocked]) (use assms in auto)

lemma wp_StageBundle:
  assumes inv: "stage_inv d t"
  shows "wp (StageBundle ctx t b) (\<lambda>_ d1. \<not> ahead d t \<and> staged_ok t d d1) (\<lambda>_ d1. staged_ok t d d1) d"
proof (cases "ctx \<or> bNodeID b = [] \<or> bGeneration b \<le> 0")
  case True
  then show ?thesis using inv by (auto simp: StageBundle_def staged_ok_refl)
next
  case False
  have "wp (bindM (requireCompletedPromotionLocked t (gen_at d t)) (\<lambda>_.
      bindM (pendingSealedTrustListLocked t (gen_at d t + 1)) (\<lambda>manifest.
      bindM (kv_del t CollStagedSeal []) (\<lambda>_.
      bindM (saveJSON VBundle t CollStaged (bNodeID b) (as_staged b)) (\<lambda>_.
        saveSealForGenerationLocked t (gen_at d t + 1) manifest False)))))
     (\<lambda>_ d1. \<not> ahead d t \<and> staged_ok t d d1) (\<lambda>_ d1. staged_ok t d d1) d"
  proof (rule wp_after_require [OF inv], rule wp_after_pending)
    fix m
    assume na: "\<not> ahead d t" and m: "\<And>sl. m = Some sl \<Longrightarrow> rec_at d t CollStagedTL [] = Some (VTrustList sl)"
    let ?d1 = "del_rec t CollStagedSeal [] d"
    let ?d2 = "put_rec t CollStaged (bNodeID b) (VBundle (as_staged b)) ?d1"
    have q1: "quiet ?d1 t" by (rule quiet_del_seal [OF inv na])
    have q2: "quiet ?d2 t" using quiet_put_staged [OF q1, of "as_staged b"] False by simp
    have "wp (saveSealForGenerationLocked t (gen_at d t + 1) m False)
        (\<lambda>_ d1. stage_inv d1 t) (\<lambda>_ d1. stage_inv d1 t) ?d2"
      using m by (intro wp_saveSeal_inv [OF q2]) auto
    then have "wp (saveSealForGenerationLocked t (gen_at d t + 1) m False)
        (\<lambda>_ d1. \<not> ahead d t \<and> staged_ok t d d1) (\<lambda>_ d1. staged_ok t d d1) ?d2"
      by (rule wp_mono) (use na in \<open>auto simp: staged_ok_def\<close>)
    then show "wp (bindM (kv_del t CollStagedSeal []) (\<lambda>_.
        bindM (saveJSON VBundle t CollStaged (bNodeID b) (as_staged b)) (\<lambda>_.
          saveSealForGenerationLocked t (gen_at d t + 1) m False)))
        (\<lambda>_ d1. \<not> ahead d t \<and> staged_ok t d d1) (\<lambda>_ d1. staged_ok t d d1) d"
      using na inv q1 q2 by (simp add: staged_ok_def quiet_stage_inv)
  qed (use inv in \<open>auto simp: staged_ok_refl\<close>)
  then show ?thesis
    using False inv by (auto simp: StageBundle_def staged_ok_refl)
qed

lemma wp_prune_staged:
  assumes "quiet_since t d d1"
  shows "wp (prune_staged t keep recs purged) (\<lambda>_ d2. quiet_since t d d2) (\<lambda>_ _. False) d1"
  using assms
proof (induction t keep recs purged arbitrary: d1 rule: prune_staged.induct)
  case (2 t keep key v recs purged)
  show ?case
  proof (cases "key \<in> keep")
    case True
    then show ?thesis using 2 by simp
  next
    case False
    have q: "quiet_since t d (del_rec t CollStaged key d1)"
      using "2.prems" by (simp add: quiet_since_def quiet_del_staged)
    have "wp (attempt (kv_del t CollStaged key))
        (\<lambda>r. wp (case r of Inl e \<Rightarrow> ret (purged, Some e) | Inr _ \<Rightarrow> prune_staged t keep recs (purged @ [key]))
          (\<lambda>_ d2. quiet_since t d d2) (\<lambda>_ _. False)) (\<lambda>_ _. False) d1"
      using q "2.prems" "2.IH"(2) [OF False q] by simp
    then show ?thesis using False by (simp add: wp_bindM)
  qed
qed simp

lemma wp_save_bundles:
  assumes "quiet_since t d d1" and "\<forall>b \<in> set bs. bNodeID b \<noteq> []"
  shows "wp (forM bs (\<lambda>b. saveJSON VBundle t CollStaged (bNodeID b) b))
    (\<lambda>_ d2. quiet_since t d d2) (\<lambda>_ d2. quiet_since t d d2) d1"
  by (rule wp_forM_inv) (use assms in \<open>auto simp: quiet_since_def quiet_put_staged\<close>)

lemma wp_pruneThen:
  assumes "quiet_since t d d1" and "\<not> ahead d t"
    and "\<And>d2. quiet_since t d d2 \<Longrightarrow> wp rest (\<lambda>_. staged_ok t d) (\<lambda>_. staged_ok t d) d2"
  shows "wp (pruneThen t keep recs rest) (\<lambda>(purged, failed). staged_ok t d) (\<lambda>_ _. False) d1"
  unfolding pruneThen_def
proof (rule wp_bindM, rule wp_mono [OF wp_prune_staged [OF assms(1)]])
  fix r d2
  assume q: "quiet_since t d d2"
  then have "staged_ok t d d2"
    using assms(2) by (simp add: staged_ok_def quiet_since_def quiet_stage_inv)
  moreover have "wp (attempt rest) (\<lambda>_. staged_ok t d) (\<lambda>_ _. False) d2"
    using assms(3) [OF q] by simp
  ultimately show "wp (case r of (purged, failed) \<Rightarrow> (case failed of Some e \<Rightarrow> ret (sort purged, Some e)
      | None \<Rightarrow> bindM (attempt rest) (\<lambda>r. ret (sort purged, case r of Inl e \<Rightarrow> Some e | Inr _ \<Rightarrow> None))))
      (\<lambda>(purged, failed). staged_ok t d) (\<lambda>_ _. False) d2"
    by (cases r; cases "snd r") (auto intro!: wp_bindM)
qed simp

lemma wp_preparePrune:
  assumes inv: "stage_inv d t"
  shows "wp (preparePrune t)
    (\<lambda>(cur, m, recs) d1. \<not> ahead d t \<and> cur = gen_at d t \<and> quiet_since t d d1 \<and>
       (\<forall>sl. m = Some sl \<longrightarrow> rec_at d t CollStagedTL [] = Some (VTrustList sl)))
    (\<lambda>_ d1. staged_ok t d d1) d"
  unfolding preparePrune_def using inv
  by (auto simp: staged_ok_def quiet_since_def quiet_stage_inv quiet_del_seal
      intro!: wp_after_require wp_after_pending)

lemma wp_PruneStagedBundles:
  assumes inv: "stage_inv d t"
  shows "wp (PruneStagedBundles ctx t keepIDs)
    (\<lambda>(purged, failed) d1. staged_ok t d d1 \<and> (ahead d t \<longrightarrow> failed \<noteq> None)) (\<lambda>_ _. False) d"
proof -
  have rest: "wp (pruneThen t (set keepIDs) recs (saveSealForGenerationLocked t (gen_at d t + 1) m False))
      (\<lambda>(purged, failed). staged_ok t d) (\<lambda>_ _. False) d1"
    if na: "\<not> ahead d t" and q: "quiet_since t d d1"
      and m: "\<forall>sl. m = Some sl \<longrightarrow> rec_at d t CollStagedTL [] = Some (VTrustList sl)" for m recs d1
  proof (rule wp_pruneThen [OF q na])
    fix d2
    assume "quiet_since t d d2"
    then have "wp (saveSealForGenerationLocked t (gen_at d t + 1) m False)
        (\<lambda>_ d3. stage_inv d3 t) (\<lambda>_ d3. stage_inv d3 t) d2"
      using m by (intro wp_saveSeal_inv) (auto simp: quiet_since_def)
    then show "wp (saveSealForGenerationLocked t (gen_at d t + 1) m False)
        (\<lambda>_. staged_ok t d) (\<lambda>_. staged_ok t d) d2"
      by (rule wp_mono) (use na in \<open>auto simp: staged_ok_def\<close>)
  qed
  have "wp (attempt (preparePrune t)) (\<lambda>r. wp (case r of Inl e \<Rightarrow> ret ([], Some e)
      | Inr (cur, m, recs) \<Rightarrow> pruneThen t (set keepIDs) recs (saveSealForGenerationLocked t (cur + 1) m False))
      (\<lambda>(purged, failed) d1. staged_ok t d d1 \<and> (ahead d t \<longrightarrow> failed \<noteq> None)) (\<lambda>_ _. False)) (\<lambda>_ _. False) d"
    unfolding wp_attempt
    by (rule wp_mono [OF wp_preparePrune [OF inv]]) (auto intro!: rest)
  then show ?thesis
    unfolding PruneStagedBundles_def using inv by (auto intro!: wp_bindM simp: staged_ok_refl)
qed

text \<open>The last phase of a replacement.\<close>

lemma wp_replaceTrustList:
  assumes q: "quiet d t"
  shows "wp (replaceTrustList t nb tlo)
    (\<lambda>_ d1. quiet d1 t \<and> gen_at d1 t = gen_at d t \<and>
       (\<forall>sl. tlo = Some sl \<longrightarrow> rec_at d1 t CollStagedTL [] = Some (VTrustList sl)))
    (\<lambda>_ d1. quiet d1 t) d"
proof (cases tlo)
  case None
  have tl: "rec_at d t CollStagedTL [] = None \<or> (\<exists>sl. rec_at d t CollStagedTL [] = Some (VTrustList sl))"
    using q by (cases "rec_at d t CollStagedTL []") (auto simp: quiet_iff stage_base_def tl_recs_def)
  show ?thesis
    using tl q None by (cases nb) (auto simp: replaceTrustList_def quiet_del_tl quiet_put_hist)
next
  case (Some sl)
  then show ?thesis using q by (simp add: replaceTrustList_def quiet_put_tl quiet_put_hist)
qed

lemma wp_sealEmptySet:
  assumes q: "quiet d t"
  shows "wp (sealEmptySet t cur) (\<lambda>_ d1. stage_inv d1 t) (\<lambda>_ d1. stage_inv d1 t) d"
  unfolding sealEmptySet_def
  using q quiet_historical [OF quiet_put_tl [OF q]]
  by (auto simp: quiet_stage_inv quiet_put_tl split: option.splits if_splits)

lemma wp_sealCandidate:
  assumes q: "quiet d t" and g: "g = gen_at d t + 1"
    and m: "\<And>s. sl = Some s \<Longrightarrow> rec_at d t CollStagedTL [] = Some (VTrustList s)"
  shows "wp (sealCandidate t g expected sl) (\<lambda>_ d1. stage_inv d1 t) (\<lambda>_ d1. stage_inv d1 t) d"
  unfolding sealCandidate_def
proof (rule wp_bindM, rule wp_mono [OF wp_saveSealForGenerationLocked [OF q g m]])
  fix u d1
  assume inv: "stage_inv d1 t \<and> \<not> ahead d1 t"
  show "wp (bindM (loadSealLocked t) (\<lambda>seal.
      if \<not> sameStringSet (sealNodeIDs seal) expected
      then bindM (ignoring (kv_del t CollStagedSeal [])) (\<lambda>_. throw ErrIncompleteStagedSet) else ret ()))
      (\<lambda>_ d1. stage_inv d1 t) (\<lambda>_ d1. stage_inv d1 t) d1"
    using inv by (auto intro!: wp_bindM wp_loadSealLocked wp_ignoring simp: quiet_stage_inv quiet_del_seal)
qed auto

lemma check_candidate_spec:
  "check_candidate g bs keep = None \<longleftrightarrow>
    (\<forall>b \<in> set bs. bNodeID b \<noteq> [] \<and> bGeneration b = g) \<and> bNodeID ` set bs \<inter> keep = {} \<and>
    distinct (map bNodeID bs)"
  by (induction g bs keep rule: check_candidate.induct) auto

lemma wp_finishReplacement:
  assumes "quiet d t" and "bs \<noteq> [] \<Longrightarrow> g = gen_at d t + 1"
  shows "wp (finishReplacement t g bs tlo cur) (\<lambda>_ d1. stage_inv d1 t) (\<lambda>_ d1. stage_inv d1 t) d"
  unfolding finishReplacement_def
  by (rule wp_bindM, rule wp_mono [OF wp_replaceTrustList [OF assms(1)]])
    (use assms(2) in \<open>auto simp: quiet_stage_inv intro!: wp_sealEmptySet wp_sealCandidate\<close>)

lemma wp_prepareReplacement:
  assumes inv: "stage_inv d t" and ids: "\<forall>b \<in> set bs. bNodeID b \<noteq> []"
  shows "wp (prepareReplacement t g bs)
    (\<lambda>(cur, recs) d1. \<not> ahead d t \<and> cur = gen_at d t \<and> quiet_since t d d1 \<and> (bs \<noteq> [] \<longrightarrow> g = gen_at d t + 1))
    (\<lambda>_ d1. staged_ok t d d1) d"
proof -
  have loop: "wp (bindM (forM bs (\<lambda>b. saveJSON VBundle t CollStaged (bNodeID b) b)) (\<lambda>_.
        bindM (kv_list t CollStaged) (\<lambda>recs. ret (gen_at d t, recs))))
      (\<lambda>(cur, recs) d1. cur = gen_at d t \<and> quiet_since t d d1) (\<lambda>_ d1. staged_ok t d d1)
      (del_rec t CollStagedSeal [] d)" if na: "\<not> ahead d t"
    by (rule wp_bindM, rule wp_mono [OF wp_save_bundles [OF _ ids]])
      (use quiet_del_seal [OF inv na] na in \<open>auto simp: quiet_since_def staged_ok_def quiet_stage_inv\<close>)
  show ?thesis
    unfolding prepareReplacement_def using inv
    by (auto simp: staged_ok_refl staged_ok_def quiet_since_def quiet_stage_inv quiet_del_seal
        intro!: wp_after_require elim!: wp_mono [OF loop])
qed

lemma wp_replace_rest:
  assumes na: "\<not> ahead d t" and q: "quiet_since t d d1" and g: "bs \<noteq> [] \<longrightarrow> g = gen_at d t + 1"
  shows "wp (pruneThen t keep recs (finishReplacement t g bs tlo cur))
    (\<lambda>(purged, failed). staged_ok t d) (\<lambda>_ _. False) d1"
proof (rule wp_pruneThen [OF q na])
  fix d2
  assume "quiet_since t d d2"
  then show "wp (finishReplacement t g bs tlo cur) (\<lambda>_. staged_ok t d) (\<lambda>_. staged_ok t d) d2"
    by (intro wp_mono [OF wp_finishReplacement]) (use na g in \<open>auto simp: staged_ok_def quiet_since_def\<close>)
qed

lemma wp_replace_main:
  assumes inv: "stage_inv d t" and ids: "\<forall>b \<in> set bs. bNodeID b \<noteq> []"
  shows "wp (attempt (prepareReplacement t g bs)) (\<lambda>r. wp (case r of Inl e \<Rightarrow> ret ([], Some e)
      | Inr (cur, recs) \<Rightarrow> pruneThen t keep recs (finishReplacement t g bs tlo cur))
      (\<lambda>(purged, failed) d1. staged_ok t d d1 \<and> (ahead d t \<longrightarrow> failed \<noteq> None)) (\<lambda>_ _. False)) (\<lambda>_ _. False) d"
  unfolding wp_attempt
  by (rule wp_mono [OF wp_prepareReplacement [OF inv ids]]) (auto intro!: wp_replace_rest)

lemma wp_ReplaceStagedSet:
  assumes inv: "stage_inv d t"
  shows "wp (ReplaceStagedSet ctx t cand)
    (\<lambda>(purged, failed) d1. staged_ok t d d1 \<and> (ahead d t \<longrightarrow> failed \<noteq> None)) (\<lambda>_ _. False) d"
proof (cases "ctx \<or> ssBundles cand \<noteq> [] \<and> ssGeneration cand \<le> 0 \<or> ssBundles cand = [] \<and> ssTrustList cand \<noteq> None
    \<or> check_candidate (ssGeneration cand) (sort_key bNodeID (ssBundles cand)) {} \<noteq> None")
  case True
  then show ?thesis
    using inv by (auto simp: ReplaceStagedSet_def Let_def staged_ok_refl split: option.splits)
next
  case False
  let ?bs = "map as_staged (sort_key bNodeID (ssBundles cand))"
  have eq: "ReplaceStagedSet ctx t cand =
      bindM (attempt (prepareReplacement t (ssGeneration cand) ?bs)) (\<lambda>r.
        case r of
          Inl e \<Rightarrow> ret ([], Some e)
        | Inr (cur, recs) \<Rightarrow> pruneThen t (set (map bNodeID ?bs)) recs
            (finishReplacement t (ssGeneration cand) ?bs (ssTrustList cand) cur))"
    using False by (auto simp: ReplaceStagedSet_def Let_def)
  have "\<forall>b \<in> set ?bs. bNodeID b \<noteq> []"
    using False by (auto simp: check_candidate_spec)
  then show ?thesis
    unfolding eq by (intro wp_bindM wp_replace_main [OF inv])
qed

lemma wp_PutSignedTrustList:
  assumes inv: "stage_inv d t"
  shows "wp (PutSignedTrustList ctx t sl) (\<lambda>_ d1. \<not> ahead d t \<and> staged_ok t d d1) (\<lambda>_ d1. staged_ok t d d1) d"
proof -
  let ?h = "put_rec t CollStagedTLHist [] (VTrustList sl)" and ?s = "put_rec t CollStagedTL [] (VTrustList sl)"
    and ?x = "del_rec t CollStagedSeal []"
  have h: "stage_inv (?h d) t" by (rule inv_put_hist [OF inv])
  have fill: "stage_inv (?s (?h d)) t"
    if "\<not> ahead d t" "rec_at d t CollStagedSeal [] = Some (VSeal s)" "sealHasTrustList s"
      "sealTrustListEpoch s = tlEpoch sl" "sealTrustListSHA256 s = trustListSHA256 (tlTrustListJSON sl)" for s
    by (rule inv_put_signature [OF h]) (use that in \<open>auto simp: ahead_def live_seal_def\<close>)
  have fresh: "stage_inv (?x d) t" "stage_inv (?s (?x d)) t" "stage_inv (?h (?s (?x d))) t"
    "wp (saveSealForGenerationLocked t (gen_at d t + 1) (Some sl) True)
      (\<lambda>_ d1. stage_inv d1 t) (\<lambda>_ d1. stage_inv d1 t) (?h (?s (?x d)))" if na: "\<not> ahead d t"
  proof -
    note q1 = quiet_del_seal [OF inv na]
    note q2 = quiet_put_tl [OF q1, of sl]
    note q3 = quiet_put_hist [OF q2, of sl]
    show "stage_inv (?x d) t" "stage_inv (?s (?x d)) t" "stage_inv (?h (?s (?x d))) t"
      using q1 q2 q3 by (simp_all add: quiet_stage_inv)
    show "wp (saveSealForGenerationLocked t (gen_at d t + 1) (Some sl) True)
      (\<lambda>_ d1. stage_inv d1 t) (\<lambda>_ d1. stage_inv d1 t) (?h (?s (?x d)))"
      by (rule wp_saveSeal_inv [OF q3]) auto
  qed
  show ?thesis
    unfolding PutSignedTrustList_def Let_def using inv
    by (cases ctx) (auto simp: staged_ok_refl staged_ok_def h fill fresh
      intro!: wp_after_require wp_bindM [of "attempt (loadSealLocked t)"] wp_loadSealLocked)
qed

lemma wp_BumpGeneration:
  assumes inv: "stage_inv d t"
  shows "wp (BumpGeneration ctx t)
    (\<lambda>g d1. \<not> ahead d t \<and> staged_ok t d d1 \<and> g = gen_at d t + 1 \<and> gen_at d1 t = g)
    (\<lambda>_ d1. staged_ok t d d1 \<and> gen_at d t \<le> gen_at d1 t \<and> gen_at d1 t \<le> gen_at d t + 1) d"
proof -
  let ?n = "gen_at d t + 1" and ?x = "del_rec t CollStagedSeal [] d"
  have pos: "0 < ?n" using inv by (simp add: stage_inv_def stage_base_def)
  have x: "quiet ?x t" if "\<not> ahead d t" by (rule quiet_del_seal [OF inv that])
  have none: "quiet (del_rec t CollStagedTL [] ?x) t" "quiet (set_gen t ?n (del_rec t CollStagedTL [] ?x)) t"
    if na: "\<not> ahead d t"
    using quiet_del_tl [OF x [OF na]] inv_bump [OF quiet_del_tl [OF x [OF na]]] by simp_all
  have some: "quiet (put_rec t CollStagedTLHist [] (VTrustList h) ?x) t"
    "quiet (put_rec t CollStagedTL [] (VTrustList h) (put_rec t CollStagedTLHist [] (VTrustList h) ?x)) t"
    "quiet (put_rec t CollStagedSeal [] (VSeal (historical_seal ?n h))
      (put_rec t CollStagedTL [] (VTrustList h) (put_rec t CollStagedTLHist [] (VTrustList h) ?x))) t"
    "quiet (set_gen t ?n (put_rec t CollStagedSeal [] (VSeal (historical_seal ?n h))
      (put_rec t CollStagedTL [] (VTrustList h) (put_rec t CollStagedTLHist [] (VTrustList h) ?x)))) t"
    if na: "\<not> ahead d t" for h
  proof -
    note q1 = quiet_put_hist [OF x [OF na], of h]
    note q2 = quiet_put_tl [OF q1, of h]
    note q3 = quiet_historical [OF q2 pos, of h]
    show "quiet (put_rec t CollStagedTLHist [] (VTrustList h) ?x) t"
      "quiet (put_rec t CollStagedTL [] (VTrustList h) (put_rec t CollStagedTLHist [] (VTrustList h) ?x)) t"
      "quiet (put_rec t CollStagedSeal [] (VSeal (historical_seal ?n h))
        (put_rec t CollStagedTL [] (VTrustList h) (put_rec t CollStagedTLHist [] (VTrustList h) ?x))) t"
      by (fact q1 q2 q3)+
    show "quiet (set_gen t ?n (put_rec t CollStagedSeal [] (VSeal (historical_seal ?n h))
      (put_rec t CollStagedTL [] (VTrustList h) (put_rec t CollStagedTLHist [] (VTrustList h) ?x)))) t"
      using inv_bump [OF q3] by (simp add: historical_seal_def)
  qed
  show ?thesis
    unfolding BumpGeneration_def Let_def using inv
    by (cases ctx) (auto simp: staged_ok_refl staged_ok_def x none some quiet_stage_inv
      intro!: wp_after_require split: option.splits)
qed

end
