(* ===== verification/Promotion.thy ===== *)
theory Promotion
  imports Staging_Protocol
begin

text \<open>
  Promotion against the protocol invariant: the states between the first live write and the commit,
  the state after the commit, and what agents can read in each of them.
\<close>

section \<open>States of a promotion\<close>

text \<open>The served trust list once the sealed candidate has been promoted.\<close>

definition served_after :: "db \<Rightarrow> string \<Rightarrow> staged_set_seal \<Rightarrow> kvval option" where
  "served_after d t s =
     (case (sealHasTrustList s, rec_at d t CollStagedTL []) of
        (True, Some (VTrustList sl)) \<Rightarrow>
          (if tlSignatureJSON sl \<noteq> [] then Some (VTrustList (sl\<lparr>tlPromotedGeneration := gen_at d t + 1\<rparr>))
           else rec_at d t CollServedTL [])
      | _ \<Rightarrow> rec_at d t CollServedTL [])"

text \<open>The registry record of a promoted node.\<close>

definition stamped :: "int \<Rightarrow> kvval option \<Rightarrow> kvval option" where
  "stamped g r = (case r of
      Some (VNode n) \<Rightarrow> Some (VNode (n\<lparr>nDesiredGeneration := g\<rparr>)) | _ \<Rightarrow> r)"

text \<open>
  Between the first live write and the commit: the counter and the staged inputs are as before, every
  live record is the old one or the sealed one, and the bundles of \<open>done\<close> have been copied.
\<close>

definition promoting :: "string \<Rightarrow> db \<Rightarrow> staged_set_seal \<Rightarrow> signed_bundle set \<Rightarrow> db \<Rightarrow> bool" where
  "promoting t d s copied d1 \<longleftrightarrow> stage_inv d1 t \<and> gen_at d1 t = gen_at d t \<and>
     (\<forall>c. c \<notin> {CollCurrent, CollNodes, CollServedTL} \<longrightarrow> rec_at d1 t c = rec_at d t c) \<and>
     (\<forall>k. rec_at d1 t CollCurrent k = rec_at d t CollCurrent k \<or>
        (\<exists>b \<in> set (staged_at d t (gen_at d t + 1)). bNodeID b = k \<and>
           rec_at d1 t CollCurrent k = Some (VBundle (as_current b)))) \<and>
     (\<forall>k. rec_at d1 t CollNodes k = rec_at d t CollNodes k \<or>
        k \<in> bNodeID ` set (staged_at d t (gen_at d t + 1)) \<and>
          rec_at d1 t CollNodes k = stamped (gen_at d t + 1) (rec_at d t CollNodes k)) \<and>
     (\<forall>b \<in> copied. rec_at d1 t CollCurrent (bNodeID b) = Some (VBundle (as_current b)) \<and>
        rec_at d1 t CollNodes (bNodeID b) = stamped (gen_at d t + 1) (rec_at d t CollNodes (bNodeID b))) \<and>
     (rec_at d1 t CollServedTL [] = rec_at d t CollServedTL [] \<or>
      rec_at d1 t CollServedTL [] = served_after d t s)"

text \<open>After the commit: exactly the sealed candidate is live.\<close>

definition promoted :: "string \<Rightarrow> db \<Rightarrow> staged_set_seal \<Rightarrow> db \<Rightarrow> bool" where
  "promoted t d s d1 \<longleftrightarrow> quiet d1 t \<and> gen_at d1 t = gen_at d t + 1 \<and>
     (\<forall>c. c \<notin> {CollCurrent, CollNodes, CollServedTL, CollStaged, CollStagedTL, CollStagedTLHist, CollStagedSeal}
        \<longrightarrow> rec_at d1 t c = rec_at d t c) \<and>
     (\<forall>b \<in> set (staged_at d t (gen_at d t + 1)).
        rec_at d1 t CollCurrent (bNodeID b) = Some (VBundle (as_current b)) \<and>
        rec_at d1 t CollNodes (bNodeID b) = stamped (gen_at d t + 1) (rec_at d t CollNodes (bNodeID b))) \<and>
     (\<forall>k. k \<notin> set (sealNodeIDs s) \<longrightarrow> rec_at d1 t CollCurrent k = rec_at d t CollCurrent k \<and>
        rec_at d1 t CollNodes k = rec_at d t CollNodes k) \<and>
     rec_at d1 t CollServedTL [] = served_after d t s"

text \<open>
  The outcome of a promotion: it returns only with the sealed candidate live, and an error leaves
  either a partial copy that the counter still hides or (a commit whose acknowledgement was lost) the
  complete candidate.
\<close>

definition promotion_done :: "string \<Rightarrow> db \<Rightarrow> int \<Rightarrow> db \<Rightarrow> bool" where
  "promotion_done t d g d1 \<longleftrightarrow> g = gen_at d t + 1 \<and>
     (\<exists>s. live_seal d t s \<and> sealNodeIDs s \<noteq> [] \<and> promoted t d s d1)"

definition promotion_failed :: "string \<Rightarrow> db \<Rightarrow> db \<Rightarrow> bool" where
  "promotion_failed t d d1 \<longleftrightarrow> d1 = d \<or>
     (\<exists>s. live_seal d t s \<and> sealNodeIDs s \<noteq> [] \<and> (promoting t d s {} d1 \<or> promoted t d s d1))"

section \<open>The promotion loop\<close>

lemma stamped_idem [simp]: "stamped g (stamped g r) = stamped g r"
  by (simp add: stamped_def split: option.splits kvval.splits)

lemma stamped_node [simp]: "stamped g (Some (VNode n)) = Some (VNode (n\<lparr>nDesiredGeneration := g\<rparr>))"
  "stamped g None = None"
  by (simp_all add: stamped_def)

lemma promoting_refl: "stage_inv d t \<Longrightarrow> promoting t d s {} d"
  by (simp add: promoting_def)

lemma promoting_antimono: "promoting t d s X d1 \<Longrightarrow> Y \<subseteq> X \<Longrightarrow> promoting t d s Y d1"
  unfolding promoting_def by blast

lemma promoting_live:
  "promoting t d s X d1 \<Longrightarrow> live_seal d1 t = live_seal d t"
  "promoting t d s X d1 \<Longrightarrow> staged_at d1 t g = staged_at d t g"
proof -
  assume p: "promoting t d s X d1"
  then show "live_seal d1 t = live_seal d t"
    by (simp add: promoting_def live_seal_def fun_eq_iff)
  from p have "list_at d1 t CollStaged = list_at d t CollStaged"
    by (intro list_at_cong) (simp add: promoting_def)
  then show "staged_at d1 t g = staged_at d t g" by simp
qed

lemma staged_at_inj:
  assumes "bundle_recs d t CollStaged" "b \<in> set (staged_at d t g)" "b' \<in> set (staged_at d t g)" "bNodeID b' = bNodeID b"
  shows "b' = b"
  using assms by (auto simp: set_staged_at)

lemma promoting_put_current:
  assumes p: "promoting t d s X d1" and inv: "stage_inv d t" and s: "live_seal d t s"
    and b: "b \<in> set (staged_at d t (gen_at d t + 1))" and X: "X \<subseteq> set (staged_at d t (gen_at d t + 1))"
  shows "promoting t d s X (put_rec t CollCurrent (bNodeID b) (VBundle (as_current b)) d1)"
proof -
  have "stage_inv (put_rec t CollCurrent (bNodeID b) (VBundle (as_current b)) d1) t"
    by (rule inv_put_current [of d1 t s b]) (use p s b promoting_live [OF p] in \<open>auto simp: promoting_def\<close>)
  moreover have "b' = b" if "b' \<in> X" "bNodeID b' = bNodeID b" for b'
    using staged_at_inj [OF inv_bundle_recs(1) [OF inv] b] that X by auto
  ultimately show ?thesis
    using p b by (auto simp: promoting_def)
qed

lemma promoting_put_node:
  assumes p: "promoting t d s X d1" and s: "live_seal d t s" and b: "b \<in> set (staged_at d t (gen_at d t + 1))"
    and cur: "rec_at d1 t CollCurrent (bNodeID b) = Some (VBundle (as_current b))"
    and n: "rec_at d1 t CollNodes (bNodeID b) = Some (VNode n)"
  shows "promoting t d s (insert b X) (put_rec t CollNodes (bNodeID b)
    (VNode (n\<lparr>nDesiredGeneration := gen_at d t + 1\<rparr>)) d1)"
proof -
  let ?g = "gen_at d t + 1"
  have "stamped ?g (rec_at d t CollNodes (bNodeID b)) = Some (VNode (n\<lparr>nDesiredGeneration := ?g\<rparr>))"
  proof -
    have "rec_at d1 t CollNodes (bNodeID b) = rec_at d t CollNodes (bNodeID b) \<or>
        rec_at d1 t CollNodes (bNodeID b) = stamped ?g (rec_at d t CollNodes (bNodeID b))"
      using p by (auto simp: promoting_def)
    then show ?thesis using n stamped_idem stamped_node(1) by metis
  qed
  then show ?thesis
    using p b cur by (auto simp: promoting_def)
qed

lemma promoting_no_node:
  assumes p: "promoting t d s X d1"
    and cur: "rec_at d1 t CollCurrent (bNodeID b) = Some (VBundle (as_current b))"
    and n: "rec_at d1 t CollNodes (bNodeID b) = None"
  shows "promoting t d s (insert b X) d1"
proof -
  have "rec_at d1 t CollNodes (bNodeID b) = rec_at d t CollNodes (bNodeID b) \<or>
      rec_at d1 t CollNodes (bNodeID b) = stamped (gen_at d t + 1) (rec_at d t CollNodes (bNodeID b))"
    using p by (auto simp: promoting_def)
  then have "stamped (gen_at d t + 1) (rec_at d t CollNodes (bNodeID b)) = None"
    using n by (metis stamped_node(2))
  then show ?thesis using p cur n by (auto simp: promoting_def)
qed

lemma wp_promoteBundle:
  assumes p: "promoting t d s X d1" and inv: "stage_inv d t" and s: "live_seal d t s"
    and b: "b \<in> set (staged_at d t (gen_at d t + 1))" and X: "X \<subseteq> set (staged_at d t (gen_at d t + 1))"
  shows "wp (promoteBundle t (gen_at d t + 1) b)
    (\<lambda>_. promoting t d s (insert b X)) (\<lambda>_. promoting t d s {}) d1"
proof -
  let ?d = "put_rec t CollCurrent (bNodeID b) (VBundle (as_current b)) d1"
  have p1: "promoting t d s X ?d" by (rule promoting_put_current [OF assms])
  have e: "promoting t d s {} d1" "promoting t d s {} ?d"
    using p p1 by (auto elim: promoting_antimono)
  have node: "promoting t d s (insert b X) (put_rec t CollNodes (bNodeID b)
      (VNode (n\<lparr>nDesiredGeneration := gen_at d t + 1\<rparr>)) ?d)"
    if "rec_at d1 t CollNodes (bNodeID b) = Some (VNode n)" for n
    by (rule promoting_put_node [OF p1 s b]) (use that in auto)
  moreover have "promoting t d s (insert b X) ?d" if "rec_at d1 t CollNodes (bNodeID b) = None"
    by (rule promoting_no_node [OF p1]) (use that in auto)
  ultimately show ?thesis
    using e promoting_antimono [OF node, of _ "{}"]
    by (auto simp: promoteBundle_def split: option.splits elim!: as_node.elims)
qed

lemma wp_promoteBundles:
  assumes "promoting t d s X d1" and inv: "stage_inv d t" and s: "live_seal d t s"
    and "set bs \<union> X \<subseteq> set (staged_at d t (gen_at d t + 1))"
  shows "wp (forM bs (promoteBundle t (gen_at d t + 1)))
    (\<lambda>_. promoting t d s (set bs \<union> X)) (\<lambda>_. promoting t d s {}) d1"
  using assms(1,4)
proof (induction bs arbitrary: X d1)
  case Nil
  then show ?case by simp
next
  case (Cons b bs)
  have "wp (promoteBundle t (gen_at d t + 1) b)
      (\<lambda>_. wp (forM bs (promoteBundle t (gen_at d t + 1))) (\<lambda>_. promoting t d s (set (b # bs) \<union> X)) (\<lambda>_. promoting t d s {}))
      (\<lambda>_. promoting t d s {}) d1"
  proof (rule wp_mono [OF wp_promoteBundle [OF Cons.prems(1) inv s]])
    fix d2
    assume "promoting t d s (insert b X) d2"
    then show "wp (forM bs (promoteBundle t (gen_at d t + 1))) (\<lambda>_. promoting t d s (set (b # bs) \<union> X)) (\<lambda>_. promoting t d s {}) d2"
      using Cons.IH [of "insert b X" d2] Cons.prems(2) by simp
  qed (use Cons.prems in auto)
  then show ?case by (simp add: wp_bindM)
qed

section \<open>The trust list, the commit and the cleanup\<close>

lemma promoting_served:
  assumes p: "promoting t d s X d1" and s: "live_seal d t s" and ids: "sealNodeIDs s \<noteq> []"
    and has: "sealHasTrustList s" and sl: "rec_at d t CollStagedTL [] = Some (VTrustList sl)"
    and sig: "tlSignatureJSON sl \<noteq> []"
  shows "promoting t d s X (put_rec t CollServedTL [] (VTrustList (sl\<lparr>tlPromotedGeneration := gen_at d t + 1\<rparr>)) d1)"
proof -
  have g: "gen_at d1 t = gen_at d t" using p by (simp add: promoting_def)
  have "stage_inv (put_rec t CollServedTL [] (VTrustList (sl\<lparr>tlPromotedGeneration := gen_at d1 t + 1\<rparr>)) d1) t"
    by (rule inv_put_served [of d1 t s sl]) (use p s ids has sl sig promoting_live [OF p] in \<open>auto simp: promoting_def\<close>)
  then show ?thesis
    using p g has sl sig by (auto simp: promoting_def served_after_def)
qed

lemma wp_promoteTrustList:
  assumes p: "promoting t d s X d1" and s: "live_seal d t s" and ids: "sealNodeIDs s \<noteq> []"
    and tlo: "tlo = None \<Longrightarrow> \<not> sealHasTrustList s"
      "\<And>sl. tlo = Some sl \<Longrightarrow> sealHasTrustList s \<and> rec_at d t CollStagedTL [] = Some (VTrustList sl)"
    and served: "rec_at d1 t CollServedTL [] = rec_at d t CollServedTL [] \<or> rec_at d1 t CollServedTL [] = served_after d t s"
  shows "wp (promoteTrustList t (gen_at d t + 1) tlo)
    (\<lambda>_ d2. promoting t d s X d2 \<and> rec_at d2 t CollServedTL [] = served_after d t s)
    (\<lambda>_. promoting t d s X) d1"
proof (cases tlo)
  case None
  then show ?thesis
    using p tlo served by (auto simp: promoteTrustList_def served_after_def split: option.splits)
next
  case (Some sl)
  then have has: "sealHasTrustList s" "rec_at d t CollStagedTL [] = Some (VTrustList sl)"
    using tlo by auto
  show ?thesis
  proof (cases "tlSignatureJSON sl = []")
    case True
    with Some has served p show ?thesis by (auto simp: promoteTrustList_def served_after_def)
  next
    case False
    with Some has p promoting_served [OF p s ids has False] show ?thesis
      by (auto simp: promoteTrustList_def served_after_def)
  qed
qed

lemma promoted_commit:
  assumes p: "promoting t d s (set (staged_at d t (gen_at d t + 1))) d1" and inv: "stage_inv d t" and s: "live_seal d t s"
    and served: "rec_at d1 t CollServedTL [] = served_after d t s"
  shows "promoted t d s (set_gen t (gen_at d t + 1) d1)"
proof -
  have g: "gen_at d1 t = gen_at d t" using p by (simp add: promoting_def)
  have "quiet (set_gen t (gen_at d1 t + 1) d1) t"
    by (rule inv_commit [of d1 t s]) (use p s promoting_live [OF p] in \<open>auto simp: promoting_def\<close>)
  moreover have "set (sealNodeIDs s) = bNodeID ` set (staged_at d t (gen_at d t + 1))"
    using inv_live_seal(1) [OF inv s] by simp
  ultimately show ?thesis
    using p g served by (auto simp: promoting_def promoted_def)
qed

lemma promoted_cleanup:
  assumes "promoted t d s d1"
  shows "promoted t d s (del_rec t CollStaged k d1)" "promoted t d s (del_rec t CollStagedSeal [] d1)"
    "promoted t d s (del_rec t CollStagedTL [] d1)" "promoted t d s (put_rec t CollStagedTLHist [] (VTrustList sl) d1)"
    "0 < g \<Longrightarrow> promoted t d s (put_rec t CollStagedSeal [] (VSeal (historical_seal g sl)) d1)"
  using assms by (simp_all add: promoted_def quiet_del_staged quiet_del_seal' quiet_del_tl quiet_put_hist quiet_historical)

lemma wp_promoteCleanup:
  assumes p: "promoted t d s d1" and g: "0 < g"
  shows "wp (promoteCleanup t g ids tlo) (\<lambda>_. promoted t d s) E d1"
proof -
  have "wp (forM ids (\<lambda>i. ignoring (kv_del t CollStaged i))) (\<lambda>_. promoted t d s) E d1"
    by (rule wp_forM_inv) (use p in \<open>auto intro!: wp_ignoring simp: promoted_cleanup\<close>)
  moreover have "wp (bindM (ignoring (kv_del t CollStagedSeal [])) (\<lambda>_. ignoring (kv_del t CollStagedTL [])))
      (\<lambda>_. promoted t d s) E d2" if "promoted t d s d2" for d2
    by (intro wp_bindM wp_ignoring) (auto intro!: wp_ignoring simp: promoted_cleanup that)
  moreover have "wp (bindM (ignoring (saveJSON VTrustList t CollStagedTLHist [] sl))
        (\<lambda>_. ignoring (saveJSON VSeal t CollStagedSeal [] (historical_seal g sl))))
      (\<lambda>_. promoted t d s) E d2" if "promoted t d s d2" for sl d2
    by (intro wp_bindM wp_ignoring) (auto intro!: wp_ignoring simp: promoted_cleanup that g)
  ultimately show ?thesis
    unfolding promoteCleanup_def Let_def
    by (intro wp_bindM) (auto elim!: wp_mono split: option.splits)
qed

section \<open>The whole operation\<close>

lemma promotion_failedI:
  "promotion_failed t d d"
  "live_seal d t s \<Longrightarrow> sealNodeIDs s \<noteq> [] \<Longrightarrow> promoted t d s d1 \<Longrightarrow> promotion_failed t d d1"
  "live_seal d t s \<Longrightarrow> sealNodeIDs s \<noteq> [] \<Longrightarrow> promoting t d s X d1 \<Longrightarrow> promotion_failed t d d1"
  unfolding promotion_failed_def using promoting_antimono [of t d s X d1 "{}"] by auto

lemma wp_promoteSealed:
  assumes inv: "stage_inv d t" and s: "live_seal d t s" and ids: "sealNodeIDs s \<noteq> []"
  shows "wp (promoteSealed t (gen_at d t + 1) s (staged_at d t (gen_at d t + 1)) is)
    (promotion_done t d) (\<lambda>_. promotion_failed t d) d"
proof -
  let ?g = "gen_at d t + 1" and ?E = "\<lambda>_::err. promotion_failed t d"
  let ?bs = "staged_at d t ?g"
  have pos: "0 < ?g" using inv by (simp add: stage_inv_def stage_base_def)
  have main: "wp (bindM (forM ?bs (promoteBundle t ?g)) (\<lambda>_.
        bindM (promoteTrustList t ?g tlo) (\<lambda>_.
        bindM (kv_setGeneration t ?g) (\<lambda>_.
        bindM (promoteCleanup t ?g is tlo) (\<lambda>_. ret ?g))))) (promotion_done t d) ?E d"
    if tlo: "tlo = None \<Longrightarrow> \<not> sealHasTrustList s"
      "\<And>sl. tlo = Some sl \<Longrightarrow> sealHasTrustList s \<and> rec_at d t CollStagedTL [] = Some (VTrustList sl)" for tlo
  proof (rule wp_bindM, rule wp_mono [OF wp_promoteBundles [OF promoting_refl [OF inv] inv s]])
    fix d1
    assume "promoting t d s (set ?bs \<union> {}) d1"
    then have p: "promoting t d s (set ?bs) d1" by simp
    show "wp (bindM (promoteTrustList t ?g tlo) (\<lambda>_. bindM (kv_setGeneration t ?g) (\<lambda>_.
        bindM (promoteCleanup t ?g is tlo) (\<lambda>_. ret ?g)))) (promotion_done t d) ?E d1"
    proof (rule wp_bindM, rule wp_mono [OF wp_promoteTrustList [OF p s ids tlo]])
      fix d2
      assume d2: "promoting t d s (set ?bs) d2 \<and> rec_at d2 t CollServedTL [] = served_after d t s"
      then have c: "promoted t d s (set_gen t ?g d2)"
        using promoted_commit [OF _ inv s] by blast
      have "wp (bindM (promoteCleanup t ?g is tlo) (\<lambda>_. ret ?g)) (promotion_done t d) ?E (set_gen t ?g d2)"
        by (rule wp_bindM, rule wp_mono [OF wp_promoteCleanup [OF c pos, of _ _ ?E]])
          (use s ids in \<open>auto simp: promotion_done_def\<close>)
      then show "wp (bindM (kv_setGeneration t ?g) (\<lambda>_. bindM (promoteCleanup t ?g is tlo) (\<lambda>_. ret ?g)))
          (promotion_done t d) ?E d2"
        using d2 c promotion_failedI(2,3) [OF s ids] by auto
    qed (use p promotion_failedI(3) [OF s ids] in \<open>auto simp: promoting_def\<close>)
  qed (use promotion_failedI(3) [OF s ids] in auto)
  show ?thesis
    unfolding promoteSealed_def
    by (rule wp_bindM, rule wp_loadSealedTrustListLocked) (auto intro!: main promotion_failedI(1))
qed

lemma wp_PromoteStaged:
  assumes inv: "stage_inv d t"
  shows "wp (PromoteStaged ctx t) (promotion_done t d) (\<lambda>_. promotion_failed t d) d"
proof -
  have staged: "wp (bindM (attempt (stagedBundlesForGenerationLocked t (gen_at d t + 1))) (\<lambda>r2.
       case r2 of
         Inl _ \<Rightarrow> throw ErrIncompleteStagedSet
       | Inr (staged, ids) \<Rightarrow>
           (if ids \<noteq> sealNodeIDs s then throw ErrIncompleteStagedSet
            else promoteSealed t (gen_at d t + 1) s staged ids))) (promotion_done t d) (\<lambda>_. promotion_failed t d) d"
    if s: "live_seal d t s" and ids: "sealNodeIDs s \<noteq> []" for s
    by (rule wp_bindM, unfold wp_attempt, rule wp_mono [OF wp_stagedBundles [OF inv_bundle_recs(1) [OF inv]]])
      (use wp_promoteSealed [OF inv s ids] in \<open>auto simp: promotion_failedI(1)\<close>)
  show ?thesis
    unfolding PromoteStaged_def Let_def
    by (cases ctx) (auto simp: promotion_failedI(1) live_seal_def
      intro!: wp_bindM [of "attempt (loadSealLocked t)"] wp_loadSealLocked staged)
qed

end
