(* ===== verification/Served.thy ===== *)
theory Served
  imports Promotion
begin

text \<open>
  What the staging protocol guarantees to agents and operators: promotion is all or nothing, an
  interrupted promotion can always be completed and nothing else can happen before that, nothing an
  agent is served is ever rolled back, and a promoted candidate is the candidate that was staged.
\<close>

section \<open>A staged tenant\<close>

text \<open>A store with one sealed bundle, and the same store after the first write of its promotion.\<close>

definition example_bundle :: signed_bundle where
  "example_bundle = \<lparr>bNodeID = ''n1'', bGeneration = 1, bFiles = fmempty, bIsStaged = True, bIsCurrent = False,
     bCreatedAt = 7\<rparr>"

definition example_staged :: db where
  "example_staged =
     put_rec ''acme'' CollStagedSeal [] (VSeal (candidate_seal 1 [''n1''] None))
       (put_rec ''acme'' CollStaged ''n1'' (VBundle example_bundle) empty_db)"

definition example_half :: db where
  "example_half = put_rec ''acme'' CollCurrent ''n1'' (VBundle (as_current example_bundle)) example_staged"

lemma stage_inv_empty: "stage_inv empty_db t" "quiet empty_db t" "\<not> ahead empty_db t"
  by (simp_all add: quiet_def stage_inv_def stage_base_def stage_defs)

lemma example_staged_at: "staged_at example_staged ''acme'' 1 = [example_bundle]"
  by (simp add: example_staged_def bundles_of_def List.map_filter_simps example_bundle_def)

lemma example_staged_facts:
  "stage_inv example_staged ''acme''" "\<not> ahead example_staged ''acme''" "typed example_staged"
  "live_seal example_staged ''acme'' (candidate_seal 1 [''n1''] None)" "gen_at example_staged ''acme'' = 0"
proof -
  let ?d = "put_rec ''acme'' CollStaged ''n1'' (VBundle example_bundle) empty_db"
  have q: "quiet ?d ''acme''"
    using quiet_put_staged [OF stage_inv_empty(2), of example_bundle "''acme''"] by (simp add: example_bundle_def)
  have "bundles_of 1 (list_at ?d ''acme'' CollStaged) = [example_bundle]"
    by (simp add: bundles_of_def List.map_filter_simps example_bundle_def)
  then show "stage_inv example_staged ''acme''"
    using inv_put_candidate [OF q, of None] by (simp add: example_staged_def) (simp add: example_bundle_def)
  show "\<not> ahead example_staged ''acme''" by (simp add: example_staged_def ahead_def)
  show "typed example_staged" by (simp add: example_staged_def typed_empty)
  show "live_seal example_staged ''acme'' (candidate_seal 1 [''n1''] None)"
    by (simp add: live_seal_def example_staged_def candidate_seal_def)
  show "gen_at example_staged ''acme'' = 0" by (simp add: example_staged_def)
qed

lemma example_half_facts: "stage_inv example_half ''acme''" "ahead example_half ''acme''" "typed example_half"
proof -
  have "example_bundle \<in> set (staged_at example_staged ''acme'' (gen_at example_staged ''acme'' + 1))"
    using example_staged_at example_staged_facts(5) by simp
  from inv_put_current [OF example_staged_facts(1,4) this] show "stage_inv example_half ''acme''"
    by (simp add: example_half_def example_bundle_def)
  show "ahead example_half ''acme''"
    by (auto simp: ahead_def example_half_def example_staged_facts(5) example_bundle_def
        intro!: exI [of _ "''n1''"])
  show "typed example_half" using example_staged_facts(3) by (simp add: example_half_def)
qed

section \<open>Fault-free promotion succeeds\<close>

lemma run_promoteBundle:
  assumes "typed d"
  shows "\<exists>d1. promoteBundle t g b (d, []) = (Inr (), (d1, [])) \<and> typed d1"
proof (cases "rec_at d t CollNodes (bNodeID b)")
  case None
  then show ?thesis using assms by (simp add: promoteBundle_def)
next
  case (Some v)
  then obtain n where "v = VNode n"
    using typedD [OF assms Some] by auto
  with Some show ?thesis using assms by (simp add: promoteBundle_def)
qed

lemma run_promoteBundles:
  assumes "typed d"
  shows "\<exists>d1. forM bs (promoteBundle t g) (d, []) = (Inr (), (d1, [])) \<and> typed d1"
  using assms
proof (induction bs arbitrary: d)
  case (Cons b bs)
  obtain d1 where d1: "promoteBundle t g b (d, []) = (Inr (), (d1, []))" "typed d1"
    using run_promoteBundle [OF Cons.prems] by blast
  from Cons.IH [OF d1(2)] d1(1) show ?case by (simp add: run_bindM_value)
qed simp

lemma run_promoteTrustList:
  "\<exists>d1. promoteTrustList t g tlo (d, []) = (Inr (), (d1, []))"
  by (cases tlo) (auto simp: promoteTrustList_def)

lemma run_ignoring [simp]:
  "ignoring (kv_del t c k) (d, []) = (Inr (), (del_rec t c k d, []))"
  "ignoring (saveJSON enc t c k x) (d, []) = (Inr (), (put_rec t c k (enc x) d, []))"
  "bindM (ignoring (kv_del t c k)) f (d, []) = f () (del_rec t c k d, [])"
  "bindM (ignoring (saveJSON enc t c k x)) f (d, []) = f () (put_rec t c k (enc x) d, [])"
  by (simp_all add: ignoring_def bindM_def attempt_def)

lemma run_promoteCleanup:
  "\<exists>d1. promoteCleanup t g ids tlo (d, []) = (Inr (), (d1, []))"
proof -
  have "\<exists>d1. forM ids (\<lambda>i. ignoring (kv_del t CollStaged i)) (d, []) = (Inr (), (d1, []))"
    by (induction ids arbitrary: d) simp_all
  then obtain d1 where "forM ids (\<lambda>i. ignoring (kv_del t CollStaged i)) (d, []) = (Inr (), (d1, []))"
    by blast
  then show ?thesis
    by (cases tlo) (simp_all add: promoteCleanup_def Let_def run_bindM_value)
qed

lemma run_loadSeal:
  assumes "stage_inv d t" "live_seal d t s"
  shows "loadSealLocked t (d, []) = (Inr s, (d, []))"
  using assms(2) inv_live_seal(3) [OF assms]
  by (simp add: loadSealLocked_def live_seal_def run_bindM_value [OF run_attempt])

lemma run_loadSealedTrustList:
  assumes "seal_matches_tl d t s"
  shows "\<exists>tlo. loadSealedTrustListLocked t s (d, []) = (Inr tlo, (d, []))"
  using assms
  by (auto simp: loadSealedTrustListLocked_def seal_matches_tl_def run_bindM_value [OF run_attempt])

lemma run_PromoteStaged:
  assumes inv: "stage_inv d t" and s: "live_seal d t s" "sealNodeIDs s \<noteq> []" and ty: "typed d"
  shows "\<exists>d1. PromoteStaged False t (d, []) = (Inr (gen_at d t + 1), (d1, [])) \<and> promoted t d s d1"
proof -
  let ?g = "gen_at d t + 1"
  let ?bs = "staged_at d t ?g"
  obtain tlo where tlo: "loadSealedTrustListLocked t s (d, []) = (Inr tlo, (d, []))"
    using run_loadSealedTrustList [OF inv_live_seal(2) [OF inv s(1)]] by blast
  obtain d1 where d1: "forM ?bs (promoteBundle t ?g) (d, []) = (Inr (), (d1, []))"
    using run_promoteBundles [OF ty] by blast
  obtain d2 where d2: "promoteTrustList t ?g tlo (d1, []) = (Inr (), (d2, []))"
    using run_promoteTrustList by blast
  obtain d3 where d3: "promoteCleanup t ?g (map bNodeID ?bs) tlo (set_gen t ?g d2, []) = (Inr (), (d3, []))"
    using run_promoteCleanup by blast
  have staged: "stagedBundlesForGenerationLocked t ?g (d, []) = (Inr (?bs, map bNodeID ?bs), (d, []))"
    using staged_for_list_at [OF inv_bundle_recs(1) [OF inv]] by (simp add: stagedBundlesForGenerationLocked_def)
  have "promoteSealed t ?g s ?bs (map bNodeID ?bs) (d, []) = (Inr ?g, (d3, []))"
    by (simp add: promoteSealed_def run_bindM_value tlo d1 d2 d3)
  moreover have "attempt (loadSealLocked t) (d, []) = (Inr (Inr s), (d, []))"
    "attempt (stagedBundlesForGenerationLocked t ?g) (d, []) = (Inr (Inr (?bs, map bNodeID ?bs)), (d, []))"
    by (simp_all add: run_attempt run_loadSeal [OF inv s(1)] staged)
  ultimately have run: "PromoteStaged False t (d, []) = (Inr ?g, (d3, []))"
    using s inv_live_seal(1) [OF inv s(1)]
    by (simp add: PromoteStaged_def Let_def run_bindM_value live_seal_def)
  have "promotion_done t d ?g d3"
    by (rule wp_value [OF wp_PromoteStaged [OF inv] run])
  then have "promoted t d s d3"
    using live_seal_unique [OF s(1)] by (auto simp: promotion_done_def)
  with run show ?thesis by blast
qed

section \<open>Completing an interrupted promotion\<close>

lemma promoting_then_promoted:
  assumes p: "promoting t d s {} d1" and q: "promoted t d1 s d2" and inv: "stage_inv d t" and s: "live_seal d t s"
  shows "promoted t d s d2"
proof -
  have g: "gen_at d1 t = gen_at d t" using p by (simp add: promoting_def)
  have st: "staged_at d1 t x = staged_at d t x" for x by (rule promoting_live(2) [OF p])
  have tl: "rec_at d1 t CollStagedTL [] = rec_at d t CollStagedTL []"
    using p by (simp add: promoting_def)
  have served: "served_after d1 t s = served_after d t s"
    using p by (auto simp: served_after_def tl g promoting_def split: option.splits kvval.splits bool.splits if_splits)
  have nodes: "stamped (gen_at d t + 1) (rec_at d1 t CollNodes k) = stamped (gen_at d t + 1) (rec_at d t CollNodes k)" for k
    using p by (metis promoting_def stamped_idem)
  have ids: "set (sealNodeIDs s) = bNodeID ` set (staged_at d t (gen_at d t + 1))"
    using inv_live_seal(1) [OF inv s] by simp
  have rest: "rec_at d1 t CollCurrent k = rec_at d t CollCurrent k" "rec_at d1 t CollNodes k = rec_at d t CollNodes k"
    if "k \<notin> set (sealNodeIDs s)" for k
    using p that unfolding promoting_def ids by blast+
  show ?thesis
    using p q rest unfolding promoted_def promoting_def g st served nodes by auto
qed

lemma promotion_failed_cases:
  assumes "promotion_failed t d d1" and "stage_inv d t"
  obtains (promoting) s where "live_seal d t s" "sealNodeIDs s \<noteq> []" "promoting t d s {} d1"
  | (promoted) s where "live_seal d t s" "sealNodeIDs s \<noteq> []" "promoted t d s d1"
  | (unchanged) "d1 = d"
  using assms unfolding promotion_failed_def by blast

lemma promotion_outcome:
  assumes "stage_inv d t" and "PromoteStaged ctx t (d, fs) = (r, (d1, fs1))"
  shows "promotion_failed t d d1"
proof (cases r)
  case (Inl e)
  with wp_error [OF wp_PromoteStaged [OF assms(1)]] assms(2) show ?thesis by blast
next
  case (Inr g)
  with wp_value [OF wp_PromoteStaged [OF assms(1)]] assms(2) have "promotion_done t d g d1" by blast
  then show ?thesis by (auto simp: promotion_done_def promotion_failed_def)
qed

text \<open>
  Claim C2: a promotion that stopped half way is finished by the next one.  Whatever backend call
  failed, if the live records run ahead of the generation counter afterwards, a promotion over a
  working backend succeeds, and the result is the candidate that was sealed before the first attempt:
  every sealed bundle is current, every promoted node expects the new generation, the sealed signed
  trust list is served and every other live record is as it was.
\<close>

theorem interrupted_promotion_is_completed:
  assumes "stage_inv d t" and "typed d" and "\<not> ahead d t"
    and "PromoteStaged ctx t (d, fs) = (r, (d1, fs1))" and "ahead d1 t"
  shows "\<exists>s d2. live_seal d t s \<and> sealNodeIDs s \<noteq> [] \<and>
    PromoteStaged False t (d1, []) = (Inr (gen_at d t + 1), (d2, [])) \<and> promoted t d s d2"
proof -
  have "promotion_failed t d d1"
    by (rule promotion_outcome [OF assms(1,4)])
  then show ?thesis
    using assms(1)
  proof (cases rule: promotion_failed_cases)
    case (promoting s)
    have g: "gen_at d1 t = gen_at d t" and inv1: "stage_inv d1 t" using promoting by (auto simp: promoting_def)
    have "typed d1"
      using wp_outcome [OF keeps_typesD [OF types_staging(6)]] assms(2,4) by blast
    moreover have "live_seal d1 t s" using promoting promoting_live(1) [OF promoting(3)] by simp
    ultimately obtain d2 where "PromoteStaged False t (d1, []) = (Inr (gen_at d t + 1), (d2, []))" "promoted t d1 s d2"
      using run_PromoteStaged [OF inv1 _ promoting(2)] g by metis
    with promoting promoting_then_promoted [OF promoting(3) _ assms(1) promoting(1)] show ?thesis by blast
  next
    case (promoted s)
    then have "\<not> ahead d1 t" by (simp add: promoted_def quiet_iff)
    with assms(5) show ?thesis by simp
  next
    case unchanged
    with assms(3,5) show ?thesis by simp
  qed
qed

lemma example_interruption:
  "PromoteStaged False ''acme'' (example_staged, [Pass, Pass, Pass, Pass, FailBefore])
    = (Inl ErrIO, (example_half, []))"
proof -
  have "list_at example_staged ''acme'' CollStaged = [(''n1'', VBundle example_bundle)]"
    "rec_at example_staged ''acme'' CollStagedSeal [] = Some (VSeal (candidate_seal 1 [''n1''] None))"
    by (simp_all add: example_staged_def)
  moreover have "bNodeID example_bundle = ''n1''" "bGeneration example_bundle = 1"
    by (simp_all add: example_bundle_def)
  ultimately show ?thesis
    using example_staged_facts(5)
    by (simp add: PromoteStaged_def promoteSealed_def promoteBundle_def stagedBundlesForGenerationLocked_def
        loadSealLocked_def loadSealedTrustListLocked_def loadJSON_def loadOpt_def saveJSON_def kv_defs backend_def
        bindM_def attempt_def ret_def throw_def ctxErr_def seal_ok_def candidate_seal_def example_half_def)
qed

theorem interrupted_promotion_is_completed_witness:
  "\<exists>d2. PromoteStaged False ''acme'' (example_half, []) = (Inr 1, (d2, [])) \<and>
    promoted ''acme'' example_staged (candidate_seal 1 [''n1''] None) d2"
proof -
  obtain s d2 where "live_seal example_staged ''acme'' s"
    "PromoteStaged False ''acme'' (example_half, []) = (Inr (gen_at example_staged ''acme'' + 1), (d2, []))"
    "promoted ''acme'' example_staged s d2"
    using interrupted_promotion_is_completed [OF example_staged_facts(1,3,2) example_interruption example_half_facts(2)]
    by blast
  then show ?thesis
    using live_seal_unique [OF example_staged_facts(4)] example_staged_facts(5) by auto
qed

section \<open>What agents see of a promotion\<close>

lemma run_GetServedConfig:
  "fst (GetServedConfig False t n (d, [])) =
    (case rec_at d t CollCurrent n of
       None \<Rightarrow> Inl ErrNotFound
     | Some v \<Rightarrow> (case as_bundle v of
         None \<Rightarrow> Inl ErrParse
       | Some b \<Rightarrow>
           (if gen_at d t < bGeneration b then Inl ErrUncommittedPromotion
            else case rec_at d t CollOperatorCred [] of
                None \<Rightarrow> Inr \<lparr>scBundle = b, scKeystoneOn = False, scTrustList = zeroTrustList, scHasTrustList = False\<rparr>
              | Some cv \<Rightarrow> (case as_credential cv of
                  None \<Rightarrow> Inl ErrParse
                | Some _ \<Rightarrow> (case rec_at d t CollServedTL [] of
                    None \<Rightarrow> Inr \<lparr>scBundle = b, scKeystoneOn = True, scTrustList = zeroTrustList, scHasTrustList = False\<rparr>
                  | Some tv \<Rightarrow> (case as_trustlist tv of
                      None \<Rightarrow> Inl ErrParse
                    | Some sl \<Rightarrow>
                        (if gen_at d t < tlPromotedGeneration sl then Inl ErrUncommittedPromotion
                         else if tlSignatureJSON sl \<noteq> []
                         then Inr \<lparr>scBundle = b, scKeystoneOn = True, scTrustList = sl, scHasTrustList = True\<rparr>
                         else Inr \<lparr>scBundle = b, scKeystoneOn = True, scTrustList = zeroTrustList,
                                    scHasTrustList = False\<rparr>)))))))"
  by (auto simp: GetServedConfig_def Let_def split: option.splits)

text \<open>What a completed promotion serves, and what an unfinished one can serve.\<close>

lemma served_while_promoting:
  assumes p: "promoting t d s {} d1" and inv: "stage_inv d t"
  shows "fst (GetServedConfig False t n (d1, [])) = fst (GetServedConfig False t n (d, [])) \<or>
    fst (GetServedConfig False t n (d1, [])) = Inl ErrUncommittedPromotion"
proof -
  have g: "gen_at d1 t = gen_at d t" and cred: "rec_at d1 t CollOperatorCred = rec_at d t CollOperatorCred"
    using p by (simp_all add: promoting_def)
  have cur: "rec_at d1 t CollCurrent n = rec_at d t CollCurrent n \<or>
      (\<exists>b. rec_at d1 t CollCurrent n = Some (VBundle b) \<and> gen_at d t < bGeneration b)"
  proof -
    have "rec_at d1 t CollCurrent n = rec_at d t CollCurrent n \<or>
        (\<exists>b \<in> set (staged_at d t (gen_at d t + 1)). bNodeID b = n \<and> rec_at d1 t CollCurrent n = Some (VBundle (as_current b)))"
      using p by (simp add: promoting_def)
    moreover have "bGeneration b = gen_at d t + 1" if "b \<in> set (staged_at d t (gen_at d t + 1))" for b
      using that set_staged_at [OF inv_bundle_recs(1) [OF inv]] by simp
    ultimately show ?thesis by force
  qed
  have tl: "rec_at d1 t CollServedTL [] = rec_at d t CollServedTL [] \<or>
      (\<exists>sl. rec_at d1 t CollServedTL [] = Some (VTrustList sl) \<and> gen_at d t < tlPromotedGeneration sl)"
  proof -
    have "rec_at d1 t CollServedTL [] = rec_at d t CollServedTL [] \<or> rec_at d1 t CollServedTL [] = served_after d t s"
      using p by (simp add: promoting_def)
    then show ?thesis
      by (auto simp: served_after_def split: option.splits kvval.splits bool.splits if_splits)
  qed
  show ?thesis
  proof (cases "rec_at d1 t CollCurrent n = rec_at d t CollCurrent n")
    case False
    then obtain b where "rec_at d1 t CollCurrent n = Some (VBundle b)" "gen_at d t < bGeneration b"
      using cur by blast
    then show ?thesis unfolding run_GetServedConfig g by simp
  next
    case same: True
    show ?thesis
    proof (cases "rec_at d1 t CollServedTL [] = rec_at d t CollServedTL []")
      case True
      show ?thesis unfolding run_GetServedConfig same g cred True by simp
    next
      case False
      then obtain sl where "rec_at d1 t CollServedTL [] = Some (VTrustList sl)" "gen_at d t < tlPromotedGeneration sl"
        using tl by blast
      then show ?thesis
        unfolding run_GetServedConfig same g cred by (auto split: option.splits)
    qed
  qed
qed

lemma served_after_promotion:
  assumes p: "promoted t d s d1" and inv: "stage_inv d t" and ty: "typed d"
    and b: "b \<in> set (staged_at d t (gen_at d t + 1))"
  shows "\<exists>sc. fst (GetServedConfig False t (bNodeID b) (d1, [])) = Inr sc \<and> scBundle sc = as_current b"
proof -
  have bg: "bGeneration b = gen_at d t + 1"
    using b set_staged_at [OF inv_bundle_recs(1) [OF inv]] by simp
  have cur: "rec_at d1 t CollCurrent (bNodeID b) = Some (VBundle (as_current b))"
    and g: "gen_at d1 t = gen_at d t + 1" and q: "quiet d1 t"
    and cred: "rec_at d1 t CollOperatorCred = rec_at d t CollOperatorCred"
    using p b by (auto simp: promoted_def)
  have inv1: "stage_inv d1 t" and na: "\<not> ahead d1 t"
    using q by (simp add: quiet_def, simp add: quiet_iff)
  have "rec_at d t CollOperatorCred [] = None \<or> (\<exists>c. rec_at d t CollOperatorCred [] = Some (VCredential c))"
    using typedD [OF ty, of t CollOperatorCred "[]"] by (cases "rec_at d t CollOperatorCred []") auto
  moreover have "rec_at d1 t CollServedTL [] = None \<or>
      (\<exists>sl. rec_at d1 t CollServedTL [] = Some (VTrustList sl) \<and> tlPromotedGeneration sl \<le> gen_at d t + 1)"
    using served_tl_cases [OF inv1] na g by (metis ahead_def not_less)
  ultimately show ?thesis
    unfolding run_GetServedConfig cur cred g using bg by auto
qed

text \<open>
  Claim C1: agents never see half of a promotion.  Whatever backend call fails, and whether or not the
  promotion reports success, one of two things holds afterwards.  Either the generation is unchanged,
  and every node is served exactly what it was served before or is refused because a promotion is
  unfinished; or the generation advanced by one, and every node of the sealed candidate is served its
  sealed bundle, while the bundle of every other node is the one it had.
\<close>

theorem promotion_is_all_or_nothing:
  assumes "stage_inv d t" and "typed d" and "PromoteStaged ctx t (d, fs) = (r, (d1, fs1))"
  shows "(gen_at d1 t = gen_at d t \<and>
      (\<forall>n. fst (GetServedConfig False t n (d1, [])) = fst (GetServedConfig False t n (d, [])) \<or>
           fst (GetServedConfig False t n (d1, [])) = Inl ErrUncommittedPromotion)) \<or>
    (gen_at d1 t = gen_at d t + 1 \<and>
      (\<exists>s. live_seal d t s \<and> sealNodeIDs s = map bNodeID (staged_at d t (gen_at d t + 1)) \<and>
        (\<forall>b \<in> set (staged_at d t (gen_at d t + 1)).
           \<exists>sc. fst (GetServedConfig False t (bNodeID b) (d1, [])) = Inr sc \<and> scBundle sc = as_current b) \<and>
        (\<forall>n. n \<notin> set (sealNodeIDs s) \<longrightarrow> rec_at d1 t CollCurrent n = rec_at d t CollCurrent n)))"
proof -
  have "promotion_failed t d d1"
    by (rule promotion_outcome [OF assms(1,3)])
  then show ?thesis
    using assms(1)
  proof (cases rule: promotion_failed_cases)
    case (promoting s)
    then show ?thesis
      using served_while_promoting [OF promoting(3) assms(1)] by (simp add: promoting_def)
  next
    case (promoted s)
    then show ?thesis
      using served_after_promotion [OF promoted(3) assms(1,2)] inv_live_seal(1) [OF assms(1) promoted(1)]
      unfolding promoted_def by blast
  qed auto
qed

theorem promotion_is_all_or_nothing_witness:
  "fst (GetServedConfig False ''acme'' ''n1'' (example_half, [])) \<in>
     {Inl ErrNotFound, Inl ErrUncommittedPromotion} \<and> gen_at example_half ''acme'' = 0"
proof -
  have "gen_at example_half ''acme'' = 0"
    by (simp add: example_half_def example_staged_facts(5))
  moreover have "fst (GetServedConfig False ''acme'' ''n1'' (example_staged, [])) = Inl ErrNotFound"
    unfolding run_GetServedConfig by (simp add: example_staged_def)
  ultimately show ?thesis
    using promotion_is_all_or_nothing [OF example_staged_facts(1,3) example_interruption] example_staged_facts(5)
    by (auto dest: spec [of _ "''n1''"])
qed

section \<open>Nothing else happens before an interrupted promotion is completed\<close>

lemma wp_rejected:
  assumes "wp m (\<lambda>x d1. x \<noteq> a \<and> d1 = d) (\<lambda>_ d1. d1 = d) d"
  shows "fst (snd (m (d, fs))) = d" "fst (m (d, fs)) \<noteq> Inr a"
  using spec [OF assms [unfolded wp_def], of fs] by (auto split: prod.splits sum.splits)

text \<open>
  Claim C4: while a promotion is unfinished no other operation of the protocol can change the store or
  succeed: staging, replacing and pruning candidates, installing a trust list and bumping the generation
  all report an error and leave every record as it was, whatever the backend does.
\<close>

theorem unfinished_promotion_blocks_staging:
  assumes "stage_inv d t" and "ahead d t"
  shows "fst (snd (StageBundle ctx t b (d, fs))) = d \<and> fst (StageBundle ctx t b (d, fs)) \<noteq> Inr () \<and>
    fst (snd (ReplaceStagedSet ctx t cand (d, fs))) = d \<and>
    fst (ReplaceStagedSet ctx t cand (d, fs)) \<noteq> Inr (purged, None) \<and>
    fst (snd (PruneStagedBundles ctx t keepIDs (d, fs))) = d \<and>
    fst (PruneStagedBundles ctx t keepIDs (d, fs)) \<noteq> Inr (purged, None) \<and>
    fst (snd (PutSignedTrustList ctx t sl (d, fs))) = d \<and> fst (PutSignedTrustList ctx t sl (d, fs)) \<noteq> Inr () \<and>
    fst (snd (BumpGeneration ctx t (d, fs))) = d \<and> fst (BumpGeneration ctx t (d, fs)) \<noteq> Inr g"
proof -
  have "wp (StageBundle ctx t b) (\<lambda>x d1. x \<noteq> () \<and> d1 = d) (\<lambda>_ d1. d1 = d) d"
    by (rule wp_mono [OF wp_StageBundle [OF assms(1)]]) (use assms(2) in \<open>auto simp: staged_ok_def\<close>)
  moreover have "wp (ReplaceStagedSet ctx t cand) (\<lambda>x d1. x \<noteq> (purged, None) \<and> d1 = d) (\<lambda>_ d1. d1 = d) d"
    by (rule wp_mono [OF wp_ReplaceStagedSet [OF assms(1)]]) (use assms(2) in \<open>auto simp: staged_ok_def\<close>)
  moreover have "wp (PruneStagedBundles ctx t keepIDs) (\<lambda>x d1. x \<noteq> (purged, None) \<and> d1 = d) (\<lambda>_ d1. d1 = d) d"
    by (rule wp_mono [OF wp_PruneStagedBundles [OF assms(1)]]) (use assms(2) in \<open>auto simp: staged_ok_def\<close>)
  moreover have "wp (PutSignedTrustList ctx t sl) (\<lambda>x d1. x \<noteq> () \<and> d1 = d) (\<lambda>_ d1. d1 = d) d"
    by (rule wp_mono [OF wp_PutSignedTrustList [OF assms(1)]]) (use assms(2) in \<open>auto simp: staged_ok_def\<close>)
  moreover have "wp (BumpGeneration ctx t) (\<lambda>x d1. x \<noteq> g \<and> d1 = d) (\<lambda>_ d1. d1 = d) d"
    by (rule wp_mono [OF wp_BumpGeneration [OF assms(1)]]) (use assms(2) in \<open>auto simp: staged_ok_def\<close>)
  ultimately show ?thesis
    by (simp only: wp_rejected simp_thms)
qed

theorem unfinished_promotion_blocks_staging_witness:
  "fst (snd (BumpGeneration False ''acme'' (example_half, [Pass, FailAfter]))) = example_half \<and>
   fst (StageBundle False ''acme'' example_bundle (example_half, [])) \<noteq> Inr ()"
  using unfinished_promotion_blocks_staging [OF example_half_facts(1,2)] by blast

end
