(* ===== verification/Candidate.thy ===== *)
theory Candidate
  imports Served
begin

text \<open>
  From a candidate configuration to what agents are served: a replacement that reports success has
  sealed exactly the candidate, and the promotion that follows publishes exactly that candidate.
\<close>

text \<open>The staged records of a candidate.\<close>

definition holds_bundles :: "string \<Rightarrow> signed_bundle set \<Rightarrow> db \<Rightarrow> bool" where
  "holds_bundles t X d \<longleftrightarrow> (\<forall>b \<in> X. rec_at d t CollStaged (bNodeID b) = Some (VBundle b))"

text \<open>What a successful replacement leaves: the seal of the candidate, its bundles and its trust list.\<close>

definition candidate_published :: "string \<Rightarrow> int \<Rightarrow> signed_bundle list \<Rightarrow> stored_trust_list option \<Rightarrow> db \<Rightarrow> bool" where
  "candidate_published t g bs tlo d \<longleftrightarrow> gen_at d t + 1 = g \<and> holds_bundles t (set bs) d \<and>
     rec_at d t CollStagedSeal [] = Some (VSeal (candidate_seal g (map bNodeID bs) tlo)) \<and>
     rec_at d t CollStagedTL [] = map_option VTrustList tlo"

text \<open>The state between the deletion of the old seal and the last phase.\<close>

definition unsealed :: "string \<Rightarrow> db \<Rightarrow> db \<Rightarrow> bool" where
  "unsealed t d d1 \<longleftrightarrow> rec_at d1 t CollStagedSeal [] = None \<and> bundle_recs d1 t CollStaged \<and> gen_at d1 t = gen_at d t"

section \<open>The phases of a replacement\<close>

lemma wp_hold_bundles:
  assumes "holds_bundles t X d" and "distinct (map bNodeID bs)" and "bNodeID ` X \<inter> bNodeID ` set bs = {}"
  shows "wp (forM bs (\<lambda>b. saveJSON VBundle t CollStaged (bNodeID b) b))
    (\<lambda>_. holds_bundles t (X \<union> set bs)) (\<lambda>_ _. True) d"
  using assms
proof (induction bs arbitrary: X d)
  case Nil
  then show ?case by simp
next
  case (Cons b bs)
  let ?d = "put_rec t CollStaged (bNodeID b) (VBundle b) d"
  have "holds_bundles t (insert b X) ?d"
    using Cons.prems unfolding holds_bundles_def by (auto simp: image_iff)
  moreover have "bNodeID ` insert b X \<inter> bNodeID ` set bs = {}"
    using Cons.prems by auto
  ultimately show ?case
    using Cons.IH [of "insert b X" ?d] Cons.prems(2) by simp
qed

lemma wp_prune_holds:
  assumes "holds_bundles t X d" and "bNodeID ` X \<subseteq> keep" and "I d" and "\<And>k d. I d \<Longrightarrow> I (del_rec t CollStaged k d)"
  shows "wp (prune_staged t keep recs purged) (\<lambda>_ d1. holds_bundles t X d1 \<and> I d1) (\<lambda>_ _. True) d"
  using assms
proof (induction t keep recs purged arbitrary: d rule: prune_staged.induct)
  case (2 t keep key v recs purged)
  show ?case
  proof (cases "key \<in> keep")
    case True
    then show ?thesis using 2 by simp
  next
    case False
    have h: "holds_bundles t X (del_rec t CollStaged key d)"
      using "2.prems"(1,2) False unfolding holds_bundles_def by auto
    have "wp (attempt (kv_del t CollStaged key))
        (\<lambda>r. wp (case r of Inl e \<Rightarrow> ret (purged, Some e) | Inr _ \<Rightarrow> prune_staged t keep recs (purged @ [key]))
          (\<lambda>_ d1. holds_bundles t X d1 \<and> I d1) (\<lambda>_ _. True)) (\<lambda>_ _. True) d"
      using h "2.prems" "2.IH"(2) [OF False h "2.prems"(2)] by simp
    then show ?thesis using False by (simp add: wp_bindM)
  qed
qed simp

lemma wp_sealCandidate_exact:
  assumes "rec_at d t CollStagedSeal [] = None" and "bundle_recs d t CollStaged"
  shows "wp (sealCandidate t g expected tlo)
    (\<lambda>_ d1. rec_at d1 t CollStagedSeal [] = Some (VSeal (candidate_seal g expected tlo))) (\<lambda>_ _. True) d"
proof -
  have seal: "wp (saveSealForGenerationLocked t g tlo False)
      (\<lambda>_ d1. rec_at d1 t CollStagedSeal [] = None \<or>
         (\<exists>ids. rec_at d1 t CollStagedSeal [] = Some (VSeal (candidate_seal g ids tlo)))) (\<lambda>_ _. True) d"
    unfolding saveSealForGenerationLocked_def
    by (rule wp_bindM, rule wp_mono [OF wp_stagedBundles [OF assms(2)]]) (use assms(1) in auto)
  have ids: "sealNodeIDs (candidate_seal g ids tlo) = ids" for ids
    by (simp add: candidate_seal_def split: option.splits)
  show ?thesis
    unfolding sealCandidate_def
    by (rule wp_bindM, rule wp_mono [OF seal])
      (auto intro!: wp_bindM wp_loadSealLocked wp_ignoring simp: ids)
qed

lemma wp_replaceTrustList_exact:
  assumes "bs \<noteq> []"
  shows "wp (replaceTrustList t (bs = []) tlo)
    (\<lambda>_ d1. rec_at d1 t CollStagedTL [] = map_option VTrustList tlo \<and>
       (\<forall>c. c \<noteq> CollStagedTL \<and> c \<noteq> CollStagedTLHist \<longrightarrow> rec_at d1 t c = rec_at d t c) \<and> gen_at d1 t = gen_at d t)
    (\<lambda>_ _. True) d"
  using assms by (cases tlo) (simp_all add: replaceTrustList_def)

text \<open>The seal is the only record the last phase writes after the trust list.\<close>

lemma wp_sealCandidate_frame:
  "wp (sealCandidate t g expected tlo)
    (\<lambda>_ d1. (\<forall>c. c \<noteq> CollStagedSeal \<longrightarrow> rec_at d1 t c = rec_at d t c) \<and> gen_at d1 t = gen_at d t)
    (\<lambda>_ _. True) d"
proof -
  have "confined t {RColl CollStagedSeal} (sealCandidate t g expected tlo)"
    unfolding sealCandidate_def by (auto intro!: frame)
  from confined_wp [OF this, of d] show ?thesis
    by (rule wp_mono) (auto simp: unchanged_rec_at unchanged_gen_at)
qed

lemma wp_finishReplacement_exact:
  assumes "bs \<noteq> []" and "rec_at d t CollStagedSeal [] = None" and "bundle_recs d t CollStaged"
    and "holds_bundles t (set bs) d" and "gen_at d t + 1 = g"
  shows "wp (finishReplacement t g bs tlo cur) (\<lambda>_. candidate_published t g bs tlo) (\<lambda>_ _. True) d"
  unfolding finishReplacement_def
proof (rule wp_bindM, rule wp_mono [OF wp_replaceTrustList_exact [OF assms(1)]])
  fix d1
  assume d1: "rec_at d1 t CollStagedTL [] = map_option VTrustList tlo \<and>
    (\<forall>c. c \<noteq> CollStagedTL \<and> c \<noteq> CollStagedTLHist \<longrightarrow> rec_at d1 t c = rec_at d t c) \<and> gen_at d1 t = gen_at d t"
  then have "rec_at d1 t CollStagedSeal [] = None" "bundle_recs d1 t CollStaged"
    using assms(2,3) by (simp_all add: bundle_recs_def)
  from wp_conj [OF wp_sealCandidate_exact [OF this] wp_sealCandidate_frame]
  have "wp (sealCandidate t g (map bNodeID bs) tlo) (\<lambda>_. candidate_published t g bs tlo) (\<lambda>_ _. True) d1"
    by (rule wp_mono) (use d1 assms(4,5) in \<open>auto simp: candidate_published_def holds_bundles_def\<close>)
  then show "wp (if bs = [] then sealEmptySet t cur else sealCandidate t g (map bNodeID bs) tlo)
      (\<lambda>_. candidate_published t g bs tlo) (\<lambda>_ _. True) d1"
    using assms(1) by simp
qed simp

lemma unsealed_prune: "unsealed t d d1 \<Longrightarrow> unsealed t d (del_rec t CollStaged k d1)"
  by (simp add: unsealed_def bundle_recs_def)

lemma wp_prepareReplacement_exact:
  assumes inv: "stage_inv d t" and ids: "\<forall>b \<in> set bs. bNodeID b \<noteq> []" and dist: "distinct (map bNodeID bs)"
    and ne: "bs \<noteq> []"
  shows "wp (prepareReplacement t g bs)
    (\<lambda>(cur, recs) d1. g = gen_at d t + 1 \<and> unsealed t d d1 \<and> holds_bundles t (set bs) d1) (\<lambda>_ _. True) d"
proof -
  let ?d = "del_rec t CollStagedSeal [] d"
  have u: "wp (forM bs (\<lambda>b. saveJSON VBundle t CollStaged (bNodeID b) b)) (\<lambda>_. unsealed t d) (\<lambda>_ _. True) ?d"
    by (rule wp_forM_inv) (use inv_bundle_recs(1) [OF inv] ids in \<open>auto simp: unsealed_def bundle_recs_def\<close>)
  have h: "wp (forM bs (\<lambda>b. saveJSON VBundle t CollStaged (bNodeID b) b)) (\<lambda>_. holds_bundles t ({} \<union> set bs)) (\<lambda>_ _. True) ?d"
    by (rule wp_hold_bundles) (simp_all add: holds_bundles_def dist)
  have loop: "wp (forM bs (\<lambda>b. saveJSON VBundle t CollStaged (bNodeID b) b))
      (\<lambda>_ d1. unsealed t d d1 \<and> holds_bundles t (set bs) d1) (\<lambda>_ _. True) ?d"
    by (rule wp_mono [OF wp_conj [OF u h]]) auto
  have rest: "wp (bindM (forM bs (\<lambda>b. saveJSON VBundle t CollStaged (bNodeID b) b)) (\<lambda>_.
        bindM (kv_list t CollStaged) (\<lambda>recs. ret (gen_at d t, recs))))
      (\<lambda>(cur, recs) d1. unsealed t d d1 \<and> holds_bundles t (set bs) d1) (\<lambda>_ _. True) ?d"
    by (rule wp_bindM, rule wp_mono [OF loop]) auto
  show ?thesis
    unfolding prepareReplacement_def using inv ne
    by (auto intro!: wp_after_require wp_mono [OF rest])
qed

lemma wp_ReplaceStagedSet_exact:
  assumes inv: "stage_inv d t" and ne: "ssBundles cand \<noteq> []"
  shows "wp (ReplaceStagedSet ctx t cand)
    (\<lambda>(purged, failed) d1. failed = None \<longrightarrow> gen_at d1 t = gen_at d t \<and> candidate_published t (ssGeneration cand)
       (map as_staged (sort_key bNodeID (ssBundles cand))) (ssTrustList cand) d1) (\<lambda>_ _. True) d"
  (is "wp _ ?Q _ _")
proof (cases "ctx \<or> ssGeneration cand \<le> 0 \<or>
    check_candidate (ssGeneration cand) (sort_key bNodeID (ssBundles cand)) {} \<noteq> None")
  case True
  then show ?thesis
    using ne by (auto simp: ReplaceStagedSet_def Let_def split: option.splits)
next
  case False
  let ?bs = "map as_staged (sort_key bNodeID (ssBundles cand))"
  have eq: "ReplaceStagedSet ctx t cand =
      bindM (attempt (prepareReplacement t (ssGeneration cand) ?bs)) (\<lambda>r.
        case r of
          Inl e \<Rightarrow> ret ([], Some e)
        | Inr (cur, recs) \<Rightarrow> pruneThen t (set (map bNodeID ?bs)) recs
            (finishReplacement t (ssGeneration cand) ?bs (ssTrustList cand) cur))"
    using False ne by (auto simp: ReplaceStagedSet_def Let_def)
  have ids: "\<forall>b \<in> set ?bs. bNodeID b \<noteq> []" and dist: "distinct (map bNodeID ?bs)"
    using False by (auto simp: check_candidate_spec comp_def)
  have ne': "?bs \<noteq> []" using ne by (metis length_0_conv length_map length_sort)
  have prune: "wp (pruneThen t (set (map bNodeID ?bs)) recs
      (finishReplacement t (ssGeneration cand) ?bs (ssTrustList cand) cur)) ?Q (\<lambda>_ _. True) d1"
    if g: "ssGeneration cand = gen_at d t + 1" and u: "unsealed t d d1" and h: "holds_bundles t (set ?bs) d1" for cur recs d1
    unfolding pruneThen_def
  proof (rule wp_bindM, rule wp_mono [OF wp_prune_holds [OF h _ u unsealed_prune]])
    fix r d2
    assume d2: "holds_bundles t (set ?bs) d2 \<and> unsealed t d d2"
    then have fin: "wp (finishReplacement t (ssGeneration cand) ?bs (ssTrustList cand) cur)
        (\<lambda>_. candidate_published t (ssGeneration cand) ?bs (ssTrustList cand)) (\<lambda>_ _. True) d2"
      using g by (intro wp_finishReplacement_exact [OF ne']) (auto simp: unsealed_def)
    have "wp (attempt (finishReplacement t (ssGeneration cand) ?bs (ssTrustList cand) cur))
        (\<lambda>r d3. r = Inr () \<longrightarrow> gen_at d3 t = gen_at d t \<and> candidate_published t (ssGeneration cand) ?bs (ssTrustList cand) d3)
        (\<lambda>_ _. True) d2"
      unfolding wp_attempt by (rule wp_mono [OF fin]) (use g in \<open>auto simp: candidate_published_def\<close>)
    then show "wp (case r of (purged, failed) \<Rightarrow> (case failed of Some e \<Rightarrow> ret (sort purged, Some e)
        | None \<Rightarrow> bindM (attempt (finishReplacement t (ssGeneration cand) ?bs (ssTrustList cand) cur))
            (\<lambda>r. ret (sort purged, case r of Inl e \<Rightarrow> Some e | Inr _ \<Rightarrow> None)))) ?Q (\<lambda>_ _. True) d2"
      by (cases r; cases "snd r") (auto simp del: wp_attempt intro!: wp_bindM elim!: wp_mono split: sum.splits)
  qed auto
  show ?thesis
    unfolding eq
  proof (rule wp_bindM, unfold wp_attempt, rule wp_mono [OF wp_prepareReplacement_exact [OF inv ids dist ne', of "ssGeneration cand"]])
    fix r :: "int \<times> (string \<times> kvval) list" and d1
    assume r: "(case r of (cur, recs) \<Rightarrow> \<lambda>d1. ssGeneration cand = gen_at d t + 1 \<and> unsealed t d d1 \<and>
      holds_bundles t (set ?bs) d1) d1"
    obtain cur recs where "r = (cur, recs)" by (cases r)
    with r show "wp (case Inr r of Inl e \<Rightarrow> ret ([], Some e)
        | Inr (cur, recs) \<Rightarrow> pruneThen t (set (map bNodeID ?bs)) recs
            (finishReplacement t (ssGeneration cand) ?bs (ssTrustList cand) cur)) ?Q (\<lambda>_ _. True) d1"
      using prune [of d1 recs cur] by (simp only: sum.case prod.case)
  qed auto
qed

section \<open>The published candidate\<close>

lemma map_key_inj:
  "map f xs = map f ys \<Longrightarrow> (\<And>x y. x \<in> set xs \<Longrightarrow> y \<in> set ys \<Longrightarrow> f x = f y \<Longrightarrow> x = y) \<Longrightarrow> xs = ys"
proof (induction xs arbitrary: ys)
  case (Cons x xs)
  then show ?case by (cases ys) auto
qed simp

lemma candidate_published_staged:
  assumes "candidate_published t g bs tlo d" and inv: "stage_inv d t"
  shows "live_seal d t (candidate_seal g (map bNodeID bs) tlo)" "staged_at d t g = bs"
proof -
  have ids: "sealNodeIDs (candidate_seal g (map bNodeID bs) tlo) = map bNodeID bs"
    by (simp add: candidate_seal_def split: option.splits)
  show live: "live_seal d t (candidate_seal g (map bNodeID bs) tlo)"
    using assms(1) by (auto simp: candidate_published_def live_seal_def candidate_seal_def split: option.splits)
  have "map bNodeID (staged_at d t g) = map bNodeID bs"
    using inv_live_seal(1) [OF inv live] assms(1) by (simp add: ids candidate_published_def)
  then show "staged_at d t g = bs"
  proof (rule map_key_inj)
    fix x y
    assume "x \<in> set (staged_at d t g)" "y \<in> set bs" "bNodeID x = bNodeID y"
    then show "x = y"
      using assms(1) set_staged_at [OF inv_bundle_recs(1) [OF inv]]
      by (auto simp: candidate_published_def holds_bundles_def)
  qed
qed

lemma as_current_as_staged [simp]: "as_current (as_staged b) = as_current b"
  by (simp add: as_current_def as_staged_def)

text \<open>
  Claim C3: what an operator stages is what agents get.  After a replacement of the staged set that
  reported success and a promotion that reported success, under any backend faults in between, every
  bundle of the candidate is the current bundle of its node and every other node keeps the bundle it
  had; the candidate's signed trust list is served, tagged with the generation, and if the candidate
  brought none the served list is untouched.
\<close>

theorem staged_candidate_is_what_is_promoted:
  assumes "stage_inv d t" and "ssBundles cand \<noteq> []"
    and "ReplaceStagedSet ctx t cand (d, fs) = (Inr (purged, None), (d1, fs1))"
    and "PromoteStaged ctx' t (d1, fs') = (Inr g, (d2, fs2))"
  shows "g = ssGeneration cand \<and> gen_at d2 t = g \<and>
    (\<forall>b \<in> set (ssBundles cand). rec_at d2 t CollCurrent (bNodeID b) = Some (VBundle (as_current b))) \<and>
    (\<forall>k. k \<notin> bNodeID ` set (ssBundles cand) \<longrightarrow> rec_at d2 t CollCurrent k = rec_at d t CollCurrent k) \<and>
    rec_at d2 t CollServedTL [] =
      (case ssTrustList cand of
         Some sl \<Rightarrow> (if tlSignatureJSON sl \<noteq> [] then Some (VTrustList (sl\<lparr>tlPromotedGeneration := g\<rparr>))
                     else rec_at d t CollServedTL [])
       | None \<Rightarrow> rec_at d t CollServedTL [])"
proof -
  let ?bs = "map as_staged (sort_key bNodeID (ssBundles cand))"
  let ?s = "candidate_seal (ssGeneration cand) (map bNodeID ?bs) (ssTrustList cand)"
  have pub: "candidate_published t (ssGeneration cand) ?bs (ssTrustList cand) d1"
    using wp_value [OF wp_ReplaceStagedSet_exact [OF assms(1,2)] assms(3)] by simp
  have inv1: "stage_inv d1 t"
    using wp_value [OF wp_ReplaceStagedSet [OF assms(1)] assms(3)] by (simp add: staged_ok_def)
  have gen: "gen_at d1 t + 1 = ssGeneration cand" using pub by (simp add: candidate_published_def)
  have frame: "rec_at d1 t CollCurrent = rec_at d t CollCurrent" "rec_at d1 t CollServedTL = rec_at d t CollServedTL"
    using confined_run [OF confined_staging(2) [OF subset_refl] assms(3)]
    by (auto intro!: unchanged_rec_at simp: staging_regions_def)
  note live = candidate_published_staged [OF pub inv1]
  have fin: "promotion_done t d1 g d2"
    by (rule wp_value [OF wp_PromoteStaged [OF inv1] assms(4)])
  then have p: "promoted t d1 ?s d2" and g: "g = ssGeneration cand"
    using live_seal_unique [OF live(1)] gen by (auto simp: promotion_done_def)
  have served: "served_after d1 t ?s = (case ssTrustList cand of
         Some sl \<Rightarrow> (if tlSignatureJSON sl \<noteq> [] then Some (VTrustList (sl\<lparr>tlPromotedGeneration := g\<rparr>))
                     else rec_at d t CollServedTL [])
       | None \<Rightarrow> rec_at d t CollServedTL [])"
    using pub g gen frame
    by (auto simp: served_after_def candidate_published_def candidate_seal_def split: option.splits)
  have ids: "set (sealNodeIDs ?s) = bNodeID ` set (ssBundles cand)"
    by (auto simp: candidate_seal_def split: option.splits)
  show ?thesis
    using p live(2) gen g frame unfolding promoted_def served ids by auto
qed

lemma example_replacement:
  "\<exists>d1. ReplaceStagedSet False ''acme'' \<lparr>ssGeneration = 1, ssBundles = [example_bundle], ssTrustList = None\<rparr> (empty_db, [])
     = (Inr ([], None), (d1, [])) \<and> typed d1"
proof -
  have b: "bNodeID example_bundle = ''n1''" "bGeneration example_bundle = 1" "as_staged example_bundle = example_bundle"
    by (simp_all add: example_bundle_def as_staged_def)
  let ?d = "put_rec ''acme'' CollStaged ''n1'' (VBundle example_bundle) (del_rec ''acme'' CollStagedSeal [] empty_db)"
  have prep: "prepareReplacement ''acme'' 1 [example_bundle] (empty_db, []) = (Inr (0, [(''n1'', VBundle example_bundle)]), (?d, []))"
    by (simp add: prepareReplacement_def requireCompletedPromotionLocked_def b)
  have "finishReplacement ''acme'' 1 [example_bundle] None 0 (?d, []) =
      (Inr (), (put_rec ''acme'' CollStagedSeal [] (VSeal (candidate_seal 1 [''n1''] None)) (del_rec ''acme'' CollStagedTL [] ?d), []))"
    by (simp add: finishReplacement_def replaceTrustList_def sealCandidate_def saveSealForGenerationLocked_def
        stagedBundlesForGenerationLocked_def loadSealLocked_def bindM_def attempt_def candidate_seal_def seal_ok_def b)
  then show ?thesis
    by (simp add: ReplaceStagedSet_def Let_def b run_bindM_value run_attempt prep pruneThen_def typed_empty)
qed

theorem staged_candidate_is_what_is_promoted_witness:
  "\<exists>d1 d2. ReplaceStagedSet False ''acme'' \<lparr>ssGeneration = 1, ssBundles = [example_bundle], ssTrustList = None\<rparr> (empty_db, [])
       = (Inr ([], None), (d1, [])) \<and>
     PromoteStaged False ''acme'' (d1, []) = (Inr 1, (d2, [])) \<and>
     rec_at d2 ''acme'' CollCurrent ''n1'' = Some (VBundle (as_current example_bundle))"
proof -
  let ?cand = "\<lparr>ssGeneration = 1, ssBundles = [example_bundle], ssTrustList = None\<rparr>"
  obtain d1 where d1: "ReplaceStagedSet False ''acme'' ?cand (empty_db, []) = (Inr ([], None), (d1, []))" "typed d1"
    using example_replacement by blast
  have inv1: "stage_inv d1 ''acme''"
    using wp_value [OF wp_ReplaceStagedSet [OF stage_inv_empty(1)] d1(1)] by (simp add: staged_ok_def)
  have pub: "gen_at d1 ''acme'' = 0" "candidate_published ''acme'' 1 [as_staged example_bundle] None d1"
    using wp_value [OF wp_ReplaceStagedSet_exact [OF stage_inv_empty(1)] d1(1)] by simp_all
  obtain d2 where d2: "PromoteStaged False ''acme'' (d1, []) = (Inr 1, (d2, []))"
    using run_PromoteStaged [OF inv1 candidate_published_staged(1) [OF pub(2) inv1] _ d1(2)] pub(1)
    by (auto simp: candidate_seal_def)
  have "rec_at d2 ''acme'' CollCurrent (bNodeID example_bundle) = Some (VBundle (as_current example_bundle))"
    using staged_candidate_is_what_is_promoted [OF stage_inv_empty(1) _ d1(1) d2] by simp
  with d1(1) d2 show ?thesis by (auto simp: example_bundle_def)
qed

end
