(* ===== verification/Audit_Chain.thy ===== *)
theory Audit_Chain
  imports Go_Strings Frame
begin

text \<open>
  The hash-chained audit log: the chain of \<^verbatim>\<open>internal/controller/audit.go\<close>, the in-memory log of
  \<^verbatim>\<open>memstore.go\<close> and the two store methods over it.  A failing append may have written its entry
  without advancing the tail that the next append chains to, which is what the file backend leaves
  when the line is written and the following sync reports an error.
\<close>

section \<open>The chain\<close>

definition auditRetain :: nat where
  "auditRetain = 10000"

definition auditRotateAt :: nat where
  "auditRotateAt = 12000"

text \<open>The fields of a record, each on a line of its own.\<close>

definition newline :: char where
  "newline = CHR 0x0A"

definition field_lines :: "string list \<Rightarrow> string" where
  "field_lines ls = concat (map (\<lambda>l. l @ [newline]) ls)"

definition canonicalAuditBytes :: "audit_entry \<Rightarrow> string" where
  "canonicalAuditBytes e =
     (if aEventID e = [] then
        field_lines [FormatInt (aSeq e), FormatRFC3339Nano (aTimestamp e), aActor e, aAction e, aNodeID e, aPrevHash e]
      else
        field_lines [''v2'', FormatInt (aSeq e), FormatRFC3339Nano (aTimestamp e), aActor e, aAction e, aNodeID e,
          aEventID e, aPrevHash e])"

definition chainAudit :: "audit_entry \<Rightarrow> string \<Rightarrow> audit_entry" where
  "chainAudit e prevHash =
     (let e' = e\<lparr>aPrevHash := prevHash\<rparr> in e'\<lparr>aHash := sha256_hex (canonicalAuditBytes e')\<rparr>)"

fun verify_from :: "int \<Rightarrow> string \<Rightarrow> audit_entry list \<Rightarrow> int" where
  "verify_from i prev [] = -1"
| "verify_from i prev (e # es) =
     (if aPrevHash e \<noteq> prev then i
      else if aHash (chainAudit e prev) \<noteq> aHash e then i
      else verify_from (i + 1) (aHash e) es)"

definition VerifyAuditChain :: "audit_entry list \<Rightarrow> int" where
  "VerifyAuditChain entries = (case entries of [] \<Rightarrow> -1 | e # _ \<Rightarrow> verify_from 0 (aPrevHash e) entries)"

section \<open>The log of a tenant\<close>

definition empty_log :: mem_audit_log where
  "empty_log = \<lparr>malEntries = [], malNextSeq = 1, malLastHash = []\<rparr>"

definition next_entry :: "mem_audit_log \<Rightarrow> audit_entry \<Rightarrow> audit_entry" where
  "next_entry log e = chainAudit (e\<lparr>aSeq := malNextSeq log\<rparr>) (malLastHash log)"

definition trim_log :: "audit_entry list \<Rightarrow> audit_entry list" where
  "trim_log entries =
     (if auditRotateAt < length entries then drop (length entries - auditRetain) entries else entries)"

definition append_entry :: "mem_audit_log \<Rightarrow> audit_entry \<Rightarrow> audit_entry \<times> mem_audit_log" where
  "append_entry log e =
     (let entry = next_entry log e
      in (entry, \<lparr>malEntries = trim_log (malEntries log @ [entry]), malNextSeq = malNextSeq log + 1,
                  malLastHash = aHash entry\<rparr>))"

text \<open>What a failed append leaves when its line was written: the entry, with the old tail.\<close>

definition append_unacked :: "mem_audit_log \<Rightarrow> audit_entry \<Rightarrow> mem_audit_log" where
  "append_unacked log e = log\<lparr>malEntries := malEntries log @ [next_entry log e]\<rparr>"

definition list_entries :: "mem_audit_log \<Rightarrow> audit_entry list" where
  "list_entries log = sort_key aSeq (malEntries log)"

section \<open>The port and the store methods\<close>

definition set_audit :: "string \<Rightarrow> mem_audit_log \<Rightarrow> db \<Rightarrow> db" where
  "set_audit t log d = d(t := (d t)\<lparr>tdAudit := log\<rparr>)"

definition kv_appendAudit :: "string \<Rightarrow> audit_entry \<Rightarrow> (db, err, audit_entry) io" where
  "kv_appendAudit t e = backend ErrIO
     (\<lambda>d. (fst (append_entry (tdAudit (d t)) e), set_audit t (snd (append_entry (tdAudit (d t)) e)) d))
     (\<lambda>d. set_audit t (append_unacked (tdAudit (d t)) e) d)"

definition kv_listAudit :: "string \<Rightarrow> (db, err, audit_entry list) io" where
  "kv_listAudit t = backend ErrIO (\<lambda>d. (list_entries (tdAudit (d t)), d)) (\<lambda>d. d)"

definition AppendAudit :: "bool \<Rightarrow> string \<Rightarrow> audit_entry \<Rightarrow> (db, err, audit_entry) io" where
  "AppendAudit ctx t e = bindM (ctxErr ctx) (\<lambda>_. kv_appendAudit t e)"

definition ListAudit :: "bool \<Rightarrow> string \<Rightarrow> (db, err, audit_entry list) io" where
  "ListAudit ctx t = bindM (ctxErr ctx) (\<lambda>_. kv_listAudit t)"

section \<open>Specification\<close>

text \<open>The chain condition, without the loop: each entry names the hash of the one before it.\<close>

fun chained :: "string \<Rightarrow> audit_entry list \<Rightarrow> bool" where
  "chained prev [] \<longleftrightarrow> True"
| "chained prev (e # es) \<longleftrightarrow> aPrevHash e = prev \<and> aHash e = sha256_hex (canonicalAuditBytes e) \<and> chained (aHash e) es"

text \<open>What the caller supplies of an entry.\<close>

definition payload :: "audit_entry \<Rightarrow> time \<times> string \<times> string \<times> string \<times> string" where
  "payload e = (aTimestamp e, aActor e, aAction e, aNodeID e, aEventID e)"

definition append_all :: "mem_audit_log \<Rightarrow> audit_entry list \<Rightarrow> mem_audit_log" where
  "append_all log es = foldl (\<lambda>l e. snd (append_entry l e)) log es"

text \<open>\<open>L\<close> is a chain of the most recent of the appended entries \<open>es\<close>, numbered by their position.\<close>

definition recent :: "audit_entry list \<Rightarrow> audit_entry list \<Rightarrow> bool" where
  "recent es L \<longleftrightarrow> length L \<le> length es \<and>
     map payload L = map payload (drop (length es - length L) es) \<and>
     map aSeq L = map int [length es - length L + 1..<length es + 1] \<and> (\<exists>prev. chained prev L)"

text \<open>The log after the appends \<open>es\<close>.\<close>

definition window :: "audit_entry list \<Rightarrow> mem_audit_log \<Rightarrow> bool" where
  "window es log \<longleftrightarrow> recent es (malEntries log) \<and> length (malEntries log) \<le> auditRotateAt \<and>
     min (length es) auditRetain \<le> length (malEntries log) \<and> malNextSeq log = int (length es) + 1 \<and>
     malLastHash log = (if es = [] then [] else aHash (last (malEntries log)))"

section \<open>Verification of the chain\<close>

lemma chainAudit_simps [simp]:
  "aPrevHash (chainAudit e p) = p" "aSeq (chainAudit e p) = aSeq e" "payload (chainAudit e p) = payload e"
  "aHash (chainAudit e p) = sha256_hex (canonicalAuditBytes (e\<lparr>aPrevHash := p\<rparr>))"
  "canonicalAuditBytes (chainAudit e p) = canonicalAuditBytes (e\<lparr>aPrevHash := p\<rparr>)"
  by (simp_all add: chainAudit_def Let_def payload_def canonicalAuditBytes_def)

lemma verify_from_chained: "i \<ge> 0 \<Longrightarrow> verify_from i prev es = -1 \<longleftrightarrow> chained prev es"
proof (induction i prev es rule: verify_from.induct)
  case (2 i prev e es)
  have "e\<lparr>aPrevHash := aPrevHash e\<rparr> = e" by simp
  with 2 show ?case by auto
qed simp

lemma VerifyAuditChain_iff: "VerifyAuditChain es = -1 \<longleftrightarrow> (\<exists>prev. chained prev es)"
  by (cases es) (auto simp: VerifyAuditChain_def verify_from_chained simp del: verify_from.simps)

lemma chained_append: "chained prev (xs @ ys) \<longleftrightarrow> chained prev xs \<and> chained (if xs = [] then prev else aHash (last xs)) ys"
  by (induction xs arbitrary: prev) auto

lemma chained_drop: "chained prev es \<Longrightarrow> \<exists>prev'. chained prev' (drop n es)"
proof (induction n arbitrary: prev es)
  case (Suc n)
  then show ?case by (cases es) auto
qed auto

section \<open>Appending\<close>

lemma payload_next [simp]: "payload (next_entry log e) = payload e" "aSeq (next_entry log e) = malNextSeq log"
  by (simp_all add: next_entry_def) (simp add: payload_def)

lemma recent_drop: "recent es L \<Longrightarrow> recent es (drop k L)"
proof (cases "k \<le> length L")
  case True
  assume r: "recent es L"
  then have len: "length L \<le> length es" by (simp add: recent_def)
  have "length es - length (drop k L) = length es - length L + k"
    using True len by simp
  moreover have "map payload (drop k L) = drop k (map payload (drop (length es - length L) es))"
    using r by (metis drop_map recent_def)
  moreover have "map aSeq (drop k L) = drop k (map int [length es - length L + 1..<length es + 1])"
    using r by (metis drop_map recent_def)
  ultimately show ?thesis
    using r chained_drop [of _ L k] by (auto simp: recent_def drop_map add.commute)
next
  case False
  then show ?thesis by (auto simp: recent_def)
qed

lemma recent_snoc:
  assumes r: "recent es L" and seq: "malNextSeq log = int (length es) + 1"
    and tail: "L \<noteq> [] \<Longrightarrow> malLastHash log = aHash (last L)"
  shows "recent (es @ [e]) (L @ [next_entry log e])"
proof -
  have len: "length L \<le> length es" using r by (simp add: recent_def)
  have "\<exists>prev. chained prev (L @ [next_entry log e])"
  proof (cases "L = []")
    case True
    then show ?thesis by (simp add: next_entry_def)
  next
    case False
    then show ?thesis using r tail by (auto simp: recent_def chained_append next_entry_def)
  qed
  moreover have "map int [length es - length L + 1..<length es + 1] @ [int (length es) + 1]
      = map int [length es - length L + 1..<length es + 2]"
    by simp
  ultimately show ?thesis
    using r len seq by (simp add: recent_def)
qed

lemma window_empty: "window [] empty_log"
  by (simp add: window_def recent_def empty_log_def auditRetain_def auditRotateAt_def)

lemma window_append:
  assumes w: "window es log"
  shows "window (es @ [e]) (snd (append_entry log e))"
proof -
  let ?L = "malEntries log @ [next_entry log e]"
  have nonempty: "malEntries log \<noteq> [] \<Longrightarrow> es \<noteq> []"
    using w by (auto simp: window_def recent_def)
  have r: "recent (es @ [e]) ?L"
    by (rule recent_snoc) (use w nonempty in \<open>auto simp: window_def\<close>)
  then have "recent (es @ [e]) (trim_log ?L)"
    by (simp add: trim_log_def recent_drop del: drop_append)
  moreover have "length (trim_log ?L) \<le> auditRotateAt" "min (Suc (length es)) auditRetain \<le> length (trim_log ?L)"
    "trim_log ?L \<noteq> [] \<and> last (trim_log ?L) = next_entry log e"
    using w by (auto simp: trim_log_def window_def auditRetain_def auditRotateAt_def)
  ultimately show ?thesis
    using w by (simp add: window_def append_entry_def Let_def)
qed

lemma window_append_all: "window es log \<Longrightarrow> window (es @ es') (append_all log es')"
proof (induction es' arbitrary: es log)
  case (Cons e es')
  from Cons.IH [OF window_append [OF Cons.prems, of e]] show ?case
    by (simp add: append_all_def)
qed (simp add: append_all_def)

lemma sorted_window: "window es log \<Longrightarrow> list_entries log = malEntries log"
proof -
  assume "window es log"
  then have "map aSeq (malEntries log) = map int [length es - length (malEntries log) + 1..<length es + 1]"
    by (simp add: window_def recent_def del: upt_Suc)
  moreover have "sorted (map int [i..<j])" for i j by (simp add: sorted_map)
  ultimately show ?thesis
    unfolding list_entries_def by (metis sort_key_id_if_sorted)
qed

text \<open>
  Claim C16: after any sequence of appends the log a reader gets verifies from its first entry on, is
  never longer than the rotation mark, and consists of exactly the most recent entries that were
  appended, at least the retained number of them (or all when fewer were appended), unchanged in
  everything the caller supplied and numbered consecutively by their position in the whole history.
\<close>

theorem audit_log_is_a_verified_window:
  "let out = list_entries (append_all empty_log es); n = length out
   in VerifyAuditChain out = -1 \<and> n \<le> auditRotateAt \<and> min (length es) auditRetain \<le> n \<and> n \<le> length es \<and>
      map payload out = map payload (drop (length es - n) es) \<and>
      map aSeq out = map int [length es - n + 1..<length es + 1]"
proof -
  have w: "window es (append_all empty_log es)"
    using window_append_all [OF window_empty, of es] by simp
  then show ?thesis
    using sorted_window [OF w] by (simp add: Let_def window_def recent_def VerifyAuditChain_iff)
qed

section \<open>Tampering\<close>

lemma last_line:
  assumes "xs @ p @ [newline] = ys @ q @ [newline]" and "xs = [] \<or> last xs = newline" "ys = [] \<or> last ys = newline"
    and "newline \<notin> set p" "newline \<notin> set q"
  shows "p = q"
proof -
  have "xs @ p = ys @ q" using assms(1) by (metis append_assoc append_same_eq)
  moreover have "takeWhile (\<lambda>c. c \<noteq> newline) (rev (xs @ p)) = rev p" if "newline \<notin> set p" "xs = [] \<or> last xs = newline" for xs p
    using that by (cases xs rule: rev_cases) (auto simp: takeWhile_tail takeWhile_eq_all_conv)
  ultimately show ?thesis using assms(2-5) by (metis rev_rev_ident)
qed

lemma hex_no_newline: "newline \<notin> set (sha256_hex x)"
proof -
  have "hex_digit n \<noteq> newline" for n
  proof -
    have "n mod 16 < length ''0123456789abcdef''" by simp
    then have "hex_digit n \<in> set ''0123456789abcdef''" unfolding hex_digit_def by (rule nth_mem)
    then show ?thesis by (auto simp: newline_def)
  qed
  then show ?thesis by (auto simp: sha256_hex_def hex_encode_def) metis+
qed

lemma canonical_split:
  "\<exists>pre. canonicalAuditBytes e = pre @ aPrevHash e @ [newline] \<and> last pre = newline"
proof (cases "aEventID e = []")
  case True
  show ?thesis
    by (rule exI [of _ "field_lines [FormatInt (aSeq e), FormatRFC3339Nano (aTimestamp e), aActor e, aAction e, aNodeID e]"])
      (simp add: canonicalAuditBytes_def field_lines_def True)
next
  case False
  show ?thesis
    by (rule exI [of _ "field_lines [''v2'', FormatInt (aSeq e), FormatRFC3339Nano (aTimestamp e), aActor e, aAction e,
        aNodeID e, aEventID e]"]) (simp add: canonicalAuditBytes_def field_lines_def False)
qed

lemma canonical_prev:
  assumes "canonicalAuditBytes e = canonicalAuditBytes e'"
    and "newline \<notin> set (aPrevHash e)" "newline \<notin> set (aPrevHash e')"
  shows "aPrevHash e = aPrevHash e'"
proof -
  obtain x y where xy: "canonicalAuditBytes e = x @ aPrevHash e @ [newline]" "last x = newline"
    "canonicalAuditBytes e' = y @ aPrevHash e' @ [newline]" "last y = newline"
    using canonical_split by metis
  show ?thesis
    by (rule last_line [of x _ y]) (use xy assms in auto)
qed

lemma chained_hash: "chained p es \<Longrightarrow> e \<in> set es \<Longrightarrow> aHash e = sha256_hex (canonicalAuditBytes e)"
  by (induction es arbitrary: p) auto

lemma chained_agree:
  assumes "chained p es" "chained q fs" "es \<noteq> []" "fs \<noteq> []" "aHash (last es) = aHash (last fs)"
    and "newline \<notin> set p" "newline \<notin> set q"
    and "\<And>e f. e \<in> set es \<Longrightarrow> f \<in> set fs \<Longrightarrow> sha256_hex (canonicalAuditBytes e) = sha256_hex (canonicalAuditBytes f)
          \<Longrightarrow> canonicalAuditBytes e = canonicalAuditBytes f"
    and "i < min (length es) (length fs)"
  shows "canonicalAuditBytes (rev es ! i) = canonicalAuditBytes (rev fs ! i)"
  using assms
proof (induction es arbitrary: fs i rule: rev_induct)
  case (snoc e es)
  obtain f gs where fs: "fs = gs @ [f]" using snoc.prems(4) by (cases fs rule: rev_cases) auto
  have eq: "canonicalAuditBytes e = canonicalAuditBytes f"
    using snoc.prems(1,2,5,8) fs by (simp add: chained_append)
  show ?case
  proof (cases i)
    case 0
    then show ?thesis using eq fs by simp
  next
    case (Suc j)
    then have ne: "es \<noteq> []" "gs \<noteq> []" and j: "j < min (length es) (length gs)"
      using snoc.prems(9) fs by auto
    have prevs: "aPrevHash e = aHash (last es)" "aPrevHash f = aHash (last gs)"
      using snoc.prems(1,2) fs ne by (simp_all add: chained_append)
    moreover have "aHash (last es) = sha256_hex (canonicalAuditBytes (last es))"
      "aHash (last gs) = sha256_hex (canonicalAuditBytes (last gs))"
      using snoc.prems(1,2) fs ne chained_hash [of p es "last es"] chained_hash [of q gs "last gs"]
      by (simp_all add: chained_append)
    ultimately have "aHash (last es) = aHash (last gs)"
      using canonical_prev [OF eq] by (simp add: hex_no_newline)
    then have "canonicalAuditBytes (rev es ! j) = canonicalAuditBytes (rev gs ! j)"
      using snoc.prems fs ne j by (intro snoc.IH) (auto simp: chained_append)
    then show ?thesis using Suc fs by simp
  qed
qed simp

text \<open>
  Claim C17: two logs that both verify and end in the same hash are the same log, back to where the
  shorter one starts, unless they exhibit a SHA-256 collision.  So whoever remembers only the last hash
  detects every change of the content, order or number of the entries after the first retained one.
\<close>

theorem audit_chain_is_tamper_evident:
  assumes "VerifyAuditChain es = -1" and "VerifyAuditChain fs = -1" and "es \<noteq> []" and "fs \<noteq> []"
    and "aHash (last es) = aHash (last fs)"
    and "newline \<notin> set (aPrevHash (hd es))" and "newline \<notin> set (aPrevHash (hd fs))"
  shows "(\<exists>e \<in> set es. \<exists>f \<in> set fs. canonicalAuditBytes e \<noteq> canonicalAuditBytes f \<and>
            sha256_hex (canonicalAuditBytes e) = sha256_hex (canonicalAuditBytes f)) \<or>
    (\<forall>i < min (length es) (length fs). canonicalAuditBytes (rev es ! i) = canonicalAuditBytes (rev fs ! i) \<and>
       aHash (rev es ! i) = aHash (rev fs ! i))"
proof -
  have ch: "chained (aPrevHash (hd es)) es" "chained (aPrevHash (hd fs)) fs"
    using assms(1-4) unfolding VerifyAuditChain_iff by (cases es; cases fs; auto)+
  have hash: "aHash (rev es ! i) = sha256_hex (canonicalAuditBytes (rev es ! i))"
    "aHash (rev fs ! i) = sha256_hex (canonicalAuditBytes (rev fs ! i))" if "i < min (length es) (length fs)" for i
    using that nth_mem [of i "rev es"] nth_mem [of i "rev fs"] chained_hash [OF ch(1)] chained_hash [OF ch(2)]
    by simp_all
  show ?thesis
    using chained_agree [OF ch assms(3,4,5,6,7)] hash by metis
qed

theorem audit_chain_is_tamper_evident_witness:
  "let e = \<lparr>aSeq = 1, aTimestamp = 5, aActor = ''operator:a'', aAction = ''stage'', aNodeID = [], aEventID = [],
         aPrevHash = [], aHash = []\<rparr>;
       e1 = chainAudit e []; e2 = chainAudit (e\<lparr>aSeq := 2\<rparr>) (aHash e1)
   in VerifyAuditChain [e1, e2] = -1 \<and> VerifyAuditChain [e2] = -1 \<and>
      ((\<exists>x \<in> {e1, e2}. canonicalAuditBytes x \<noteq> canonicalAuditBytes e2 \<and>
          sha256_hex (canonicalAuditBytes x) = sha256_hex (canonicalAuditBytes e2)) \<or>
       aHash (rev [e1, e2] ! 0) = aHash (rev [e2] ! 0))"
proof -
  let ?e = "\<lparr>aSeq = 1, aTimestamp = 5, aActor = ''operator:a'', aAction = ''stage'', aNodeID = [], aEventID = [],
         aPrevHash = [], aHash = []\<rparr>"
  let ?e1 = "chainAudit ?e []"
  let ?e2 = "chainAudit (?e\<lparr>aSeq := 2\<rparr>) (aHash ?e1)"
  have "VerifyAuditChain [?e1, ?e2] = -1" "VerifyAuditChain [?e2] = -1"
    by (simp_all add: VerifyAuditChain_iff)
  then show ?thesis
    using audit_chain_is_tamper_evident [of "[?e1, ?e2]" "[?e2]"]
    by (simp add: Let_def hex_no_newline)
qed

section \<open>Footprint of the audit methods\<close>

lemma set_audit_simps [simp]:
  "rec_at (set_audit t log d) = rec_at d" "list_at (set_audit t log d) = list_at d"
  "gen_at (set_audit t log d) = gen_at d" "tdAudit (set_audit t log d t') = (if t' = t then log else tdAudit (d t'))"
  "tdTelemetry (set_audit t log d t') = tdTelemetry (d t')" "tdHistory (set_audit t log d t') = tdHistory (d t')"
  by (auto simp: set_audit_def rec_at_def list_at_def gen_at_def fun_eq_iff)

lemma wp_audit [simp]:
  "wp (AppendAudit ctx t e) Q E d \<longleftrightarrow> (if ctx then E ErrCtx d else
     Q (fst (append_entry (tdAudit (d t)) e)) (set_audit t (snd (append_entry (tdAudit (d t)) e)) d) \<and>
     E ErrIO d \<and> E ErrIO (set_audit t (append_unacked (tdAudit (d t)) e) d))"
  "wp (ListAudit ctx t) Q' E d \<longleftrightarrow> (if ctx then E ErrCtx d else Q' (list_entries (tdAudit (d t))) d \<and> E ErrIO d)"
  by (auto simp: AppendAudit_def ListAudit_def kv_appendAudit_def kv_listAudit_def)

lemma wp_bindM_audit [simp]:
  "wp (bindM (AppendAudit ctx t e) k) Q E d \<longleftrightarrow> (if ctx then E ErrCtx d else
     wp (k (fst (append_entry (tdAudit (d t)) e))) Q E (set_audit t (snd (append_entry (tdAudit (d t)) e)) d) \<and>
     E ErrIO d \<and> E ErrIO (set_audit t (append_unacked (tdAudit (d t)) e) d))"
  "wp (bindM (ListAudit ctx t) k') Q E d \<longleftrightarrow> (if ctx then E ErrCtx d else
     wp (k' (list_entries (tdAudit (d t)))) Q E d \<and> E ErrIO d)"
  by (auto simp: AppendAudit_def ListAudit_def kv_appendAudit_def kv_listAudit_def)

lemma run_audit [simp]:
  "AppendAudit False t e (d, []) = (Inr (fst (append_entry (tdAudit (d t)) e)),
     (set_audit t (snd (append_entry (tdAudit (d t)) e)) d, []))"
  "ListAudit False t (d, []) = (Inr (list_entries (tdAudit (d t))), (d, []))"
  "bindM (AppendAudit False t e) k (d, []) = k (fst (append_entry (tdAudit (d t)) e))
     (set_audit t (snd (append_entry (tdAudit (d t)) e)) d, [])"
  "bindM (ListAudit False t) k' (d, []) = k' (list_entries (tdAudit (d t))) (d, [])"
  by (simp_all add: AppendAudit_def ListAudit_def kv_appendAudit_def kv_listAudit_def)

lemma unchanged_set_audit: "RAudit \<in> R \<Longrightarrow> unchanged t R d (set_audit t log d)"
  by (auto simp: unchanged_def set_audit_def)

lemma confined_audit [frame]:
  "RAudit \<in> R \<Longrightarrow> confined t R (AppendAudit ctx t e)"
  "confined t R (ListAudit ctx t)"
  by (simp_all add: confined_def unchanged_set_audit)

lemma own_audit [frame]: "own t (AppendAudit ctx t e)" "own t (ListAudit ctx t)"
  unfolding AppendAudit_def ListAudit_def kv_appendAudit_def kv_listAudit_def
  by (auto intro!: frame own_backend simp: set_audit_def)

lemma types_audit [typing]: "keeps_types (AppendAudit ctx t e)" "keeps_types (ListAudit ctx t)"
  by (simp_all add: keeps_types_def typed_def)

end
