(* ===== verification/Audit_File.thy ===== *)
theory Audit_File
  imports Audit_Chain
begin

text \<open>
  The file backend's audit log (\<^verbatim>\<open>internal/controller/filestore_audit.go\<close>) for one tenant: a JSONL file
  that is appended to line by line, a legacy array file, and the tail cached in memory.  A file is a
  list of complete lines and possibly some bytes after the last newline; a line either decodes to an
  entry or does not.  Operating-system calls are subject to the fault script like backend calls; a
  write that fails part way leaves a piece of its line.  A restart forgets the cached tail.
\<close>

section \<open>The files\<close>

datatype audit_line = Entry audit_entry | Junk


record auditTail =
  atSeq :: int
  atHash :: string
  atCount :: nat







section \<open>Reading and rewriting the log\<close>

fun parse_lines :: "audit_line list \<Rightarrow> (audit_entry list \<times> bool) option" where
  "parse_lines [] = Some ([], False)"
| "parse_lines [Junk] = Some ([], True)"
| "parse_lines (Junk # l # ls) = None"
| "parse_lines (Entry e # ls) = map_option (\<lambda>(es, torn). (e # es, torn)) (parse_lines ls)"








definition tail_of :: "audit_entry list \<Rightarrow> auditTail" where
  "tail_of es =
     (if es = [] then \<lparr>atSeq = 0, atHash = [], atCount = 0\<rparr>
      else \<lparr>atSeq = aSeq (last es), atHash = aHash (last es), atCount = length es\<rparr>)"




section \<open>Appending and listing\<close>




section \<open>The file holds a log\<close>

text \<open>The file and the cached tail hold the log: the contract both backends share.\<close>

definition tail_matches :: "mem_audit_log \<Rightarrow> bool" where
  "tail_matches log \<longleftrightarrow> malNextSeq log = atSeq (tail_of (malEntries log)) + 1 \<and>
     malLastHash log = atHash (tail_of (malEntries log))"








text \<open>The log a restarted process finds on such a disk.\<close>

definition log_of :: "audit_entry list \<Rightarrow> mem_audit_log" where
  "log_of L = \<lparr>malEntries = L, malNextSeq = atSeq (tail_of L) + 1, malLastHash = atHash (tail_of L)\<rparr>"

section \<open>Fault-free behaviour\<close>

lemma parse_entries [simp]: "parse_lines (map Entry es) = Some (es, False)"
  by (induction es) auto

lemma parse_entries_torn [simp]: "parse_lines (map Entry es @ [Junk]) = Some (es, True)"
  by (induction es) auto




lemma tail_of_count [simp]: "atCount (tail_of es) = length es"
  by (simp add: tail_of_def)













section \<open>Crashes\<close>








lemma tail_matches_log_of [simp]: "tail_matches (log_of L)" "malEntries (log_of L) = L"
  by (simp_all add: log_of_def tail_matches_def)






section \<open>Faults without a restart\<close>




end
