(* ===== verification/Keystone.thy ===== *)
theory Keystone
  imports Store_Core Audit_Chain
begin

text \<open>
  Pinning and rotating the operator credential (\<^verbatim>\<open>internal/controller/keystone_transition.go\<close>).  The
  credential write and its audit record are two store calls; a write-ahead marker holds the intended
  transition until both are done, and every later entry first settles what it finds.  The clock and
  the random bytes of the event identity are arguments.  The functions run under the tenant's
  operation lock, so each is one program over the store.
\<close>

section \<open>The audit identity of a transition\<close>

text \<open>\<^verbatim>\<open>hex.DecodeString\<close> succeeds.\<close>

definition hex_char :: "char \<Rightarrow> bool" where
  "hex_char c \<longleftrightarrow> c \<in> set ''0123456789abcdefABCDEF''"

definition hex_decodable :: "string \<Rightarrow> bool" where
  "hex_decodable s \<longleftrightarrow> even (length s) \<and> list_all hex_char s"

definition newKeystoneAuditEventID :: "nat list option \<Rightarrow> (db, err, string) io" where
  "newKeystoneAuditEventID random =
     (case random of
        None \<Rightarrow> throw (ErrOther ''generating keystone audit event id'')
      | Some bytes \<Rightarrow> ret (hex_encode bytes))"

definition transition_action :: "operator_credential option \<Rightarrow> string" where
  "transition_action expected =
     (if expected \<noteq> None then ''rotate-operator-credential'' else ''pin-operator-credential'')"

definition operator_actor :: "string \<Rightarrow> bool" where
  "operator_actor a \<longleftrightarrow> HasPrefix a ''operator:'' \<and> TrimSpace (TrimPrefix a ''operator:'') \<noteq> []"

definition validateKeystoneTransitionAudit :: "operator_credential option \<Rightarrow> audit_entry option \<Rightarrow> err option" where
  "validateKeystoneTransitionAudit expected audit =
     (case audit of
        None \<Rightarrow> Some ErrKeystoneAuditRequired
      | Some a \<Rightarrow>
          (if aAction a \<noteq> transition_action expected then Some ErrKeystoneAuditRequired
           else if \<not> operator_actor (aActor a) then Some ErrKeystoneAuditRequired
           else if aTimestamp a \<noteq> 0 \<or> aSeq a \<noteq> 0 \<or> aEventID a \<noteq> [] \<or> aPrevHash a \<noteq> [] \<or> aHash a \<noteq> [] \<or>
             aNodeID a \<noteq> [] then Some ErrKeystoneAuditRequired
           else None))"

definition validatePendingKeystoneTransition :: "pending_keystone_transition \<Rightarrow> err option" where
  "validatePendingKeystoneTransition pending =
     (let a = ptAudit pending
      in if length (aEventID a) \<noteq> 32 then Some (ErrOther ''invalid audit identity'')
         else if \<not> hex_decodable (aEventID a) \<or> aTimestamp a = 0 then Some (ErrOther ''invalid audit identity'')
         else if aSeq a \<noteq> 0 \<or> aPrevHash a \<noteq> [] \<or> aHash a \<noteq> [] then Some (ErrOther ''chained audit fields'')
         else if ptExpected pending = Some (ptNext pending) then Some (ErrOther ''no-op transition'')
         else if aAction a \<noteq> transition_action (ptExpected pending) \<or> aNodeID a \<noteq> [] \<or> \<not> operator_actor (aActor a)
           then Some (ErrOther ''invalid audit content'')
         else None)"

section \<open>Looking for the audit record\<close>

definition samePendingKeystoneAudit :: "audit_entry \<Rightarrow> audit_entry \<Rightarrow> bool" where
  "samePendingKeystoneAudit stored want \<longleftrightarrow>
     aTimestamp stored = aTimestamp want \<and> aActor stored = aActor want \<and> aAction stored = aAction want \<and>
     aNodeID stored = aNodeID want \<and> aEventID stored = aEventID want"

fun find_audit :: "audit_entry \<Rightarrow> bool \<Rightarrow> audit_entry list \<Rightarrow> err + bool" where
  "find_audit want found [] = Inr found"
| "find_audit want found (e # es) =
     (if aEventID e \<noteq> aEventID want then find_audit want found es
      else if found then Inl (ErrOther ''duplicate keystone audit event id'')
      else if \<not> samePendingKeystoneAudit e want then Inl (ErrOther ''conflicting keystone audit content'')
      else find_audit want True es)"

definition findPendingKeystoneAudit :: "bool \<Rightarrow> string \<Rightarrow> audit_entry \<Rightarrow> (db, err, bool) io" where
  "findPendingKeystoneAudit ctx t want =
     bindM (ListAudit ctx t) (\<lambda>entries.
       case find_audit want False entries of Inl e \<Rightarrow> throw e | Inr b \<Rightarrow> ret b)"

section \<open>Settling a transition\<close>

text \<open>\<^verbatim>\<open>errors.Is(err, ErrNotFound)\<close> turned into an absent value.\<close>

definition orMissing :: "(db, err, 'a) io \<Rightarrow> (db, err, 'a option) io" where
  "orMissing m = bindM (attempt m) (\<lambda>r.
     case r of Inr x \<Rightarrow> ret (Some x) | Inl e \<Rightarrow> (if e = ErrNotFound then ret None else throw e))"

definition currentKeystoneCredential :: "bool \<Rightarrow> string \<Rightarrow> (db, err, operator_credential option) io" where
  "currentKeystoneCredential ctx t = orMissing (GetOperatorCredential ctx t)"

definition credentialStateMatches :: "operator_credential option \<Rightarrow> operator_credential option \<Rightarrow> bool" where
  "credentialStateMatches current expected =
     (case expected of None \<Rightarrow> current = None | Some e \<Rightarrow> current = Some e)"

text \<open>The audit record is appended when it is not there, and looked for again whatever the append reported.\<close>

definition observeAppend :: "bool \<Rightarrow> string \<Rightarrow> audit_entry \<Rightarrow> (db, err, unit) io" where
  "observeAppend ctx t want =
     bindM (attempt (AppendAudit ctx t want)) (\<lambda>appended.
     bindM (attempt (findPendingKeystoneAudit ctx t want)) (\<lambda>found.
       case found of
         Inl listErr \<Rightarrow> throw (case appended of Inl appendErr \<Rightarrow> appendErr | Inr _ \<Rightarrow> listErr)
       | Inr b \<Rightarrow>
           (if b then ret ()
            else throw (case appended of Inl appendErr \<Rightarrow> appendErr
                        | Inr _ \<Rightarrow> ErrOther ''append was not observable''))))"

definition ensurePendingKeystoneAuditLocked ::
  "bool \<Rightarrow> string \<Rightarrow> pending_keystone_transition \<Rightarrow> (db, err, unit) io" where
  "ensurePendingKeystoneAuditLocked ctx t pending =
     bindM (findPendingKeystoneAudit ctx t (ptAudit pending)) (\<lambda>found.
     bindM (if found then ret () else observeAppend ctx t (ptAudit pending)) (\<lambda>_.
       DeletePendingKeystoneTransition ctx t (aEventID (ptAudit pending))))"

definition reconcilePendingKeystoneTransitionLocked :: "bool \<Rightarrow> string \<Rightarrow> (db, err, unit) io" where
  "reconcilePendingKeystoneTransitionLocked ctx t =
     bindM (orMissing (GetPendingKeystoneTransition ctx t)) (\<lambda>r.
       case r of
         None \<Rightarrow> ret ()
       | Some pending \<Rightarrow>
           (case validatePendingKeystoneTransition pending of
              Some e \<Rightarrow> throw e
            | None \<Rightarrow>
                bindM (currentKeystoneCredential ctx t) (\<lambda>current.
                  if current = Some (ptNext pending) then ensurePendingKeystoneAuditLocked ctx t pending
                  else if credentialStateMatches current (ptExpected pending)
                    then DeletePendingKeystoneTransition ctx t (aEventID (ptAudit pending))
                  else throw ErrPendingKeystoneTransitionConflict)))"

definition reconcileKeystoneTrustBoundaryLocked :: "bool \<Rightarrow> string \<Rightarrow> (db, err, unit) io" where
  "reconcileKeystoneTrustBoundaryLocked ctx t = reconcilePendingKeystoneTransitionLocked ctx t"

section \<open>The entry points\<close>

definition pending_transition ::
  "operator_credential option \<Rightarrow> operator_credential \<Rightarrow> audit_entry \<Rightarrow> time \<Rightarrow> string \<Rightarrow> pending_keystone_transition" where
  "pending_transition expected next audit now eventID =
     \<lparr>ptExpected = expected, ptNext = next,
      ptAudit = audit\<lparr>aSeq := 0, aTimestamp := now, aEventID := eventID, aPrevHash := [], aHash := []\<rparr>\<rparr>"

definition CompareAndSetKeystoneCredential ::
  "nat list option \<Rightarrow> time \<Rightarrow> bool \<Rightarrow> string \<Rightarrow> operator_credential option \<Rightarrow> operator_credential \<Rightarrow>
   audit_entry option \<Rightarrow> (db, err, unit) io" where
  "CompareAndSetKeystoneCredential random now ctx t expected next audit =
     bindM (reconcilePendingKeystoneTransitionLocked ctx t) (\<lambda>_.
       if expected = Some next then
         (if audit \<noteq> None then throw ErrKeystoneAuditRequired
          else CompareAndSetOperatorCredential ctx t expected next)
       else
         (case validateKeystoneTransitionAudit expected audit of
            Some e \<Rightarrow> throw e
          | None \<Rightarrow>
              bindM (currentKeystoneCredential ctx t) (\<lambda>current.
                if \<not> credentialStateMatches current expected then throw ErrOperatorCredentialChanged
                else
                  bindM (newKeystoneAuditEventID random) (\<lambda>eventID.
                  bindM (CreatePendingKeystoneTransition ctx t
                           (pending_transition expected next (the audit) now eventID)) (\<lambda>_.
                  bindM (CompareAndSetOperatorCredential ctx t expected next) (\<lambda>_.
                    reconcilePendingKeystoneTransitionLocked ctx t))))))"

definition GetKeystoneCredential :: "bool \<Rightarrow> string \<Rightarrow> (db, err, operator_credential) io" where
  "GetKeystoneCredential ctx t =
     bindM (reconcilePendingKeystoneTransitionLocked ctx t) (\<lambda>_. GetOperatorCredential ctx t)"

section \<open>Where a transition can stand\<close>

text \<open>The audit records of an event, and the stored credential.\<close>

definition events :: "db \<Rightarrow> string \<Rightarrow> string \<Rightarrow> audit_entry list" where
  "events d t eventID = filter (\<lambda>e. aEventID e = eventID) (malEntries (tdAudit (d t)))"

definition pinned :: "db \<Rightarrow> string \<Rightarrow> operator_credential option \<Rightarrow> bool" where
  "pinned d t cred \<longleftrightarrow> rec_at d t CollOperatorCred [] = map_option VCredential cred"

definition audited :: "db \<Rightarrow> string \<Rightarrow> pending_keystone_transition \<Rightarrow> bool" where
  "audited d t p \<longleftrightarrow> (\<exists>x. events d t (aEventID (ptAudit p)) = [x] \<and> samePendingKeystoneAudit x (ptAudit p))"

text \<open>
  While the marker stands, the credential is the old one and there is no record, or it is the new one
  and there is at most one.  Once the marker is gone, the new credential has exactly one record.
\<close>

definition in_flight :: "pending_keystone_transition \<Rightarrow> db \<Rightarrow> string \<Rightarrow> bool" where
  "in_flight p d t \<longleftrightarrow> validatePendingKeystoneTransition p = None \<and>
     rec_at d t CollKeystoneTransition [] = Some (VTransition p) \<and>
     (pinned d t (ptExpected p) \<and> events d t (aEventID (ptAudit p)) = [] \<or>
      pinned d t (Some (ptNext p)) \<and> (events d t (aEventID (ptAudit p)) = [] \<or> audited d t p))"

definition settled :: "pending_keystone_transition \<Rightarrow> db \<Rightarrow> string \<Rightarrow> bool" where
  "settled p d t \<longleftrightarrow> rec_at d t CollKeystoneTransition [] = None \<and>
     (pinned d t (ptExpected p) \<and> events d t (aEventID (ptAudit p)) = [] \<or>
      pinned d t (Some (ptNext p)) \<and> audited d t p)"

text \<open>A transition stands somewhere, or was never recorded.\<close>

definition standing :: "pending_keystone_transition \<Rightarrow> db \<Rightarrow> string \<Rightarrow> bool" where
  "standing p d t \<longleftrightarrow> in_flight p d t \<or> settled p d t"

text \<open>The log after an append that took effect, acknowledged or not.\<close>

definition appended :: "audit_entry \<Rightarrow> string \<Rightarrow> db \<Rightarrow> db \<Rightarrow> bool" where
  "appended want t d d' \<longleftrightarrow> (\<exists>log. d' = set_audit t log d) \<and>
     (\<exists>x. events d' t (aEventID want) = [x] \<and> samePendingKeystoneAudit x want)"

text \<open>Further attempts to read the credential, each under faults of its own.\<close>

definition read_attempts :: "string \<Rightarrow> (bool \<times> fault list) list \<Rightarrow> db \<Rightarrow> db" where
  "read_attempts t tries d = foldl (\<lambda>d (ctx, fs). fst (snd (GetKeystoneCredential ctx t (d, fs)))) d tries"

text \<open>An example.\<close>

definition example_credential :: operator_credential where
  "example_credential = \<lparr>ocAlg = ''ed25519'', ocCredentialID = [], ocPublicKeyPEM = ''pem'', ocRPID = [], ocOrigin = []\<rparr>"

definition example_pin :: audit_entry where
  "example_pin = \<lparr>aSeq = 0, aTimestamp = 0, aActor = ''operator:a'', aAction = ''pin-operator-credential'', aNodeID = [],
     aEventID = [], aPrevHash = [], aHash = []\<rparr>"

text \<open>The first pinning in an empty store, with a fault in the credential write that still took effect.\<close>

definition example_first_pin :: "(err + unit) \<times> db \<times> fault list" where
  "example_first_pin = CompareAndSetKeystoneCredential (Some (replicate 16 7)) 5 False ''t'' None example_credential
     (Some example_pin) (empty_db, [Pass, Pass, Pass, Pass, Pass, FailAfter])"

section \<open>The search\<close>

lemma find_audit_filter: "find_audit want found es = find_audit want found (filter (\<lambda>e. aEventID e = aEventID want) es)"
  by (induction es arbitrary: found) auto

lemma list_entries_events:
  "filter (\<lambda>e. aEventID e = eventID) (list_entries (tdAudit (d t))) = sort_key aSeq (events d t eventID)"
  by (simp add: list_entries_def events_def filter_sort)

lemma find_audit_absent:
  "events d t (aEventID want) = [] \<Longrightarrow> find_audit want False (list_entries (tdAudit (d t))) = Inr False"
  by (subst find_audit_filter) (simp add: list_entries_events)

lemma find_audit_present:
  "events d t (aEventID want) = [x] \<Longrightarrow> samePendingKeystoneAudit x want \<Longrightarrow>
   find_audit want False (list_entries (tdAudit (d t))) = Inr True"
  by (subst find_audit_filter) (simp add: list_entries_events samePendingKeystoneAudit_def)

lemma events_updates [simp]:
  "events (put_rec t c k v d) t' ev = events d t' ev"
  "events (del_rec t c k d) t' ev = events d t' ev"
  by (simp_all add: events_def)

lemma events_append:
  assumes "events d t (aEventID e) = []"
  shows "events (set_audit t (snd (append_entry (tdAudit (d t)) e)) d) t (aEventID e) = [next_entry (tdAudit (d t)) e]"
    and "events (set_audit t (append_unacked (tdAudit (d t)) e) d) t (aEventID e) = [next_entry (tdAudit (d t)) e]"
proof -
  have ev: "aEventID (next_entry (tdAudit (d t)) e) = aEventID e"
    by (simp add: next_entry_def chainAudit_def Let_def)
  have old: "filter (\<lambda>x. aEventID x = aEventID e) (drop n (malEntries (tdAudit (d t)))) = []" for n
    using assms by (auto simp: events_def filter_empty_conv dest: in_set_dropD)
  show "events (set_audit t (snd (append_entry (tdAudit (d t)) e)) d) t (aEventID e) = [next_entry (tdAudit (d t)) e]"
    using ev old old [of 0]
    by (simp add: events_def set_audit_def append_entry_def Let_def trim_log_def auditRetain_def auditRotateAt_def)
  show "events (set_audit t (append_unacked (tdAudit (d t)) e) d) t (aEventID e) = [next_entry (tdAudit (d t)) e]"
    using ev assms by (simp add: events_def set_audit_def append_unacked_def)
qed

lemma same_next_entry [simp]: "samePendingKeystoneAudit (next_entry log e) e"
  by (simp add: samePendingKeystoneAudit_def next_entry_def chainAudit_def Let_def)


lemma wp_find:
  "wp (findPendingKeystoneAudit ctx t want) Q E d \<longleftrightarrow> (if ctx then E ErrCtx d else E ErrIO d \<and>
     (case find_audit want False (list_entries (tdAudit (d t))) of Inl e \<Rightarrow> E e d | Inr b \<Rightarrow> Q b d))"
  "wp (bindM (findPendingKeystoneAudit ctx t want) k) Q' E d \<longleftrightarrow> (if ctx then E ErrCtx d else E ErrIO d \<and>
     (case find_audit want False (list_entries (tdAudit (d t))) of Inl e \<Rightarrow> E e d | Inr b \<Rightarrow> wp (k b) Q' E d))"
  by (auto simp: findPendingKeystoneAudit_def split: sum.splits)

section \<open>Settling, under every fault script\<close>

lemma orMissing_load:
  "orMissing (bindM (ctxErr ctx) (\<lambda>_. loadJSON dec t c k)) = bindM (ctxErr ctx) (\<lambda>_. loadOpt dec t c k)"
  by (cases ctx) (simp_all add: orMissing_def loadOpt_def)

lemma current_alt:
  "currentKeystoneCredential ctx t = bindM (ctxErr ctx) (\<lambda>_. loadOpt as_credential t CollOperatorCred [])"
  "orMissing (GetPendingKeystoneTransition ctx t)
     = bindM (ctxErr ctx) (\<lambda>_. loadOpt as_transition t CollKeystoneTransition [])"
  by (simp_all add: currentKeystoneCredential_def GetOperatorCredential_def GetPendingKeystoneTransition_def orMissing_load)

lemma wp_observeAppend:
  assumes none: "events d t (aEventID want) = []"
  shows "wp (observeAppend ctx t want) (\<lambda>_. appended want t d) (\<lambda>_ d'. d' = d \<or> appended want t d d') d"
proof -
  let ?a = "set_audit t (snd (append_entry (tdAudit (d t)) want)) d"
  let ?u = "set_audit t (append_unacked (tdAudit (d t)) want) d"
  have ap: "appended want t d ?a" "appended want t d ?u"
    using events_append [OF none] by (auto simp: appended_def)
  have found: "find_audit want False (list_entries (snd (append_entry (tdAudit (d t)) want))) = Inr True"
    "find_audit want False (list_entries (append_unacked (tdAudit (d t)) want)) = Inr True"
    using find_audit_present [OF events_append(1) [OF none] same_next_entry]
      find_audit_present [OF events_append(2) [OF none] same_next_entry] by simp_all
  show ?thesis
    unfolding observeAppend_def
    by (rule wp_bindM)
      (auto intro!: wp_bindM simp: wp_find ap found find_audit_absent [OF none])
qed

lemma wp_delete_marker:
  assumes "rec_at d t CollKeystoneTransition [] = Some (VTransition p)" and "aEventID (ptAudit p) \<noteq> []"
  shows "wp (DeletePendingKeystoneTransition ctx t (aEventID (ptAudit p)))
    (\<lambda>_ d'. d' = del_rec t CollKeystoneTransition [] d)
    (\<lambda>_ d'. d' = d \<or> d' = del_rec t CollKeystoneTransition [] d) d"
  using assms by (simp add: DeletePendingKeystoneTransition_def)

lemma pinned_updates [simp]:
  "pinned (del_rec t CollKeystoneTransition k d) t' cred = pinned d t' cred"
  "pinned (put_rec t CollKeystoneTransition k v d) t' cred = pinned d t' cred"
  "pinned (set_audit t log d) t' cred = pinned d t' cred"
  by (simp_all add: pinned_def)

lemma audited_updates [simp]:
  "audited (del_rec t c k d) t' p = audited d t' p"
  "audited (put_rec t c k v d) t' p = audited d t' p"
  by (simp_all add: audited_def)

lemma in_flight_eventID: "in_flight p d t \<Longrightarrow> aEventID (ptAudit p) \<noteq> []"
  by (auto simp: in_flight_def validatePendingKeystoneTransition_def Let_def split: if_splits)

lemma wp_ensure:
  assumes fl: "in_flight p d t" and pin: "pinned d t (Some (ptNext p))"
  shows "wp (ensurePendingKeystoneAuditLocked ctx t p)
    (\<lambda>_ d'. settled p d' t \<and> pinned d' t (Some (ptNext p)))
    (\<lambda>_ d'. (in_flight p d' t \<or> settled p d' t) \<and> pinned d' t (Some (ptNext p))) d"
proof -
  have other: "ptExpected p \<noteq> Some (ptNext p)"
    using fl by (auto simp: in_flight_def validatePendingKeystoneTransition_def Let_def split: if_splits)
  have ev: "aEventID (ptAudit p) \<noteq> []" by (rule in_flight_eventID [OF fl])
  have cases: "events d t (aEventID (ptAudit p)) = [] \<or> audited d t p"
    using fl by (auto simp: in_flight_def)
  have del: "wp (DeletePendingKeystoneTransition ctx t (aEventID (ptAudit p)))
      (\<lambda>_ d'. settled p d' t \<and> pinned d' t (Some (ptNext p)))
      (\<lambda>_ d'. (in_flight p d' t \<or> settled p d' t) \<and> pinned d' t (Some (ptNext p))) d1"
    if "in_flight p d1 t" "pinned d1 t (Some (ptNext p))" "audited d1 t p" for d1
  proof -
    have m: "rec_at d1 t CollKeystoneTransition [] = Some (VTransition p)"
      using that(1) by (simp add: in_flight_def)
    show ?thesis
      by (rule wp_mono [OF wp_delete_marker [OF m ev]]) (use that in \<open>auto simp: settled_def\<close>)
  qed
  have ap: "in_flight p d1 t \<and> pinned d1 t (Some (ptNext p)) \<and> audited d1 t p"
    if "appended (ptAudit p) t d d1" for d1
    using that fl pin by (auto simp: appended_def in_flight_def audited_def)
  show ?thesis
  proof (cases "audited d t p")
    case True
    then have "find_audit (ptAudit p) False (list_entries (tdAudit (d t))) = Inr True"
      by (auto simp: audited_def find_audit_present)
    then show ?thesis
      unfolding ensurePendingKeystoneAuditLocked_def using fl pin del [OF fl pin True] by (cases ctx) (simp_all add: wp_find)
  next
    case False
    with cases have none: "events d t (aEventID (ptAudit p)) = []" by simp
    have "wp (bindM (observeAppend ctx t (ptAudit p)) (\<lambda>_. DeletePendingKeystoneTransition ctx t (aEventID (ptAudit p))))
        (\<lambda>_ d'. settled p d' t \<and> pinned d' t (Some (ptNext p)))
        (\<lambda>_ d'. (in_flight p d' t \<or> settled p d' t) \<and> pinned d' t (Some (ptNext p))) d"
      by (rule wp_bindM, rule wp_mono [OF wp_observeAppend [OF none]]) (use ap del fl pin in auto)
    then show ?thesis
      unfolding ensurePendingKeystoneAuditLocked_def
      using fl pin by (cases ctx) (simp_all add: wp_find find_audit_absent [OF none])
  qed
qed

lemma pinned_read:
  "pinned d t cred \<Longrightarrow> wp (bindM (currentKeystoneCredential ctx t) k) Q E d \<longleftrightarrow>
     (if ctx then E ErrCtx d else E ErrIO d \<and> wp (k cred) Q E d)"
  by (auto simp: current_alt pinned_def split: option.splits)

lemma pinned_unique: "pinned d t a \<Longrightarrow> pinned d t b \<longleftrightarrow> a = b"
  by (cases a; cases b) (auto simp: pinned_def)

text \<open>What a settled or unsettled transition is after one attempt to settle it.\<close>

lemma wp_reconcile:
  assumes fl: "in_flight p d t" and pin: "pinned d t cred"
  shows "wp (reconcilePendingKeystoneTransitionLocked ctx t)
    (\<lambda>_ d'. settled p d' t \<and> pinned d' t cred)
    (\<lambda>_ d'. (in_flight p d' t \<or> settled p d' t) \<and> pinned d' t cred) d"
proof -
  have m: "rec_at d t CollKeystoneTransition [] = Some (VTransition p)"
    and v: "validatePendingKeystoneTransition p = None"
    using fl by (simp_all add: in_flight_def)
  then have ne: "ptExpected p \<noteq> Some (ptNext p)"
    by (auto simp: validatePendingKeystoneTransition_def Let_def split: if_splits)
  show ?thesis
  proof (cases "cred = Some (ptNext p)")
    case True
    then show ?thesis
      unfolding reconcilePendingKeystoneTransitionLocked_def
      using m v fl pin wp_ensure [OF fl, of ctx] by (cases ctx) (simp_all add: current_alt(2) pinned_read [OF pin])
  next
    case False
    with fl pin have exp: "cred = ptExpected p" and none: "events d t (aEventID (ptAudit p)) = []"
      by (auto simp: in_flight_def pinned_unique)
    have "wp (DeletePendingKeystoneTransition ctx t (aEventID (ptAudit p)))
        (\<lambda>_ d'. settled p d' t \<and> pinned d' t cred)
        (\<lambda>_ d'. (in_flight p d' t \<or> settled p d' t) \<and> pinned d' t cred) d"
      by (rule wp_mono [OF wp_delete_marker [OF m in_flight_eventID [OF fl]]])
        (use fl pin exp none in \<open>auto simp: settled_def\<close>)
    moreover have "credentialStateMatches cred (ptExpected p)"
      by (simp add: exp credentialStateMatches_def split: option.splits)
    ultimately show ?thesis
      unfolding reconcilePendingKeystoneTransitionLocked_def
      using m v fl pin False by (cases ctx) (simp_all add: current_alt(2) pinned_read [OF pin])
  qed
qed

lemma wp_reconcile_quiet:
  "rec_at d t CollKeystoneTransition [] = None \<Longrightarrow>
   wp (reconcilePendingKeystoneTransitionLocked ctx t) (\<lambda>_ d'. d' = d) (\<lambda>_ d'. d' = d) d"
  by (simp add: reconcilePendingKeystoneTransitionLocked_def current_alt)



section \<open>Reading the credential\<close>

lemma standing_pinned: "standing p d t \<Longrightarrow> pinned d t (ptExpected p) \<or> pinned d t (Some (ptNext p))"
  by (auto simp: standing_def in_flight_def settled_def)

lemma wp_read:
  assumes "standing p d t" and pin: "pinned d t cred"
  shows "wp (GetKeystoneCredential ctx t)
    (\<lambda>c d'. settled p d' t \<and> pinned d' t cred \<and> cred = Some c) (\<lambda>_ d'. standing p d' t \<and> pinned d' t cred) d"
proof -
  have get: "wp (GetOperatorCredential ctx t)
      (\<lambda>c d'. settled p d' t \<and> pinned d' t cred \<and> cred = Some c) (\<lambda>_ d'. standing p d' t \<and> pinned d' t cred) d1"
    if "settled p d1 t" "pinned d1 t cred" for d1
    using that by (cases cred) (auto simp: GetOperatorCredential_def pinned_def standing_def)
  have "wp (reconcilePendingKeystoneTransitionLocked ctx t)
      (\<lambda>_ d'. settled p d' t \<and> pinned d' t cred) (\<lambda>_ d'. standing p d' t \<and> pinned d' t cred) d"
  proof (cases "settled p d t")
    case True
    then have "rec_at d t CollKeystoneTransition [] = None" by (simp add: settled_def)
    from wp_mono [OF wp_reconcile_quiet [OF this]] show ?thesis using True pin by (auto simp: standing_def)
  next
    case False
    with assms(1) have "in_flight p d t" by (simp add: standing_def)
    from wp_mono [OF wp_reconcile [OF this pin]] show ?thesis by (auto simp: standing_def)
  qed
  then show ?thesis
    unfolding GetKeystoneCredential_def by (rule wp_bindM [OF wp_mono]) (auto intro: get)
qed

lemma standing_read_attempts:
  assumes "standing p d t" and "pinned d t cred"
  shows "standing p (read_attempts t tries d) t \<and> pinned (read_attempts t tries d) t cred"
  using assms
proof (induction tries arbitrary: d)
  case (Cons a tries)
  obtain ctx fs where a: "a = (ctx, fs)" by force
  obtain r d' fs' where run: "GetKeystoneCredential ctx t (d, fs) = (r, (d', fs'))" by (metis prod.exhaust)
  have "wp (GetKeystoneCredential ctx t) (\<lambda>_ d'. standing p d' t \<and> pinned d' t cred)
      (\<lambda>_ d'. standing p d' t \<and> pinned d' t cred) d"
    by (rule wp_mono [OF wp_read [OF Cons.prems]]) (auto simp: standing_def)
  then have "standing p d' t \<and> pinned d' t cred" by (rule wp_outcome) (rule run)
  then show ?case
    using Cons.IH [of d'] run by (simp add: read_attempts_def a)
qed (simp add: read_attempts_def)


section \<open>Starting a transition\<close>

lemma hex_encode_decodable: "hex_decodable (hex_encode bytes)"
proof -
  have "hex_char (hex_digit n)" for n
    unfolding hex_char_def hex_digit_def by (rule nth_mem [THEN subsetD [rotated]]) auto
  then have "list_all hex_char (hex_encode bytes)"
    by (induction bytes) (simp_all add: hex_encode_def)
  then show ?thesis by (simp add: hex_decodable_def)
qed

lemma pending_valid:
  assumes "validateKeystoneTransitionAudit expected (Some a) = None" and "expected \<noteq> Some next"
    and "length bytes = 16" and "now \<noteq> 0"
  shows "validatePendingKeystoneTransition (pending_transition expected next a now (hex_encode bytes)) = None"
  using assms hex_encode_decodable [of bytes]
  by (auto simp: validateKeystoneTransitionAudit_def validatePendingKeystoneTransition_def pending_transition_def Let_def
      split: if_splits)

lemma pending_simps [simp]:
  "ptExpected (pending_transition expected next a now ev) = expected"
  "ptNext (pending_transition expected next a now ev) = next"
  "aEventID (ptAudit (pending_transition expected next a now ev)) = ev"
  "aTimestamp (ptAudit (pending_transition expected next a now ev)) = now"
  by (simp_all add: pending_transition_def)

lemma wp_transition:
  assumes quiet: "rec_at d t CollKeystoneTransition [] = None" and fresh: "events d t (hex_encode bytes) = []"
    and bytes: "length bytes = 16" and now: "now \<noteq> 0" and pin: "pinned d t cred"
    and p_def: "p = pending_transition expected next a now (hex_encode bytes)"
  shows "wp (CompareAndSetKeystoneCredential (Some bytes) now ctx t expected next (Some a))
    (\<lambda>_ d'. settled p d' t \<and> cred = expected \<and> expected \<noteq> Some next \<and> pinned d' t (Some next))
    (\<lambda>_ d'. d' = d \<or> cred = expected \<and> expected \<noteq> Some next \<and> standing p d' t) d"
    (is "wp _ ?Q ?E d")
proof (cases "ctx \<or> validateKeystoneTransitionAudit expected (Some a) \<noteq> None \<or> expected = Some next \<or> cred \<noteq> expected")
  case True
  then have "wp (CompareAndSetKeystoneCredential (Some bytes) now ctx t expected next (Some a)) (\<lambda>_ _. False) (\<lambda>_ d'. d' = d) d"
    unfolding CompareAndSetKeystoneCredential_def
    by (intro wp_bindM wp_mono [OF wp_reconcile_quiet [OF quiet]])
      (auto simp: pinned_read [OF pin] credentialStateMatches_def split: option.splits)
  then show ?thesis by (rule wp_mono) auto
next
  case False
  then have exp: "cred = expected" "expected \<noteq> Some next" "\<not> ctx"
    and v: "validateKeystoneTransitionAudit expected (Some a) = None" by auto
  let ?d1 = "put_rec t CollKeystoneTransition [] (VTransition p) d"
  let ?d2 = "put_rec t CollOperatorCred [] (VCredential next) ?d1"
  have ev: "hex_encode bytes \<noteq> []"
    using bytes length_hex_encode [of bytes] by (metis list.size(3) mult_eq_0_iff zero_neq_numeral)
  have pv: "validatePendingKeystoneTransition p = None"
    unfolding p_def by (rule pending_valid [OF v exp(2) bytes now])
  have f1: "in_flight p ?d1 t"
    using pv pin fresh exp(1) by (simp add: in_flight_def p_def)
  have pin2: "pinned ?d2 t (Some next)" by (simp add: pinned_def)
  have f2: "in_flight p ?d2 t"
    using pv fresh pin2 by (simp add: in_flight_def p_def)
  have rec: "wp (reconcilePendingKeystoneTransitionLocked False t) ?Q ?E ?d2"
    by (rule wp_mono [OF wp_reconcile [OF f2 pin2]]) (use exp in \<open>auto simp: standing_def\<close>)
  have cas: "wp (bindM (CompareAndSetOperatorCredential False t expected next)
      (\<lambda>_. reconcilePendingKeystoneTransitionLocked False t)) ?Q ?E ?d1"
    using pin exp f1 f2 rec
    by (auto simp: CompareAndSetOperatorCredential_def pinned_def standing_def split: option.splits)
  have create: "wp (bindM (CreatePendingKeystoneTransition False t p) (\<lambda>_.
      bindM (CompareAndSetOperatorCredential False t expected next)
        (\<lambda>_. reconcilePendingKeystoneTransitionLocked False t))) ?Q ?E d"
    using quiet ev now cas f1 exp by (simp add: CreatePendingKeystoneTransition_def p_def standing_def)
  have "credentialStateMatches expected expected"
    by (simp add: credentialStateMatches_def split: option.splits)
  then show ?thesis
    unfolding CompareAndSetKeystoneCredential_def
    using create exp v pin
    by (intro wp_bindM wp_mono [OF wp_reconcile_quiet [OF quiet]])
      (auto simp: pinned_read newKeystoneAuditEventID_def p_def)
qed


section \<open>Properties\<close>

text \<open>After the call and any later reads, whatever failed: the old state, or the transition standing.\<close>

lemma after_transition:
  assumes "rec_at d t CollKeystoneTransition [] = None" and "events d t (hex_encode bytes) = []"
    and "length bytes = 16" and "now \<noteq> 0" and pin: "pinned d t cred"
    and run: "CompareAndSetKeystoneCredential (Some bytes) now ctx t expected next (Some a) (d, fs) = (r, (d1, fs1))"
  defines "p \<equiv> pending_transition expected next a now (hex_encode bytes)"
  shows "(standing p d1 t \<and> cred = expected \<and> expected \<noteq> Some next \<or> r \<noteq> Inr () \<and> d1 = d) \<and>
    (r = Inr () \<longrightarrow> pinned d1 t (Some next))"
proof (cases r)
  case (Inl e)
  from wp_error [OF wp_transition [OF assms(1-5) refl] run [unfolded Inl]] Inl show ?thesis by (auto simp: p_def)
next
  case (Inr u)
  from wp_value [OF wp_transition [OF assms(1-5) refl] run [unfolded Inr]] Inr show ?thesis
    by (auto simp: p_def standing_def)
qed

lemma quiet_read_attempts:
  "rec_at d t CollKeystoneTransition [] = None \<Longrightarrow> pinned d t cred \<Longrightarrow> read_attempts t tries d = d"
proof (induction tries)
  case (Cons a tries)
  obtain ctx fs where a: "a = (ctx, fs)" by force
  obtain r d' fs' where run: "GetKeystoneCredential ctx t (d, fs) = (r, (d', fs'))" by (metis prod.exhaust)
  have "wp (GetKeystoneCredential ctx t) (\<lambda>_ d'. d' = d) (\<lambda>_ d'. d' = d) d"
    unfolding GetKeystoneCredential_def
    by (intro wp_bindM wp_mono [OF wp_reconcile_quiet [OF Cons.prems(1)]])
      (use Cons.prems(2) in \<open>auto simp: GetOperatorCredential_def pinned_def split: option.splits\<close>)
  then have "d' = d" by (rule wp_outcome) (rule run)
  then show ?case using Cons run by (simp add: read_attempts_def a)
qed (simp add: read_attempts_def)

lemma example_start:
  "rec_at empty_db t c k = None" "events empty_db t ev = []" "length (replicate 16 (7 :: nat)) = 16" "(5 :: time) \<noteq> 0"
  "pinned empty_db t None"
  by (simp_all add: events_def pinned_def) (simp add: empty_db_def empty_tenant_def)

text \<open>
  Claim C22: a credential is handed out only after its pinning or rotation is in the audit log, exactly once.
  Start a transition from a store with no transition in flight and a fresh event identity, let it and
  any number of later reads fail at any backend call, also after having taken effect.  Whenever a read
  then returns a credential, it is the new one and the log has exactly one record of the event, with
  the content the caller asked for, or it is the old one and the log has none.  At no point does the
  log have two records, or a record for a credential that is not installed.
\<close>

theorem keystone_credential_audited_before_use:
  fixes tries :: "(bool \<times> fault list) list"
  assumes "rec_at d t CollKeystoneTransition [] = None" and "events d t (hex_encode bytes) = []"
    and "length bytes = 16" and "now \<noteq> 0" and "pinned d t cred"
    and "CompareAndSetKeystoneCredential (Some bytes) now ctx t expected next (Some a) (d, fs) = (r, (d1, fs1))"
  defines "d2 \<equiv> read_attempts t tries d1" and "p \<equiv> pending_transition expected next a now (hex_encode bytes)"
  shows "length (events d2 t (hex_encode bytes)) \<le> 1 \<and>
    (events d2 t (hex_encode bytes) \<noteq> [] \<longrightarrow> pinned d2 t (Some next)) \<and>
    (\<forall>ctx' fs' c d3 fs3. GetKeystoneCredential ctx' t (d2, fs') = (Inr c, (d3, fs3)) \<longrightarrow>
       c = next \<and> audited d3 t p \<or> Some c = cred \<and> r \<noteq> Inr () \<and> events d3 t (hex_encode bytes) = [])"
proof -
  note after = after_transition [OF assms(1-6)]
  show ?thesis
  proof (cases "standing p d1 t \<and> cred = expected \<and> expected \<noteq> Some next")
    case True
    obtain cred1 where pin1: "pinned d1 t cred1" "cred1 = expected \<or> cred1 = Some next"
      using standing_pinned [of p d1 t] True by (auto simp: p_def)
    have st: "standing p d2 t" "pinned d2 t cred1"
      unfolding d2_def using standing_read_attempts [of p d1 t cred1 tries] True pin1(1) by auto
    have val: "c = next \<and> audited d3 t p \<or> Some c = cred \<and> r \<noteq> Inr () \<and> events d3 t (hex_encode bytes) = []"
      if "GetKeystoneCredential ctx' t (d2, fs') = (Inr c, (d3, fs3))" for ctx' fs' c d3 fs3
    proof -
      have "settled p d3 t \<and> pinned d3 t cred1 \<and> cred1 = Some c"
        using wp_value [OF wp_read [OF st]] that by blast
      moreover have "r = Inr () \<Longrightarrow> cred1 = Some next"
        using after pin1(1) by (auto simp: pinned_unique)
      ultimately show ?thesis
        using pin1(2) True by (auto simp: settled_def p_def pinned_unique)
    qed
    have "length (events d2 t (hex_encode bytes)) \<le> 1 \<and>
        (events d2 t (hex_encode bytes) \<noteq> [] \<longrightarrow> pinned d2 t (Some next))"
      using st(1) by (auto simp: standing_def in_flight_def settled_def audited_def p_def)
    then show ?thesis using val by blast
  next
    case False
    with after have same: "d1 = d" "r \<noteq> Inr ()" by (auto simp: p_def)
    then have d2: "d2 = d" unfolding d2_def using quiet_read_attempts [OF assms(1,5)] by simp
    have "Some c = cred \<and> r \<noteq> Inr () \<and> events d3 t (hex_encode bytes) = []"
      if "GetKeystoneCredential ctx' t (d2, fs') = (Inr c, (d3, fs3))" for ctx' fs' c d3 fs3
    proof -
      have "wp (GetKeystoneCredential ctx' t) (\<lambda>c d'. Some c = cred \<and> d' = d) (\<lambda>_ _. True) d"
        unfolding GetKeystoneCredential_def
        by (intro wp_bindM wp_mono [OF wp_reconcile_quiet [OF assms(1)]])
          (use assms(5) in \<open>auto simp: GetOperatorCredential_def pinned_def split: option.splits\<close>)
      from wp_value [OF this] that d2 same(2) assms(2) show ?thesis by blast
    qed
    moreover have "length (events d2 t (hex_encode bytes)) \<le> 1" "events d2 t (hex_encode bytes) = []"
      using d2 assms(2) by simp_all
    ultimately show ?thesis by blast
  qed
qed

theorem keystone_credential_audited_before_use_witness:
  "\<exists>r d1 fs1. example_first_pin = (r, (d1, fs1)) \<and>
     (\<forall>ctx' fs' c d3 fs3. GetKeystoneCredential ctx' ''t'' (d1, fs') = (Inr c, (d3, fs3)) \<longrightarrow>
        c = example_credential \<and>
        audited d3 ''t'' (pending_transition None example_credential example_pin 5 (hex_encode (replicate 16 7))))"
proof -
  obtain r d1 fs1 where run: "example_first_pin = (r, (d1, fs1))" by (metis prod.exhaust)
  show ?thesis
    using keystone_credential_audited_before_use [OF example_start run [unfolded example_first_pin_def], of "[]"] run
    by (intro exI [of _ r] exI [of _ d1] exI [of _ fs1]) (auto simp: read_attempts_def)
qed




end
