(* ===== verification/Go_JSON.thy ===== *)
theory Go_JSON
  imports Go_Strings Sha256
begin

text \<open>
  The parts of Go's \<^verbatim>\<open>encoding/json\<close> and \<^verbatim>\<open>unicode/utf8\<close> the modelled code uses.  Encoding without HTML
  escaping, as \<^verbatim>\<open>json.Encoder\<close> does after \<^verbatim>\<open>SetEscapeHTML(false)\<close>, and decoding: a lexer, a parser with an
  explicit stack and Go's nesting limit, and the matching of object keys to field names.  Strings are
  byte strings; an invalid UTF-8 byte becomes the replacement character in both directions.
\<close>

section \<open>UTF-8\<close>

definition quote :: char where
  "quote = CHR 0x22"

definition bslash :: char where
  "bslash = CHR 0x5C"

definition cont :: "nat \<Rightarrow> bool" where
  "cont b \<longleftrightarrow> 0x80 \<le> b \<and> b \<le> 0xBF"

text \<open>The size of the valid rune a string starts with, or 0.\<close>

definition utf8_size :: "string \<Rightarrow> nat" where
  "utf8_size s =
     (let b0 = byte s 0; b1 = byte s 1; b2 = byte s 2; b3 = byte s 3
      in if s = [] then 0
         else if b0 < 0x80 then 1
         else if b0 < 0xC2 then 0
         else if b0 < 0xE0 then (if cont b1 then 2 else 0)
         else if b0 < 0xF0 then
           (if (if b0 = 0xE0 then 0xA0 else 0x80) \<le> b1 \<and> b1 \<le> (if b0 = 0xED then 0x9F else 0xBF) \<and> cont b2 then 3 else 0)
         else if b0 < 0xF5 then
           (if (if b0 = 0xF0 then 0x90 else 0x80) \<le> b1 \<and> b1 \<le> (if b0 = 0xF4 then 0x8F else 0xBF) \<and> cont b2 \<and> cont b3
            then 4 else 0)
         else 0)"

function utf8_valid :: "string \<Rightarrow> bool" where
  "utf8_valid s = (if s = [] then True else if utf8_size s = 0 then False else utf8_valid (drop (utf8_size s) s))"
  by pat_completeness auto
termination by (relation "measure length") auto

declare utf8_valid.simps [simp del]

definition replacement :: string where
  "replacement = map char_of [0xEF, 0xBF, 0xBD :: nat]"

definition encode_rune :: "nat \<Rightarrow> string" where
  "encode_rune r =
     (if r < 0x80 then [char_of r]
      else if r < 0x800 then map char_of [0xC0 + r div 64, 0x80 + r mod 64]
      else if 0xD800 \<le> r \<and> r < 0xE000 \<or> 0x10FFFF < r then replacement
      else if r < 0x10000 then map char_of [0xE0 + r div 4096, 0x80 + r div 64 mod 64, 0x80 + r mod 64]
      else map char_of [0xF0 + r div 262144, 0x80 + r div 4096 mod 64, 0x80 + r div 64 mod 64, 0x80 + r mod 64])"

section \<open>Encoding\<close>

definition escape_ascii :: "char \<Rightarrow> string" where
  "escape_ascii c =
     (let n = of_char c :: nat
      in if c = bslash \<or> c = quote then [bslash, c]
         else if n = 8 then [bslash, CHR ''b'']
         else if n = 12 then [bslash, CHR ''f'']
         else if n = 10 then [bslash, CHR ''n'']
         else if n = 13 then [bslash, CHR ''r'']
         else if n = 9 then [bslash, CHR ''t'']
         else if n < 32 then bslash # ''u00'' @ [hex_digit (n div 16), hex_digit n]
         else [c])"

function json_body :: "string \<Rightarrow> string" where
  "json_body s =
     (if s = [] then []
      else if byte s 0 < 0x80 then escape_ascii (hd s) @ json_body (drop 1 s)
      else if utf8_size s = 0 then bslash # ''ufffd'' @ json_body (drop 1 s)
      else if byte s 0 = 0xE2 \<and> byte s 1 = 0x80 \<and> (byte s 2 = 0xA8 \<or> byte s 2 = 0xA9)
        then bslash # ''u202'' @ [if byte s 2 = 0xA8 then CHR ''8'' else CHR ''9''] @ json_body (drop 3 s)
      else take (utf8_size s) s @ json_body (drop (utf8_size s) s))"
  by pat_completeness auto
termination by (relation "measure length") auto

declare json_body.simps [simp del]

definition json_string :: "string \<Rightarrow> string" where
  "json_string s = quote # json_body s @ [quote]"

text \<open>JSON values; a number is its literal.\<close>

datatype json = JNull | JBool bool | JNum string | JStr string | JArr "json list" | JObj "(string \<times> json) list"

fun joined :: "'a \<Rightarrow> 'a list list \<Rightarrow> 'a list" where
  "joined sep [] = []"
| "joined sep [x] = x"
| "joined sep (x # xs) = x @ sep # joined sep xs"

fun json_text :: "json \<Rightarrow> string" where
  "json_text JNull = ''null''"
| "json_text (JBool b) = (if b then ''true'' else ''false'')"
| "json_text (JNum n) = n"
| "json_text (JStr s) = json_string s"
| "json_text (JArr vs) = ''['' @ joined (CHR '','') (map json_text vs) @ '']''"
| "json_text (JObj kvs) = CHR ''{'' # joined (CHR '','') (map (\<lambda>(k, v). json_string k @ '':'' @ json_text v) kvs) @ [CHR ''}'']"

section \<open>Lexing\<close>

fun hex_value :: "char \<Rightarrow> nat option" where
  "hex_value c =
     (let n = of_char c :: nat
      in if 48 \<le> n \<and> n \<le> 57 then Some (n - 48)
         else if 97 \<le> n \<and> n \<le> 102 then Some (n - 87)
         else if 65 \<le> n \<and> n \<le> 70 then Some (n - 55)
         else None)"

fun hex4 :: "string \<Rightarrow> nat option" where
  "hex4 (a # b # c # d # _) =
     (case (hex_value a, hex_value b, hex_value c, hex_value d) of
        (Some w, Some x, Some y, Some z) \<Rightarrow> Some (((w * 16 + x) * 16 + y) * 16 + z)
      | _ \<Rightarrow> None)"
| "hex4 _ = None"

text \<open>The second half of a surrogate pair: the code unit of an escape that follows at once.\<close>

definition low_surrogate :: "nat \<Rightarrow> string \<Rightarrow> nat option" where
  "low_surrogate hi s =
     (if take 2 s = [bslash, CHR ''u''] then
        (case hex4 (drop 2 s) of
           None \<Rightarrow> None
         | Some lo \<Rightarrow>
             (if 0xD800 \<le> hi \<and> hi < 0xDC00 \<and> 0xDC00 \<le> lo \<and> lo < 0xE000
              then Some ((hi - 0xD800) * 1024 + (lo - 0xDC00) + 0x10000) else None))
      else None)"

definition simple_escape :: "char \<Rightarrow> char option" where
  "simple_escape e =
     (if e = quote \<or> e = bslash \<or> e = CHR ''/'' then Some e
      else if e = CHR ''b'' then Some (CHR 0x08)
      else if e = CHR ''f'' then Some (CHR 0x0C)
      else if e = CHR ''n'' then Some (CHR 0x0A)
      else if e = CHR ''r'' then Some (CHR 0x0D)
      else if e = CHR ''t'' then Some (CHR 0x09)
      else None)"

definition prepend :: "string \<Rightarrow> (string \<times> string) option \<Rightarrow> (string \<times> string) option" where
  "prepend p r = map_option (\<lambda>(x, rest). (p @ x, rest)) r"

text \<open>The rest of a string literal after its opening quote: its value and what follows.\<close>

function lex_string :: "string \<Rightarrow> (string \<times> string) option" where
  "lex_string s =
     (case s of
        [] \<Rightarrow> None
      | c # cs \<Rightarrow>
          (if c = quote then Some ([], cs)
           else if c = bslash then
             (case cs of
                [] \<Rightarrow> None
              | e # es \<Rightarrow>
                  (if e = CHR ''u'' then
                     (case hex4 es of
                        None \<Rightarrow> None
                      | Some u \<Rightarrow>
                          (if 0xD800 \<le> u \<and> u < 0xE000 then
                             (case low_surrogate u (drop 4 es) of
                                Some r \<Rightarrow> prepend (encode_rune r) (lex_string (drop 10 es))
                              | None \<Rightarrow> prepend replacement (lex_string (drop 4 es)))
                           else prepend (encode_rune u) (lex_string (drop 4 es))))
                   else
                     (case simple_escape e of
                        None \<Rightarrow> None
                      | Some b \<Rightarrow> prepend [b] (lex_string es))))
           else if of_char c < (32 :: nat) then None
           else if of_char c < (0x80 :: nat) then prepend [c] (lex_string cs)
           else if utf8_size s = 0 then prepend replacement (lex_string cs)
           else prepend (take (utf8_size s) s) (lex_string (drop (utf8_size s) s))))"
  by pat_completeness auto
termination by (relation "measure length") auto

declare lex_string.simps [simp del]

text \<open>Numbers: an optional sign, an integer part without leading zeros, fraction and exponent.\<close>

definition fraction_part :: "string \<Rightarrow> (string \<times> string) option" where
  "fraction_part s =
     (if s \<noteq> [] \<and> hd s = CHR ''.'' then
        (let ds = takeWhile is_digit (tl s)
         in if ds = [] then None else Some (hd s # ds, dropWhile is_digit (tl s)))
      else Some ([], s))"

definition exponent_part :: "string \<Rightarrow> (string \<times> string) option" where
  "exponent_part s =
     (if s \<noteq> [] \<and> (hd s = CHR ''e'' \<or> hd s = CHR ''E'') then
        (let sign = (if tl s \<noteq> [] \<and> (hd (tl s) = CHR ''+'' \<or> hd (tl s) = CHR ''-'') then [hd (tl s)] else []);
             body = drop (length sign) (tl s);
             ds = takeWhile is_digit body
         in if ds = [] then None else Some (hd s # sign @ ds, dropWhile is_digit body))
      else Some ([], s))"

definition integer_part :: "string \<Rightarrow> (string \<times> string) option" where
  "integer_part s =
     (if s = [] \<or> \<not> is_digit (hd s) then None
      else if hd s = CHR ''0'' then Some ([hd s], tl s)
      else Some (takeWhile is_digit s, dropWhile is_digit s))"

definition lex_number :: "string \<Rightarrow> (string \<times> string) option" where
  "lex_number s =
     (let sign = (if s \<noteq> [] \<and> hd s = CHR ''-'' then [hd s] else [])
      in case integer_part (drop (length sign) s) of
           None \<Rightarrow> None
         | Some (i, s1) \<Rightarrow>
             (case fraction_part s1 of
                None \<Rightarrow> None
              | Some (f, s2) \<Rightarrow> prepend (sign @ i @ f) (exponent_part s2)))"

datatype token = TNull | TBool bool | TNum string | TStr string | TLBrace | TRBrace | TLBrack | TRBrack | TComma | TColon

fun punctuation :: "char \<Rightarrow> token option" where
  "punctuation c =
     (if c = CHR ''{'' then Some TLBrace else if c = CHR ''}'' then Some TRBrace
      else if c = CHR ''['' then Some TLBrack else if c = CHR '']'' then Some TRBrack
      else if c = CHR '','' then Some TComma else if c = CHR '':'' then Some TColon else None)"

definition json_space :: "char \<Rightarrow> bool" where
  "json_space c \<longleftrightarrow> c \<in> {CHR '' '', CHR 0x09, CHR 0x0A, CHR 0x0D}"

text \<open>One token, and what follows it.\<close>

definition lex_token :: "string \<Rightarrow> (token \<times> string) option" where
  "lex_token s =
     (case s of
        [] \<Rightarrow> None
      | c # cs \<Rightarrow>
          (case punctuation c of
             Some tok \<Rightarrow> Some (tok, cs)
           | None \<Rightarrow>
               (if c = quote then map_option (\<lambda>(x, rest). (TStr x, rest)) (lex_string cs)
                else if take 4 s = ''true'' then Some (TBool True, drop 4 s)
                else if take 5 s = ''false'' then Some (TBool False, drop 5 s)
                else if take 4 s = ''null'' then Some (TNull, drop 4 s)
                else map_option (\<lambda>(n, rest). (TNum n, rest)) (lex_number s))))"

lemma prepend_Some: "prepend p r = Some (x, rest) \<longleftrightarrow> (\<exists>y. r = Some (y, rest) \<and> x = p @ y)"
  by (cases r) (auto simp: prepend_def)

lemma lex_string_shorter: "lex_string s = Some (x, rest) \<Longrightarrow> length rest < length s"
proof (induction "length s" arbitrary: s x rest rule: less_induct)
  case less
  have ih: "lex_string s' = Some (y, r) \<Longrightarrow> length s' < length s \<Longrightarrow> length r < length s" for s' y r
    using less.hyps [of s' y r] by simp
  show ?case
    using less.prems unfolding lex_string.simps [of s]
    by (auto simp: prepend_Some split: list.splits if_splits option.splits dest!: ih)
qed


lemma lex_number_shorter: "lex_number s = Some (n, rest) \<Longrightarrow> length rest < length s"
proof -
  have part: "fraction_part u = Some (f, r) \<Longrightarrow> length r \<le> length u" "exponent_part u = Some (f, r) \<Longrightarrow> length r \<le> length u"
    for u f r
    using length_dropWhile_le [of is_digit "tl u"] length_dropWhile_le [of is_digit "drop (Suc 0) (tl u)"]
    by (auto simp: fraction_part_def exponent_part_def Let_def split: if_splits)
  have int: "integer_part u = Some (i, r) \<Longrightarrow> length r < length u" for u i r
    using length_dropWhile_le [of is_digit "tl u"]
    by (cases u) (auto simp: integer_part_def split: if_splits)
  assume "lex_number s = Some (n, rest)"
  then obtain sign i f s1 s2 y where "integer_part (drop (length (sign :: string)) s) = Some (i, s1)"
      "fraction_part s1 = Some (f, s2)" "exponent_part s2 = Some (y, rest)"
    by (auto simp: lex_number_def Let_def prepend_Some split: option.splits prod.splits)
  with int [of "drop (length sign) s"] part show ?thesis by fastforce
qed

lemma lex_token_shorter: "lex_token s = Some (tok, rest) \<Longrightarrow> length rest < length s"
  by (cases s)
    (auto simp: lex_token_def dest: lex_number_shorter lex_string_shorter split: option.splits if_splits)

function lex :: "string \<Rightarrow> token list option" where
  "lex s =
     (case s of
        [] \<Rightarrow> Some []
      | c # cs \<Rightarrow>
          (if json_space c then lex cs
           else (case lex_token s of None \<Rightarrow> None | Some (tok, rest) \<Rightarrow> map_option ((#) tok) (lex rest))))"
  by pat_completeness auto
termination by (relation "measure length") (auto dest: lex_token_shorter)

declare lex.simps [simp del]

section \<open>Parsing\<close>

text \<open>
  The open arrays and objects, innermost first, with what they hold so far in reverse; for an object
  also the key whose value is being read.
\<close>

datatype frame = FArr "json list" | FObj "(string \<times> json) list" string

datatype expecting =
    Value | ValueOrEnd | KeyOrEnd "(string \<times> json) list" | Key "(string \<times> json) list"
  | Colon "(string \<times> json) list" string | Finished json

definition maxNestingDepth :: nat where
  "maxNestingDepth = 10000"

text \<open>What a token that starts a value leads to.\<close>

definition start_value :: "frame list \<Rightarrow> token \<Rightarrow> (expecting \<times> frame list) option" where
  "start_value st tok =
     (case tok of
        TNull \<Rightarrow> Some (Finished JNull, st)
      | TBool b \<Rightarrow> Some (Finished (JBool b), st)
      | TNum n \<Rightarrow> Some (Finished (JNum n), st)
      | TStr s \<Rightarrow> Some (Finished (JStr s), st)
      | TLBrack \<Rightarrow> (if maxNestingDepth \<le> length st then None else Some (ValueOrEnd, FArr [] # st))
      | TLBrace \<Rightarrow> (if maxNestingDepth \<le> length st then None else Some (KeyOrEnd [], st))
      | _ \<Rightarrow> None)"

definition parse_step :: "expecting \<Rightarrow> frame list \<Rightarrow> token \<Rightarrow> (expecting \<times> frame list) option" where
  "parse_step ex st tok =
     (case ex of
        Value \<Rightarrow> start_value st tok
      | ValueOrEnd \<Rightarrow>
          (case (tok, st) of (TRBrack, FArr vs # st') \<Rightarrow> Some (Finished (JArr (rev vs)), st') | _ \<Rightarrow> start_value st tok)
      | KeyOrEnd kvs \<Rightarrow>
          (case tok of TRBrace \<Rightarrow> Some (Finished (JObj (rev kvs)), st) | TStr k \<Rightarrow> Some (Colon kvs k, st) | _ \<Rightarrow> None)
      | Key kvs \<Rightarrow> (case tok of TStr k \<Rightarrow> Some (Colon kvs k, st) | _ \<Rightarrow> None)
      | Colon kvs k \<Rightarrow> (case tok of TColon \<Rightarrow> Some (Value, FObj kvs k # st) | _ \<Rightarrow> None)
      | Finished v \<Rightarrow>
          (case (st, tok) of
             (FArr vs # st', TComma) \<Rightarrow> Some (Value, FArr (v # vs) # st')
           | (FArr vs # st', TRBrack) \<Rightarrow> Some (Finished (JArr (rev (v # vs))), st')
           | (FObj kvs k # st', TComma) \<Rightarrow> Some (Key ((k, v) # kvs), st')
           | (FObj kvs k # st', TRBrace) \<Rightarrow> Some (Finished (JObj (rev ((k, v) # kvs))), st')
           | _ \<Rightarrow> None))"

fun parse_tokens :: "expecting \<Rightarrow> frame list \<Rightarrow> token list \<Rightarrow> json option" where
  "parse_tokens ex st [] = (case (ex, st) of (Finished v, []) \<Rightarrow> Some v | _ \<Rightarrow> None)"
| "parse_tokens ex st (tok # toks) =
     (case parse_step ex st tok of None \<Rightarrow> None | Some (ex', st') \<Rightarrow> parse_tokens ex' st' toks)"

definition json_parse :: "string \<Rightarrow> json option" where
  "json_parse s = (case lex s of None \<Rightarrow> None | Some toks \<Rightarrow> parse_tokens Value [] toks)"

section \<open>Decoding into a struct\<close>

text \<open>
  Go's folding of a key, as far as it can meet an ASCII field name: letters to upper case, and the two
  runes outside ASCII that fold to a letter (the long s and the Kelvin sign).
\<close>

definition upper :: "char \<Rightarrow> char" where
  "upper c = (if 97 \<le> (of_char c :: nat) \<and> (of_char c :: nat) \<le> 122 then char_of (of_char c - 32 :: nat) else c)"

function fold_key :: "string \<Rightarrow> string" where
  "fold_key s =
     (if s = [] then []
      else if byte s 0 = 0xC5 \<and> byte s 1 = 0xBF then CHR ''S'' # fold_key (drop 2 s)
      else if byte s 0 = 0xE2 \<and> byte s 1 = 0x84 \<and> byte s 2 = 0xAA then CHR ''K'' # fold_key (drop 3 s)
      else upper (hd s) # fold_key (drop 1 s))"
  by pat_completeness auto
termination by (relation "measure length") auto

declare fold_key.simps [simp del]

definition match_field :: "string list \<Rightarrow> string \<Rightarrow> string option" where
  "match_field names key =
     (if key \<in> set names then Some key else find (\<lambda>f. fold_key f = fold_key key) names)"

text \<open>The fields are set in the order of the keys; unknown keys are skipped and null sets nothing.\<close>

fun decode_fields :: "string list \<Rightarrow> (string \<Rightarrow> json \<Rightarrow> 'a \<Rightarrow> 'a option) \<Rightarrow> (string \<times> json) list \<Rightarrow> 'a \<Rightarrow> 'a option" where
  "decode_fields names assign [] x = Some x"
| "decode_fields names assign ((k, v) # kvs) x =
     (case match_field names k of
        None \<Rightarrow> decode_fields names assign kvs x
      | Some f \<Rightarrow> (case assign f v x of None \<Rightarrow> None | Some y \<Rightarrow> decode_fields names assign kvs y))"

definition decode_struct :: "string list \<Rightarrow> (string \<Rightarrow> json \<Rightarrow> 'a \<Rightarrow> 'a option) \<Rightarrow> json \<Rightarrow> 'a \<Rightarrow> 'a option" where
  "decode_struct names assign v x =
     (case v of JNull \<Rightarrow> Some x | JObj kvs \<Rightarrow> decode_fields names assign kvs x | _ \<Rightarrow> None)"

definition decode_string :: "json \<Rightarrow> string \<Rightarrow> string option" where
  "decode_string v old = (case v of JNull \<Rightarrow> Some old | JStr s \<Rightarrow> Some s | _ \<Rightarrow> None)"

definition decode_int :: "json \<Rightarrow> int \<Rightarrow> int option" where
  "decode_int v old = (case v of JNull \<Rightarrow> Some old | JNum n \<Rightarrow> ParseInt n | _ \<Rightarrow> None)"

text \<open>A slice is decoded element by element into what it held before; the rest of the old slice is kept behind it.\<close>

fun decode_elements :: "(json \<Rightarrow> 'a \<Rightarrow> 'a option) \<Rightarrow> 'a \<Rightarrow> json list \<Rightarrow> 'a list \<Rightarrow> 'a list option" where
  "decode_elements dec zero [] old = Some []"
| "decode_elements dec zero (v # vs) old =
     (case dec v (case old of [] \<Rightarrow> zero | x # _ \<Rightarrow> x) of
        None \<Rightarrow> None
      | Some y \<Rightarrow> map_option ((#) y) (decode_elements dec zero vs (drop 1 old)))"

section \<open>Reading back what was written\<close>

fun tokens :: "json \<Rightarrow> token list" where
  "tokens JNull = [TNull]"
| "tokens (JBool b) = [TBool b]"
| "tokens (JNum n) = [TNum n]"
| "tokens (JStr s) = [TStr s]"
| "tokens (JArr vs) = TLBrack # joined TComma (map tokens vs) @ [TRBrack]"
| "tokens (JObj kvs) = TLBrace # joined TComma (map (\<lambda>(k, v). TStr k # TColon # tokens v) kvs) @ [TRBrace]"

fun json_wf :: "json \<Rightarrow> bool" where
  "json_wf JNull \<longleftrightarrow> True"
| "json_wf (JBool b) \<longleftrightarrow> True"
| "json_wf (JNum n) \<longleftrightarrow> (\<exists>i. n = FormatInt i)"
| "json_wf (JStr s) \<longleftrightarrow> utf8_valid s"
| "json_wf (JArr vs) \<longleftrightarrow> (\<forall>v \<in> set vs. json_wf v)"
| "json_wf (JObj kvs) \<longleftrightarrow> (\<forall>(k, v) \<in> set kvs. utf8_valid k \<and> json_wf v)"

fun json_depth :: "json \<Rightarrow> nat" where
  "json_depth (JArr vs) = Suc (foldr max (map json_depth vs) 0)"
| "json_depth (JObj kvs) = Suc (foldr max (map (\<lambda>(k, v). json_depth v) kvs) 0)"
| "json_depth _ = 0"

subsection \<open>Strings\<close>

lemma hex_value_digit: "hex_value (hex_digit n) = Some (n mod 16)"
proof -
  have "list_all (\<lambda>m. hex_value (''0123456789abcdef'' ! m) = Some m) [0..<16]"
    by (simp add: upt_rec Let_def)
  then show ?thesis by (simp add: hex_digit_def list_all_iff del: hex_value.simps)
qed

lemma byte_take: "i < n \<Longrightarrow> n \<le> length s \<Longrightarrow> byte (take n s @ u) i = byte s i"
  by (simp add: byte_def nth_append)

lemma cont_byte: "cont (byte s i) \<Longrightarrow> i < length s" "0x80 \<le> byte s i \<Longrightarrow> i < length s"
  by (auto simp: cont_def byte_def split: if_splits)

lemma utf8_size_le: "utf8_size s \<le> length s"
  using cont_byte(1) [of s 1] cont_byte(1) [of s 2] cont_byte(1) [of s 3]
  by (cases s) (auto simp: utf8_size_def Let_def numeral_eq_Suc Suc_le_eq)

lemma utf8_size_iff:
  "utf8_size s = Suc 0 \<longleftrightarrow> s \<noteq> [] \<and> byte s 0 < 0x80"
  "utf8_size s = 2 \<longleftrightarrow> s \<noteq> [] \<and> 0xC2 \<le> byte s 0 \<and> byte s 0 < 0xE0 \<and> cont (byte s 1)"
  "utf8_size s = 3 \<longleftrightarrow> s \<noteq> [] \<and> 0xE0 \<le> byte s 0 \<and> byte s 0 < 0xF0 \<and>
     (if byte s 0 = 0xE0 then 0xA0 else 0x80) \<le> byte s 1 \<and> byte s 1 \<le> (if byte s 0 = 0xED then 0x9F else 0xBF) \<and>
     cont (byte s 2)"
  "utf8_size s = 4 \<longleftrightarrow> s \<noteq> [] \<and> 0xF0 \<le> byte s 0 \<and> byte s 0 < 0xF5 \<and>
     (if byte s 0 = 0xF0 then 0x90 else 0x80) \<le> byte s 1 \<and> byte s 1 \<le> (if byte s 0 = 0xF4 then 0x8F else 0xBF) \<and>
     cont (byte s 2) \<and> cont (byte s 3)"
  unfolding utf8_size_def Let_def by simp_all

lemma utf8_size_cases: "utf8_size s \<noteq> 0 \<Longrightarrow> utf8_size s \<in> {Suc 0, 2, 3, 4}"
proof -
  have pick: "x \<in> S \<Longrightarrow> y \<in> S \<Longrightarrow> (if b then x else y) \<in> S" for b and x y :: nat and S by simp
  have "utf8_size s \<in> {0, Suc 0, 2, 3, 4}"
    unfolding utf8_size_def Let_def by (intro pick) simp_all
  then show "utf8_size s \<noteq> 0 \<Longrightarrow> utf8_size s \<in> {Suc 0, 2, 3, 4}" by simp
qed

lemma utf8_size_prefix:
  assumes s: "utf8_size s = n" "n \<noteq> 0" and b: "\<And>i. i < n \<Longrightarrow> byte v i = byte s i" and v: "v \<noteq> []"
  shows "utf8_size v = n"
proof -
  consider "n = Suc 0" | "n = 2" | "n = 3" | "n = 4"
    using utf8_size_cases [of s] s by auto
  then show ?thesis
  proof cases
    case 1
    then show ?thesis using s(1) b [of 0] v by (simp add: utf8_size_iff)
  next
    case 2
    then show ?thesis using s(1) b [of 0] b [of 1] v by (simp add: utf8_size_iff)
  next
    case 3
    then show ?thesis using s(1) b [of 0] b [of 1] b [of 2] v by (simp add: utf8_size_iff)
  next
    case 4
    then show ?thesis using s(1) b [of 0] b [of 1] b [of 2] b [of 3] v by (simp add: utf8_size_iff)
  qed
qed

lemma utf8_size_take:
  assumes "utf8_size s \<noteq> 0"
  shows "utf8_size (take (utf8_size s) s @ u) = utf8_size s"
proof (rule utf8_size_prefix [OF refl assms])
  show "byte (take (utf8_size s) s @ u) i = byte s i" if "i < utf8_size s" for i
    using byte_take [OF that utf8_size_le] .
  show "take (utf8_size s) s @ u \<noteq> []" using assms by (auto simp: utf8_size_def)
qed

lemma ascii_utf8_valid: "list_all (\<lambda>c. of_char c < (128 :: nat)) s \<Longrightarrow> utf8_valid s"
proof (induction s)
  case (Cons c s)
  then have "utf8_size (c # s) = Suc 0" by (simp add: utf8_size_iff byte_def)
  with Cons show ?case by (simp add: utf8_valid.simps [of "c # s"])
qed (simp add: utf8_valid.simps)

lemma special_chars [simp]:
  "of_char quote = (34 :: nat)" "of_char bslash = (92 :: nat)" "quote \<noteq> bslash" "bslash \<noteq> quote"
  by (simp_all add: quote_def bslash_def)

lemma lex_string_plain:
  "c \<noteq> quote \<Longrightarrow> c \<noteq> bslash \<Longrightarrow> 32 \<le> (of_char c :: nat) \<Longrightarrow> (of_char c :: nat) < 0x80 \<Longrightarrow>
   lex_string (c # u) = prepend [c] (lex_string u)"
  by (simp add: lex_string.simps [of "c # u"])

lemma lex_string_escape:
  "simple_escape e = Some b \<Longrightarrow> lex_string (bslash # e # u) = prepend [b] (lex_string u)"
  by (subst lex_string.simps) (auto simp: simple_escape_def quote_def bslash_def split: if_splits)

lemma lex_string_unicode:
  "hex4 es = Some r \<Longrightarrow> \<not> (0xD800 \<le> r \<and> r < 0xE000) \<Longrightarrow>
   lex_string (bslash # CHR ''u'' # es) = prepend (encode_rune r) (lex_string (drop 4 es))"
  by (subst lex_string.simps) auto

lemma lex_string_ascii:
  assumes c: "(of_char c :: nat) < 0x80"
  shows "lex_string (escape_ascii c @ u) = prepend [c] (lex_string u)"
proof -
  let ?n = "of_char c :: nat"
  have eq: "char_of ?n = c" by simp
  consider "c = bslash \<or> c = quote" | "?n \<in> {8, 12, 10, 13, 9}"
    | "?n < 32" "?n \<notin> {8, 12, 10, 13, 9}" | "32 \<le> ?n" "c \<noteq> bslash" "c \<noteq> quote" by force
  then show ?thesis
  proof cases
    case 1
    then show ?thesis by (auto simp: escape_ascii_def Let_def simple_escape_def intro!: lex_string_escape)
  next
    case 2
    then have "?n \<in> {of_char (CHR 0x08), of_char (CHR 0x0C), of_char (CHR 0x0A), of_char (CHR 0x0D), of_char (CHR 0x09)}"
      by simp
    then have "c \<in> {CHR 0x08, CHR 0x0C, CHR 0x0A, CHR 0x0D, CHR 0x09}"
      by (simp only: insert_iff empty_iff of_char_eq_iff)
    then show ?thesis
      by (auto simp: escape_ascii_def Let_def simple_escape_def bslash_def quote_def intro!: lex_string_escape [unfolded bslash_def])
  next
    case 3
    then have "c \<noteq> bslash" "c \<noteq> quote" by auto
    with 3 have esc: "escape_ascii c = bslash # CHR ''u'' # [CHR ''0'', CHR ''0'', hex_digit (?n div 16), hex_digit ?n]"
      by (simp add: escape_ascii_def Let_def)
    have "hex4 ([CHR ''0'', CHR ''0'', hex_digit (?n div 16), hex_digit ?n] @ u) = Some ?n"
      using c by (simp add: hex_value_digit del: hex_value.simps) (simp add: Let_def)
    from lex_string_unicode [OF this] show ?thesis
      using c by (simp add: esc encode_rune_def)
  next
    case 4
    with c show ?thesis by (simp add: escape_ascii_def Let_def lex_string_plain)
  qed
qed

lemma string_of_bytes:
  assumes "n \<le> length s"
  shows "take n s = map (\<lambda>i. char_of (byte s i)) [0..<n]"
  using assms by (intro nth_equalityI) (auto simp: byte_def)

lemma lex_string_body: "utf8_valid s \<Longrightarrow> lex_string (json_body s @ quote # rest) = Some (s, rest)"
proof (induction s rule: json_body.induct)
  case (1 s)
  consider "s = []" | "s \<noteq> []" "byte s 0 < 0x80"
    | "s \<noteq> []" "\<not> byte s 0 < 0x80" "byte s 0 = 0xE2 \<and> byte s 1 = 0x80 \<and> (byte s 2 = 0xA8 \<or> byte s 2 = 0xA9)"
    | "s \<noteq> []" "\<not> byte s 0 < 0x80" "\<not> (byte s 0 = 0xE2 \<and> byte s 1 = 0x80 \<and> (byte s 2 = 0xA8 \<or> byte s 2 = 0xA9))"
    by blast
  then show ?case
  proof cases
    case 1
    then show ?thesis by (simp add: json_body.simps lex_string.simps [of "quote # rest"])
  next
    case 2
    then have size: "utf8_size s = 1" by (simp add: utf8_size_def Let_def)
    with 2 "1.prems" have "utf8_valid (drop 1 s)" by (simp add: utf8_valid.simps [of s])
    with 2 "1.IH"(1) have "lex_string (json_body (drop 1 s) @ quote # rest) = Some (drop 1 s, rest)" by simp
    moreover have "(of_char (hd s) :: nat) < 0x80" "s = hd s # drop 1 s"
      using 2 by (cases s; simp add: byte_def)+
    ultimately show ?thesis
      using 2 lex_string_ascii [of "hd s" "json_body (drop 1 s) @ quote # rest"]
      by (simp add: json_body.simps [of s] prepend_def)
  next
    case 3
    have size: "utf8_size s = 3" using 3 by (auto simp: utf8_size_iff cont_def)
    with 3 "1.prems" have "utf8_valid (drop 3 s)" by (simp add: utf8_valid.simps [of s])
    with 3 size "1.IH"(3) have ih: "lex_string (json_body (drop 3 s) @ quote # rest) = Some (drop 3 s, rest)" by simp
    have up: "[0..<3] = [0, 1, 2 :: nat]" by (simp add: upt_rec)
    have enc: "encode_rune 0x2028 = map char_of [0xE2, 0x80, 0xA8 :: nat]" "encode_rune 0x2029 = map char_of [0xE2, 0x80, 0xA9 :: nat]"
      by (simp_all add: encode_rune_def)
    have t: "take 3 s = encode_rune (if byte s 2 = 0xA8 then 0x2028 else 0x2029)"
      using 3(3) string_of_bytes [of 3 s] utf8_size_le [of s] size by (auto simp add: up enc)
    have "hex4 (''202'' @ (if byte s 2 = 0xA8 then CHR ''8'' else CHR ''9'') # v) = Some (if byte s 2 = 0xA8 then 0x2028 else 0x2029)"
      for v by (simp add: Let_def)
    from lex_string_unicode [OF this] ih have
      "lex_string (bslash # CHR ''u'' # ''202'' @ (if byte s 2 = 0xA8 then CHR ''8'' else CHR ''9'') # json_body (drop 3 s) @ quote # rest)
        = prepend (encode_rune (if byte s 2 = 0xA8 then 0x2028 else 0x2029)) (Some (drop 3 s, rest))"
      by simp
    then show ?thesis
      using 3 size by (simp add: json_body.simps [of s] prepend_def flip: t)
  next
    case 4
    have size: "utf8_size s \<noteq> 0" using 4 "1.prems" by (auto simp: utf8_valid.simps [of s] split: if_splits)
    with 4 "1.prems" have "utf8_valid (drop (utf8_size s) s)" by (simp add: utf8_valid.simps [of s])
    with 4 size "1.IH"(4) have ih:
      "lex_string (json_body (drop (utf8_size s) s) @ quote # rest) = Some (drop (utf8_size s) s, rest)" by simp
    let ?u = "take (utf8_size s) s @ json_body (drop (utf8_size s) s) @ quote # rest"
    have u: "utf8_size ?u = utf8_size s" by (rule utf8_size_take [OF size])
    have hd: "?u = hd s # tl ?u" using 4(1) size by (cases s) (auto simp: take_Cons')
    have "0x80 \<le> (of_char (hd s) :: nat)" using 4 by (cases s) (auto simp: byte_def)
    moreover from this have "hd s \<noteq> quote" "hd s \<noteq> bslash" by auto
    ultimately have "lex_string ?u = prepend (take (utf8_size s) ?u) (lex_string (drop (utf8_size s) ?u))"
      using u size by (subst lex_string.simps, subst (1) hd) simp
    also have "\<dots> = Some (s, rest)"
      using ih utf8_size_le [of s] by (simp add: prepend_def)
    finally show ?thesis
      using 4 size by (auto simp: json_body.simps [of s])
  qed
qed

subsection \<open>Tokens\<close>

text \<open>A text after which a number literal is complete.\<close>

definition stops :: "string \<Rightarrow> bool" where
  "stops s \<longleftrightarrow> s = [] \<or> \<not> is_digit (hd s) \<and> hd s \<notin> {CHR ''.'', CHR ''e'', CHR ''E''}"

lemma decimal_digits: "list_all is_digit (decimal n)"
proof (induction n rule: decimal.induct)
  case (1 n)
  then show ?case by (cases "n < 10") (simp_all add: decimal.simps [of n])
qed

lemma decimal_leading: "hd (decimal n) = CHR ''0'' \<longleftrightarrow> n = 0"
proof (induction n rule: decimal.induct)
  case (1 n)
  have zero: "digit_char m = CHR ''0'' \<longleftrightarrow> m = 0" if "m < 10" for m
  proof -
    have "digit_char m = CHR ''0'' \<longleftrightarrow> (of_char (digit_char m) :: nat) = of_char (CHR ''0'')" by (simp only: of_char_eq_iff)
    then show ?thesis using that by simp
  qed
  show ?case
    using 1 zero [of n] by (cases "n < 10") (simp_all add: decimal.simps [of n] hd_append)
qed

lemma integer_part_decimal:
  assumes "stops rest"
  shows "integer_part (decimal n @ rest) = Some (decimal n, rest)"
proof (cases "n = 0")
  case True
  moreover have "digit_char 0 = CHR ''0''" using decimal_leading [of 0] by (simp add: decimal.simps [of 0])
  ultimately show ?thesis by (simp add: decimal.simps [of 0] integer_part_def is_digit_def)
next
  case False
  have "takeWhile is_digit (decimal n @ rest) = decimal n @ takeWhile is_digit rest"
    "dropWhile is_digit (decimal n @ rest) = dropWhile is_digit rest"
    using decimal_digits [of n] by (simp_all add: list_all_iff takeWhile_append2 dropWhile_append2)
  moreover have "takeWhile is_digit rest = [] \<and> dropWhile is_digit rest = rest"
    using assms by (cases rest) (auto simp: stops_def)
  ultimately show ?thesis
    using False decimal_hd [of n] decimal_leading [of n] by (simp add: integer_part_def hd_append)
qed

lemma lex_number_FormatInt:
  assumes "stops rest"
  shows "lex_number (FormatInt i @ rest) = Some (FormatInt i, rest)"
proof -
  have "fraction_part rest = Some ([], rest)" "exponent_part rest = Some ([], rest)"
    using assms by (auto simp: fraction_part_def exponent_part_def stops_def)
  then show ?thesis
    using integer_part_decimal [OF assms] decimal_no_sign(1) [of "nat i"]
    by (simp add: lex_number_def FormatInt_def Let_def prepend_def hd_append)
qed

lemma lex_skip_token:
  assumes "lex_token s = Some (tok, rest)" and "\<not> json_space (hd s)"
  shows "lex s = map_option ((#) tok) (lex rest)"
proof (cases s)
  case Nil
  with assms(1) show ?thesis by (simp add: lex_token_def)
next
  case (Cons c cs)
  with assms show ?thesis by (simp add: lex.simps [of "c # cs"])
qed

lemma lex_punctuation:
  "punctuation c = Some tok \<Longrightarrow> lex (c # rest) = map_option ((#) tok) (lex rest)"
  by (rule lex_skip_token) (auto simp: lex_token_def json_space_def split: if_splits)

lemma lex_json_string:
  assumes "utf8_valid s"
  shows "lex (json_string s @ rest) = map_option ((#) (TStr s)) (lex rest)"
proof (rule lex_skip_token)
  show "lex_token (json_string s @ rest) = Some (TStr s, rest)"
    using lex_string_body [OF assms, of rest] by (simp add: json_string_def lex_token_def quote_def)
qed (simp add: json_string_def json_space_def quote_def)

lemma FormatInt_start:
  "FormatInt i \<noteq> []" "is_digit (hd (FormatInt i)) \<or> hd (FormatInt i) = CHR ''-''"
  using decimal_hd by (auto simp: FormatInt_def)

lemma lex_json_number:
  assumes "stops rest"
  shows "lex (FormatInt i @ rest) = map_option ((#) (TNum (FormatInt i))) (lex rest)"
proof (rule lex_skip_token)
  obtain c cs where c: "FormatInt i = c # cs" "is_digit c \<or> c = CHR ''-''"
    using FormatInt_start [of i] by (cases "FormatInt i") auto
  then have no: "punctuation c = None" "c \<noteq> quote" "c \<notin> {CHR ''t'', CHR ''f'', CHR ''n''}" "\<not> json_space c"
    by (auto simp: is_digit_def quote_def json_space_def)
  then show "lex_token (FormatInt i @ rest) = Some (TNum (FormatInt i), rest)"
    using lex_number_FormatInt [OF assms, of i] c(1) by (simp add: lex_token_def del: punctuation.simps)
  show "\<not> json_space (hd (FormatInt i @ rest))" using no c(1) by simp
qed

lemma lex_joined:
  assumes "\<And>x rest. x \<in> set xs \<Longrightarrow> stops rest \<Longrightarrow> lex (text x @ rest) = map_option (\<lambda>ts. toks x @ ts) (lex rest)"
    and "stops rest"
  shows "lex (joined (CHR '','') (map text xs) @ rest) = map_option (\<lambda>ts. joined TComma (map toks xs) @ ts) (lex rest)"
  using assms
proof (induction xs)
  case (Cons x xs)
  show ?case
  proof (cases xs)
    case Nil
    then show ?thesis using Cons.prems by simp
  next
    case (Cons y ys)
    have "stops (CHR '','' # joined (CHR '','') (map text xs) @ rest)" by (simp add: stops_def is_digit_def)
    from Cons.prems(1) [OF _ this, of x] Cons.IH [OF Cons.prems(1) Cons.prems(2)] show ?thesis
      using Cons by (simp add: lex_punctuation option.map_comp comp_def)
  qed
qed (cases "lex rest"; simp)

lemma lex_json_text:
  "json_wf j \<Longrightarrow> stops rest \<Longrightarrow> lex (json_text j @ rest) = map_option (\<lambda>ts. tokens j @ ts) (lex rest)"
proof (induction j arbitrary: rest)
  case JNull
  show ?case by (rule lex_skip_token [THEN trans]) (simp_all add: lex_token_def json_space_def quote_def)
next
  case (JBool b)
  show ?case by (cases b; rule lex_skip_token [THEN trans]) (simp_all add: lex_token_def json_space_def quote_def)
next
  case (JNum n)
  then show ?case by (auto simp: lex_json_number)
next
  case (JStr s)
  then show ?case by (simp add: lex_json_string)
next
  case (JArr vs)
  have "lex (joined (CHR '','') (map json_text vs) @ '']'' @ rest)
      = map_option (\<lambda>ts. joined TComma (map tokens vs) @ ts) (lex ('']'' @ rest))"
    by (rule lex_joined) (use JArr in \<open>auto simp: stops_def is_digit_def\<close>)
  then show ?case by (simp add: lex_punctuation option.map_comp comp_def)
next
  case (JObj kvs)
  have field: "lex ((case p of (k, v) \<Rightarrow> json_string k @ '':'' @ json_text v) @ r)
      = map_option (\<lambda>ts. (case p of (k, v) \<Rightarrow> TStr k # TColon # tokens v) @ ts) (lex r)"
    if "p \<in> set kvs" "stops r" for p r
  proof -
    obtain k v where p: "p = (k, v)" by force
    then have "utf8_valid k" "json_wf v" using JObj.prems(1) that(1) by auto
    moreover have "lex (json_text v @ r) = map_option (\<lambda>ts. tokens v @ ts) (lex r)"
      using JObj.IH [of p v r] that p calculation by simp
    ultimately show ?thesis by (simp add: p lex_json_string lex_punctuation option.map_comp comp_def)
  qed
  have "lex (joined (CHR '','') (map (\<lambda>(k, v). json_string k @ '':'' @ json_text v) kvs) @ CHR ''}'' # rest)
      = map_option (\<lambda>ts. joined TComma (map (\<lambda>(k, v). TStr k # TColon # tokens v) kvs) @ ts) (lex (CHR ''}'' # rest))"
    by (rule lex_joined) (use field in \<open>auto simp: stops_def is_digit_def\<close>)
  then show ?case by (simp add: lex_punctuation option.map_comp comp_def)
qed

subsection \<open>Values\<close>

lemma depth_member: "v \<in> set vs \<Longrightarrow> f v \<le> foldr max (map f vs) (0 :: nat)"
  by (induction vs) auto

lemma parse_elements:
  assumes "\<And>v st toks. v \<in> set vs \<Longrightarrow> f v + length st \<le> n \<Longrightarrow>
      parse_tokens Value st (tokens v @ toks) = parse_tokens (Finished v) st toks"
    and "vs \<noteq> []" and "foldr max (map f vs) 0 + Suc (length st) \<le> n"
  shows "parse_tokens Value (FArr acc # st) (joined TComma (map tokens vs) @ TRBrack # toks)
    = parse_tokens (Finished (JArr (rev acc @ vs))) st toks"
  using assms
proof (induction vs arbitrary: acc)
  case (Cons v vs)
  have v: "parse_tokens Value (FArr acc # st) (tokens v @ r) = parse_tokens (Finished v) (FArr acc # st) r" for r
    by (rule Cons.prems(1)) (use Cons.prems(3) in auto)
  show ?case
  proof (cases vs)
    case Nil
    then show ?thesis using v by (simp add: parse_step_def)
  next
    case (Cons w ws)
    then have "parse_tokens Value (FArr (v # acc) # st) (joined TComma (map tokens vs) @ TRBrack # toks)
        = parse_tokens (Finished (JArr (rev (v # acc) @ vs))) st toks"
      using Cons.prems(1,3) by (intro Cons.IH) auto
    then show ?thesis using v Cons by (simp add: parse_step_def)
  qed
qed simp

lemma parse_members:
  assumes "\<And>k v st toks. (k, v) \<in> set kvs \<Longrightarrow> f v + length st \<le> n \<Longrightarrow>
      parse_tokens Value st (tokens v @ toks) = parse_tokens (Finished v) st toks"
    and "kvs \<noteq> []" and "foldr max (map (\<lambda>(k, v). f v) kvs) 0 + Suc (length st) \<le> n"
  shows "parse_tokens (Key acc) st (joined TComma (map (\<lambda>(k, v). TStr k # TColon # tokens v) kvs) @ TRBrace # toks)
    = parse_tokens (Finished (JObj (rev acc @ kvs))) st toks"
  using assms
proof (induction kvs arbitrary: acc)
  case (Cons p kvs)
  obtain k v where p: "p = (k, v)" by force
  have v: "parse_tokens Value (FObj acc k # st) (tokens v @ r) = parse_tokens (Finished v) (FObj acc k # st) r" for r
    by (rule Cons.prems(1)) (use Cons.prems(3) p in auto)
  show ?case
  proof (cases kvs)
    case Nil
    then show ?thesis using v p by (simp add: parse_step_def)
  next
    case (Cons w ws)
    then have "parse_tokens (Key ((k, v) # acc)) st
        (joined TComma (map (\<lambda>(k, v). TStr k # TColon # tokens v) kvs) @ TRBrace # toks)
        = parse_tokens (Finished (JObj (rev ((k, v) # acc) @ kvs))) st toks"
      using Cons.prems(1,3) by (intro Cons.IH) auto
    then show ?thesis using v p Cons by (simp add: parse_step_def)
  qed
qed simp

lemma tokens_start: "\<exists>tok toks. tokens v = tok # toks \<and> tok \<noteq> TRBrack"
  by (cases v) auto

lemma parse_tokens_value:
  "json_depth j + length st \<le> maxNestingDepth \<Longrightarrow>
   parse_tokens Value st (tokens j @ toks) = parse_tokens (Finished j) st toks"
proof (induction j arbitrary: st toks)
  case (JArr vs)
  then have room: "\<not> maxNestingDepth \<le> length st" by simp
  show ?case
  proof (cases vs)
    case Nil
    then show ?thesis using room by (simp add: parse_step_def start_value_def)
  next
    case (Cons v vs')
    obtain tok r where t: "tokens v = tok # r" "tok \<noteq> TRBrack" using tokens_start by blast
    have first: "parse_step ValueOrEnd (FArr [] # st) tok = parse_step Value (FArr [] # st) tok"
      using t(2) by (simp add: parse_step_def split: token.splits)
    obtain r' where "joined TComma (map tokens vs) @ TRBrack # toks = tok # r'"
      using t(1) Cons by (cases vs') auto
    then have "parse_tokens ValueOrEnd (FArr [] # st) (joined TComma (map tokens vs) @ TRBrack # toks)
        = parse_tokens Value (FArr [] # st) (joined TComma (map tokens vs) @ TRBrack # toks)"
      by (simp add: first)
    also have "\<dots> = parse_tokens (Finished (JArr (rev [] @ vs))) st toks"
      by (rule parse_elements [where n = maxNestingDepth and f = json_depth]) (use JArr Cons in auto)
    finally show ?thesis using room by (simp add: parse_step_def start_value_def)
  qed
next
  case (JObj kvs)
  then have room: "\<not> maxNestingDepth \<le> length st" by simp
  show ?case
  proof (cases kvs)
    case Nil
    then show ?thesis using room by (simp add: parse_step_def start_value_def)
  next
    case (Cons p kvs')
    have step: "parse_step (KeyOrEnd []) st (TStr k) = parse_step (Key []) st (TStr k)" for k
      by (simp add: parse_step_def)
    obtain k r where "joined TComma (map (\<lambda>(k, v). TStr k # TColon # tokens v) kvs) @ TRBrace # toks = TStr k # r"
      using Cons by (cases kvs'; cases p) auto
    then have "parse_tokens (KeyOrEnd []) st (joined TComma (map (\<lambda>(k, v). TStr k # TColon # tokens v) kvs) @ TRBrace # toks)
        = parse_tokens (Key []) st (joined TComma (map (\<lambda>(k, v). TStr k # TColon # tokens v) kvs) @ TRBrace # toks)"
      by (simp add: step)
    also have "\<dots> = parse_tokens (Finished (JObj (rev [] @ kvs))) st toks"
      by (rule parse_members [where n = maxNestingDepth and f = json_depth]) (use JObj Cons in \<open>auto simp: case_prod_beta\<close>)
    finally show ?thesis using room by (simp add: parse_step_def start_value_def)
  qed
qed (simp_all add: parse_step_def start_value_def)

text \<open>Trailing white space is skipped.\<close>

lemma lex_spaces: "list_all json_space ws \<Longrightarrow> lex ws = Some []"
  by (induction ws) (simp_all add: lex.simps)

lemma json_parse_text:
  assumes "json_wf j" and "json_depth j \<le> maxNestingDepth" and "list_all json_space ws"
  shows "json_parse (json_text j @ ws) = Some j"
proof -
  have "stops ws" using assms(3) by (cases ws) (auto simp: stops_def json_space_def is_digit_def)
  from lex_json_text [OF assms(1) this] lex_spaces [OF assms(3)]
  have "lex (json_text j @ ws) = Some (tokens j @ [])" by simp
  then show ?thesis
    using parse_tokens_value [of j "[]" "[]"] assms(2) by (simp add: json_parse_def)
qed

end
