(* ===== verification/Go_Base64.thy ===== *)
theory Go_Base64
  imports Go_Strings
begin

text \<open>
  Go's \<^verbatim>\<open>encoding/base64\<close>: the standard encoding with padding and the raw URL encoding without.  Like the
  library the decoder skips line breaks anywhere and does not check unused trailing bits.
\<close>

datatype b64 = StdEncoding | RawURLEncoding

definition b64_padded :: "b64 \<Rightarrow> bool" where
  "b64_padded enc \<longleftrightarrow> enc = StdEncoding"

definition b64_alphabet :: "b64 \<Rightarrow> string" where
  "b64_alphabet enc = ''ABCDEFGHIJKLMNOPQRSTUVWXYZabcdefghijklmnopqrstuvwxyz0123456789'' @
     (if enc = StdEncoding then ''+/'' else ''-_'')"

definition b64_char :: "b64 \<Rightarrow> nat \<Rightarrow> char" where
  "b64_char enc n = b64_alphabet enc ! n"

definition b64_value :: "b64 \<Rightarrow> char \<Rightarrow> nat option" where
  "b64_value enc c = (let n = length (takeWhile (\<lambda>x. x \<noteq> c) (b64_alphabet enc)) in if n < 64 then Some n else None)"

fun b64_encode :: "b64 \<Rightarrow> string \<Rightarrow> string" where
  "b64_encode enc [] = []"
| "b64_encode enc [a] =
     (let x = of_char a :: nat
      in [b64_char enc (x div 4), b64_char enc (x mod 4 * 16)] @ (if b64_padded enc then ''=='' else []))"
| "b64_encode enc [a, b] =
     (let x = of_char a :: nat; y = of_char b :: nat
      in [b64_char enc (x div 4), b64_char enc (x mod 4 * 16 + y div 16), b64_char enc (y mod 16 * 4)] @
         (if b64_padded enc then ''='' else []))"
| "b64_encode enc (a # b # c # bs) =
     (let x = of_char a :: nat; y = of_char b :: nat; z = of_char c :: nat
      in [b64_char enc (x div 4), b64_char enc (x mod 4 * 16 + y div 16), b64_char enc (y mod 16 * 4 + z div 64),
          b64_char enc (z mod 64)] @ b64_encode enc bs)"

text \<open>The bytes of a quantum of two, three or four characters.\<close>

definition b64_byte :: "nat \<Rightarrow> char" where
  "b64_byte n = char_of (n mod 256)"

definition quantum2 :: "b64 \<Rightarrow> char \<Rightarrow> char \<Rightarrow> string option" where
  "quantum2 enc a b =
     (case (b64_value enc a, b64_value enc b) of
        (Some w, Some x) \<Rightarrow> Some [b64_byte (w * 4 + x div 16)]
      | _ \<Rightarrow> None)"

definition quantum3 :: "b64 \<Rightarrow> char \<Rightarrow> char \<Rightarrow> char \<Rightarrow> string option" where
  "quantum3 enc a b c =
     (case (b64_value enc a, b64_value enc b, b64_value enc c) of
        (Some w, Some x, Some y) \<Rightarrow> Some [b64_byte (w * 4 + x div 16), b64_byte (x mod 16 * 16 + y div 4)]
      | _ \<Rightarrow> None)"

definition quantum4 :: "b64 \<Rightarrow> char \<Rightarrow> char \<Rightarrow> char \<Rightarrow> char \<Rightarrow> string option" where
  "quantum4 enc a b c d =
     (case (b64_value enc a, b64_value enc b, b64_value enc c, b64_value enc d) of
        (Some w, Some x, Some y, Some z) \<Rightarrow>
          Some [b64_byte (w * 4 + x div 16), b64_byte (x mod 16 * 16 + y div 4), b64_byte (y mod 4 * 64 + z)]
      | _ \<Rightarrow> None)"

fun b64_quanta :: "b64 \<Rightarrow> string \<Rightarrow> string option" where
  "b64_quanta enc [] = Some []"
| "b64_quanta enc [a] = None"
| "b64_quanta enc [a, b] = (if b64_padded enc then None else quantum2 enc a b)"
| "b64_quanta enc [a, b, c] = (if b64_padded enc then None else quantum3 enc a b c)"
| "b64_quanta enc (a # b # c # d # cs) =
     (if b64_padded enc \<and> d = CHR ''='' then
        (if cs \<noteq> [] then None
         else if c = CHR ''='' then quantum2 enc a b
         else quantum3 enc a b c)
      else
        (case quantum4 enc a b c d of
           None \<Rightarrow> None
         | Some bs \<Rightarrow> map_option (\<lambda>r. bs @ r) (b64_quanta enc cs)))"

definition b64_decode :: "b64 \<Rightarrow> string \<Rightarrow> string option" where
  "b64_decode enc s = b64_quanta enc (filter (\<lambda>c. c \<noteq> CHR 0x0A \<and> c \<noteq> CHR 0x0D) s)"

section \<open>Decoding what was encoded\<close>

lemma b64_chars:
  assumes "n < 64"
  shows "b64_value enc (b64_char enc n) = Some n" "b64_char enc n \<noteq> CHR ''=''" "b64_char enc n \<noteq> CHR 0x0A"
    "b64_char enc n \<noteq> CHR 0x0D" "of_char (b64_char enc n) < (128 :: nat)"
proof -
  let ?ok = "\<lambda>enc n. b64_value enc (b64_char enc n) = Some n \<and> b64_char enc n \<notin> {CHR ''='', CHR 0x0A, CHR 0x0D} \<and>
    of_char (b64_char enc n) < (128 :: nat)"
  have "list_all (?ok StdEncoding) [0..<64]" by code_simp
  moreover have "list_all (?ok RawURLEncoding) [0..<64]" by code_simp
  ultimately have "?ok enc n" using assms by (cases enc) (simp_all add: list_all_iff)
  then show "b64_value enc (b64_char enc n) = Some n" "b64_char enc n \<noteq> CHR ''=''" "b64_char enc n \<noteq> CHR 0x0A"
    "b64_char enc n \<noteq> CHR 0x0D" "of_char (b64_char enc n) < (128 :: nat)" by auto
qed

text \<open>The six-bit groups of up to three bytes.\<close>

lemma sextets:
  assumes "x < 256" "y < 256" "z < (256 :: nat)"
  shows "x div 4 < 64" "x mod 4 * 16 + y div 16 < 64" "y mod 16 * 4 + z div 64 < 64" "z mod 64 < 64" "x mod 4 * 16 < 64"
    "y mod 16 * 4 < 64" "x div 4 * 4 + (x mod 4 * 16 + y div 16) div 16 = x"
    "(x mod 4 * 16 + y div 16) mod 16 * 16 + (y mod 16 * 4 + z div 64) div 4 = y"
    "(y mod 16 * 4 + z div 64) mod 4 * 64 + z mod 64 = z"
    "x div 4 * 4 + x mod 4 * 16 div 16 = x" "(x mod 4 * 16 + y div 16) mod 16 * 16 + y mod 16 * 4 div 4 = y"
proof -
  have d: "y div 16 < 16" "z div 64 < 4" "x div 4 < 64" using assms by simp_all
  have m: "x mod 4 < 4" "y mod 16 < 16" by simp_all
  show "x div 4 < 64" "z mod 64 < 64" using d by simp_all
  show "x mod 4 * 16 + y div 16 < 64" "y mod 16 * 4 + z div 64 < 64" "x mod 4 * 16 < 64" "y mod 16 * 4 < 64"
    using d m by linarith+
  have q: "(a * n + b) div n = a" "(a * n + b) mod n = b" if "b < n" for a b n :: nat
    using that by simp_all
  show "x div 4 * 4 + (x mod 4 * 16 + y div 16) div 16 = x"
    "(x mod 4 * 16 + y div 16) mod 16 * 16 + (y mod 16 * 4 + z div 64) div 4 = y"
    "(y mod 16 * 4 + z div 64) mod 4 * 64 + z mod 64 = z"
    "x div 4 * 4 + x mod 4 * 16 div 16 = x" "(x mod 4 * 16 + y div 16) mod 16 * 16 + y mod 16 * 4 div 4 = y"
    by (simp_all only: q [OF d(1)] q [OF d(2)] div_mult_mod_eq) simp_all
qed

lemma b64_byte_of_char [simp]: "b64_byte (of_char c) = c"
  by (simp add: b64_byte_def)

lemma quanta_encode: "b64_quanta enc (b64_encode enc bs) = Some bs"
proof (induction enc bs rule: b64_encode.induct)
  case (2 enc a)
  note s = sextets [of "of_char a" 0 0]
  show ?case using s by (auto simp: Let_def quantum2_def b64_chars)
next
  case (3 enc a b)
  note s = sextets [of "of_char a" "of_char b" 0]
  show ?case using s by (auto simp: Let_def quantum3_def b64_chars)
next
  case (4 enc a b c bs)
  note s = sextets [of "of_char a" "of_char b" "of_char c"]
  show ?case using s 4 by (simp add: Let_def quantum4_def b64_chars)
qed simp

lemma encode_plain: "filter (\<lambda>c. c \<noteq> CHR 0x0A \<and> c \<noteq> CHR 0x0D) (b64_encode enc bs) = b64_encode enc bs"
proof (induction enc bs rule: b64_encode.induct)
  case (2 enc a)
  show ?case using sextets [of "of_char a" 0 0] by (simp add: Let_def b64_chars)
next
  case (3 enc a b)
  show ?case using sextets [of "of_char a" "of_char b" 0] by (simp add: Let_def b64_chars)
next
  case (4 enc a b c bs)
  show ?case using sextets [of "of_char a" "of_char b" "of_char c"] 4 by (simp add: Let_def b64_chars)
qed simp

lemma b64_decode_encode: "b64_decode enc (b64_encode enc bs) = Some bs"
  unfolding b64_decode_def encode_plain by (rule quanta_encode)

lemma b64_encode_inj: "b64_encode enc a = b64_encode enc b \<longleftrightarrow> a = b"
  by (metis b64_decode_encode option.inject)

lemma b64_ascii: "list_all (\<lambda>c. of_char c < (128 :: nat)) (b64_encode enc bs)"
proof (induction enc bs rule: b64_encode.induct)
  case (2 enc a)
  show ?case using sextets [of "of_char a" 0 0] by (simp add: Let_def b64_chars)
next
  case (3 enc a b)
  show ?case using sextets [of "of_char a" "of_char b" 0] by (simp add: Let_def b64_chars)
next
  case (4 enc a b c bs)
  show ?case using sextets [of "of_char a" "of_char b" "of_char c"] 4 by (simp add: Let_def b64_chars)
qed simp

end
