(* ===== verification/Trust_List.thy ===== *)
theory Trust_List
  imports Go_JSON Go_Base64
begin

text \<open>
  The off-host signed membership list (\<^verbatim>\<open>internal/trustlist\<close>): its canonical bytes, reading them back, and
  the verification of a detached Ed25519 signature or a WebAuthn assertion over them.  The signature
  primitives and the PKIX key parser are arguments (the record \<open>crypto\<close>); base64, JSON and SHA-256 are
  modelled.
\<close>

section \<open>Types\<close>

record member =
  mNodeID :: string
  mWGPublicKey :: string
  mBundleSHA256 :: string

record trust_list =
  tlSchemaVersion :: int
  tlTenant :: string
  tlEpoch :: int
  tlMembers :: "member list"

record signed_trust_list =
  stAlg :: string
  stCredentialID :: string
  stPublicKey :: string
  stSignature :: string
  stAuthenticatorData :: string
  stClientDataJSON :: string

text \<open>An ECDSA key: whether it is on the P-256 curve, and the key itself.\<close>

record ecdsa_key =
  ekP256 :: bool
  ekPoint :: string

datatype public_key = Ed25519Key string | ECDSAKey ecdsa_key | OtherKey string

record pinned_credential =
  pcAlg :: string
  pcCredentialID :: string
  pcEd25519Pub :: string
  pcES256Pub :: "ecdsa_key option"
  pcRPID :: string
  pcOrigin :: string

text \<open>
  \<^verbatim>\<open>ed25519.Verify\<close>, \<^verbatim>\<open>ecdsa.VerifyASN1\<close>, \<^verbatim>\<open>pem.Decode\<close> followed by \<^verbatim>\<open>x509.ParsePKIXPublicKey\<close>, and for
  the software signer \<^verbatim>\<open>ed25519.Sign\<close>, the public half of a private key and its PKIX PEM form.
\<close>

record crypto =
  crEd25519Verify :: "string \<Rightarrow> string \<Rightarrow> string \<Rightarrow> bool"
  crES256Verify :: "ecdsa_key \<Rightarrow> string \<Rightarrow> string \<Rightarrow> bool"
  crParsePublicKey :: "string \<Rightarrow> public_key option"
  crEd25519Sign :: "string \<Rightarrow> string \<Rightarrow> string"
  crEd25519Public :: "string \<Rightarrow> string"
  crMarshalPEM :: "string \<Rightarrow> string"

datatype tl_error =
    ErrAlgMismatch
  | ErrUnsupportedAlg
  | ErrBadSignature
  | ErrChallengeMismatch
  | ErrMissingPin
  | ErrUserVerification
  | TLErr string

definition AlgEd25519 :: string where
  "AlgEd25519 = ''ed25519''"

definition AlgWebAuthnES256 :: string where
  "AlgWebAuthnES256 = ''webauthn-es256''"

definition AlgWebAuthnEdDSA :: string where
  "AlgWebAuthnEdDSA = ''webauthn-eddsa''"

section \<open>Canonical bytes\<close>

definition member_json :: "member \<Rightarrow> json" where
  "member_json m = JObj [(''node_id'', JStr (mNodeID m)), (''wg_public_key'', JStr (mWGPublicKey m)),
     (''bundle_sha256'', JStr (mBundleSHA256 m))]"

definition trust_list_json :: "trust_list \<Rightarrow> json" where
  "trust_list_json tlist = JObj [(''schema_version'', JNum (FormatInt (tlSchemaVersion tlist))), (''tenant'', JStr (tlTenant tlist)),
     (''epoch'', JNum (FormatInt (tlEpoch tlist))), (''members'', JArr (map member_json (tlMembers tlist)))]"

fun adjacent_duplicate :: "member list \<Rightarrow> bool" where
  "adjacent_duplicate (a # b # ms) \<longleftrightarrow> mNodeID b = mNodeID a \<or> adjacent_duplicate (b # ms)"
| "adjacent_duplicate _ \<longleftrightarrow> False"

definition Canonical :: "trust_list \<Rightarrow> tl_error + string" where
  "Canonical tlist =
     (let members = sort_key mNodeID (tlMembers tlist)
      in if adjacent_duplicate members then Inl (TLErr ''duplicate node_id'')
         else Inr (json_text (trust_list_json (tlist\<lparr>tlMembers := members\<rparr>)) @ [CHR 0x0A]))"

definition sha256_bytes :: "string \<Rightarrow> string" where
  "sha256_bytes s = map char_of (sha256 s)"

definition Challenge :: "trust_list \<Rightarrow> tl_error + string" where
  "Challenge tlist = (case Canonical tlist of Inl e \<Rightarrow> Inl e | Inr c \<Rightarrow> Inr (sha256_bytes c))"

section \<open>Reading\<close>

definition zero_member :: member where
  "zero_member = \<lparr>mNodeID = [], mWGPublicKey = [], mBundleSHA256 = []\<rparr>"

definition zero_trust_list :: trust_list where
  "zero_trust_list = \<lparr>tlSchemaVersion = 0, tlTenant = [], tlEpoch = 0, tlMembers = []\<rparr>"

definition assign_member :: "string \<Rightarrow> json \<Rightarrow> member \<Rightarrow> member option" where
  "assign_member f v m =
     (if f = ''node_id'' then map_option (\<lambda>x. m\<lparr>mNodeID := x\<rparr>) (decode_string v (mNodeID m))
      else if f = ''wg_public_key'' then map_option (\<lambda>x. m\<lparr>mWGPublicKey := x\<rparr>) (decode_string v (mWGPublicKey m))
      else map_option (\<lambda>x. m\<lparr>mBundleSHA256 := x\<rparr>) (decode_string v (mBundleSHA256 m)))"

definition decode_member :: "json \<Rightarrow> member \<Rightarrow> member option" where
  "decode_member = decode_struct [''node_id'', ''wg_public_key'', ''bundle_sha256''] assign_member"

text \<open>The second component is the array behind the member slice.\<close>

definition assign_trust_list :: "string \<Rightarrow> json \<Rightarrow> trust_list \<times> member list \<Rightarrow> (trust_list \<times> member list) option" where
  "assign_trust_list f v s =
     (case s of (tlist, back) \<Rightarrow>
        if f = ''schema_version'' then map_option (\<lambda>x. (tlist\<lparr>tlSchemaVersion := x\<rparr>, back)) (decode_int v (tlSchemaVersion tlist))
        else if f = ''tenant'' then map_option (\<lambda>x. (tlist\<lparr>tlTenant := x\<rparr>, back)) (decode_string v (tlTenant tlist))
        else if f = ''epoch'' then map_option (\<lambda>x. (tlist\<lparr>tlEpoch := x\<rparr>, back)) (decode_int v (tlEpoch tlist))
        else
          (case v of
             JNull \<Rightarrow> Some (tlist\<lparr>tlMembers := []\<rparr>, [])
           | JArr vs \<Rightarrow>
               (if vs = [] then Some (tlist\<lparr>tlMembers := []\<rparr>, [])
                else map_option (\<lambda>ms. (tlist\<lparr>tlMembers := ms\<rparr>, ms @ drop (length ms) back))
                  (decode_elements decode_member zero_member vs back))
           | _ \<Rightarrow> None))"

definition unmarshal_trust_list :: "string \<Rightarrow> trust_list option" where
  "unmarshal_trust_list s =
     (case json_parse s of
        None \<Rightarrow> None
      | Some v \<Rightarrow> map_option fst
          (decode_struct [''schema_version'', ''tenant'', ''epoch'', ''members''] assign_trust_list v (zero_trust_list, [])))"

definition zero_signed :: signed_trust_list where
  "zero_signed = \<lparr>stAlg = [], stCredentialID = [], stPublicKey = [], stSignature = [], stAuthenticatorData = [], stClientDataJSON = []\<rparr>"

definition assign_signed :: "string \<Rightarrow> json \<Rightarrow> signed_trust_list \<Rightarrow> signed_trust_list option" where
  "assign_signed f v a =
     (if f = ''alg'' then map_option (\<lambda>x. a\<lparr>stAlg := x\<rparr>) (decode_string v (stAlg a))
      else if f = ''credential_id'' then map_option (\<lambda>x. a\<lparr>stCredentialID := x\<rparr>) (decode_string v (stCredentialID a))
      else if f = ''public_key'' then map_option (\<lambda>x. a\<lparr>stPublicKey := x\<rparr>) (decode_string v (stPublicKey a))
      else if f = ''signature'' then map_option (\<lambda>x. a\<lparr>stSignature := x\<rparr>) (decode_string v (stSignature a))
      else if f = ''authenticator_data'' then map_option (\<lambda>x. a\<lparr>stAuthenticatorData := x\<rparr>) (decode_string v (stAuthenticatorData a))
      else map_option (\<lambda>x. a\<lparr>stClientDataJSON := x\<rparr>) (decode_string v (stClientDataJSON a)))"

definition unmarshal_signed :: "string \<Rightarrow> signed_trust_list option" where
  "unmarshal_signed s =
     (case json_parse s of
        None \<Rightarrow> None
      | Some v \<Rightarrow> decode_struct [''alg'', ''credential_id'', ''public_key'', ''signature'', ''authenticator_data'', ''client_data_json'']
          assign_signed v zero_signed)"

text \<open>\<^verbatim>\<open>json.Marshal\<close> of the signature; the last two members are left out when empty.\<close>

definition signed_json :: "signed_trust_list \<Rightarrow> json" where
  "signed_json a = JObj ([(''alg'', JStr (stAlg a)), (''credential_id'', JStr (stCredentialID a)),
     (''public_key'', JStr (stPublicKey a)), (''signature'', JStr (stSignature a))] @
     (if stAuthenticatorData a = [] then [] else [(''authenticator_data'', JStr (stAuthenticatorData a))]) @
     (if stClientDataJSON a = [] then [] else [(''client_data_json'', JStr (stClientDataJSON a))]))"

section \<open>Assertions\<close>

record client_data =
  cdType :: string
  cdChallenge :: string
  cdOrigin :: string

definition assign_client :: "string \<Rightarrow> json \<Rightarrow> client_data \<Rightarrow> client_data option" where
  "assign_client f v c =
     (if f = ''type'' then map_option (\<lambda>x. c\<lparr>cdType := x\<rparr>) (decode_string v (cdType c))
      else if f = ''challenge'' then map_option (\<lambda>x. c\<lparr>cdChallenge := x\<rparr>) (decode_string v (cdChallenge c))
      else map_option (\<lambda>x. c\<lparr>cdOrigin := x\<rparr>) (decode_string v (cdOrigin c)))"

definition unmarshal_client :: "string list \<Rightarrow> string \<Rightarrow> client_data option" where
  "unmarshal_client names s =
     (case json_parse s of
        None \<Rightarrow> None
      | Some v \<Rightarrow> decode_struct names assign_client v \<lparr>cdType = [], cdChallenge = [], cdOrigin = []\<rparr>)"

definition authDataMinLen :: nat where
  "authDataMinLen = 37"

text \<open>A flag bit of the authenticator data.\<close>

definition flag_set :: "nat \<Rightarrow> string \<Rightarrow> bool" where
  "flag_set flag authData \<longleftrightarrow> (of_char (authData ! 32) :: nat) div flag mod 2 = 1"

definition flagUserPresent :: nat where
  "flagUserPresent = 1"

definition flagUserVerified :: nat where
  "flagUserVerified = 4"

definition constEqual :: "string \<Rightarrow> string \<Rightarrow> bool" where
  "constEqual a b \<longleftrightarrow>
     (if length a \<noteq> length b then False
      else foldl (\<lambda>v (x, y). or v (xor (of_char x) (of_char y))) (0 :: nat) (zip a b) = 0)"

definition assertion_signature :: "crypto \<Rightarrow> pinned_credential \<Rightarrow> string \<Rightarrow> string \<Rightarrow> tl_error option" where
  "assertion_signature cr pin msg sig =
     (if pcAlg pin = AlgWebAuthnES256 then
        (case pcES256Pub pin of
           None \<Rightarrow> Some ErrMissingPin
         | Some k \<Rightarrow>
             (if \<not> ekP256 k then Some ErrMissingPin
              else if \<not> crES256Verify cr k (sha256_bytes msg) sig then Some ErrBadSignature
              else None))
      else if pcAlg pin = AlgWebAuthnEdDSA then
        (if length (pcEd25519Pub pin) \<noteq> 32 then Some ErrMissingPin
         else if \<not> crEd25519Verify cr (pcEd25519Pub pin) msg sig then Some ErrBadSignature
         else None)
      else Some ErrUnsupportedAlg)"

definition verify_assertion :: "crypto \<Rightarrow> signed_trust_list \<Rightarrow> pinned_credential \<Rightarrow> string \<Rightarrow> tl_error option" where
  "verify_assertion cr art pin wantChallenge =
     (if pcRPID pin = [] then Some (TLErr ''webauthn pin has empty RPID'')
      else case b64_decode RawURLEncoding (stAuthenticatorData art) of
        None \<Rightarrow> Some (TLErr ''decode authenticator_data'')
      | Some authData \<Rightarrow>
          (case b64_decode RawURLEncoding (stClientDataJSON art) of
             None \<Rightarrow> Some (TLErr ''decode client_data_json'')
           | Some cData \<Rightarrow>
               (if length authData < authDataMinLen then Some (TLErr ''authenticator_data too short'')
                else case unmarshal_client [''type'', ''challenge'', ''origin''] cData of
                  None \<Rightarrow> Some (TLErr ''parse client_data_json'')
                | Some cd \<Rightarrow>
                    (if cdType cd \<noteq> ''webauthn.get'' then Some (TLErr ''client_data type'')
                     else if cdChallenge cd \<noteq> b64_encode RawURLEncoding wantChallenge then Some ErrChallengeMismatch
                     else if \<not> constEqual (take 32 authData) (sha256_bytes (pcRPID pin)) then Some (TLErr ''rpIdHash mismatch'')
                     else if \<not> flag_set flagUserPresent authData then Some (TLErr ''User-Present flag not set'')
                     else if pcOrigin pin \<noteq> [] \<and> cdOrigin cd \<noteq> pcOrigin pin then Some (TLErr ''client_data origin'')
                     else case b64_decode RawURLEncoding (stSignature art) of
                       None \<Rightarrow> Some (TLErr ''decode webauthn signature'')
                     | Some sig \<Rightarrow> assertion_signature cr pin (authData @ sha256_bytes cData) sig))))"

definition verifyWebAuthn :: "crypto \<Rightarrow> trust_list \<Rightarrow> signed_trust_list \<Rightarrow> pinned_credential \<Rightarrow> tl_error option" where
  "verifyWebAuthn cr tlist art pin =
     (case Challenge tlist of Inl e \<Rightarrow> Some e | Inr chal \<Rightarrow> verify_assertion cr art pin chal)"

definition VerifyAssertion :: "crypto \<Rightarrow> signed_trust_list \<Rightarrow> pinned_credential \<Rightarrow> string \<Rightarrow> tl_error option" where
  "VerifyAssertion cr art pin challenge =
     (if stAlg art \<noteq> pcAlg pin then Some ErrAlgMismatch
      else if pcAlg pin = AlgWebAuthnES256 \<or> pcAlg pin = AlgWebAuthnEdDSA then verify_assertion cr art pin challenge
      else Some ErrUnsupportedAlg)"

definition VerifyUserVerifiedAssertion ::
  "crypto \<Rightarrow> signed_trust_list \<Rightarrow> pinned_credential \<Rightarrow> string \<Rightarrow> tl_error option" where
  "VerifyUserVerifiedAssertion cr art pin challenge =
     (if pcCredentialID pin = [] \<or> stCredentialID art \<noteq> pcCredentialID pin then Some (TLErr ''enrollment proof credential_id'')
      else case VerifyAssertion cr art pin challenge of
        Some e \<Rightarrow> Some e
      | None \<Rightarrow>
          (case b64_decode RawURLEncoding (stAuthenticatorData art) of
             None \<Rightarrow> Some (TLErr ''decode authenticator_data'')
           | Some authData \<Rightarrow>
               (if length authData < authDataMinLen then Some (TLErr ''authenticator_data too short'')
                else if \<not> flag_set flagUserVerified authData then Some ErrUserVerification
                else None)))"

definition AssertionChallenge :: "signed_trust_list \<Rightarrow> tl_error + string" where
  "AssertionChallenge art =
     (case b64_decode RawURLEncoding (stClientDataJSON art) of
        None \<Rightarrow> Inl (TLErr ''decode client_data_json'')
      | Some cData \<Rightarrow>
          (case unmarshal_client [''challenge''] cData of
             None \<Rightarrow> Inl (TLErr ''parse client_data_json'')
           | Some cd \<Rightarrow> Inr (cdChallenge cd)))"

section \<open>The verifier\<close>

text \<open>\<^verbatim>\<open>bundlesig.Verify\<close>.\<close>

definition bundlesig_Verify :: "crypto \<Rightarrow> string \<Rightarrow> string \<Rightarrow> string \<Rightarrow> bool" where
  "bundlesig_Verify cr canonical sig pub \<longleftrightarrow>
     (if length pub \<noteq> 32 \<or> length sig \<noteq> 64 then False else crEd25519Verify cr pub canonical sig)"

definition verifyEd25519 :: "crypto \<Rightarrow> trust_list \<Rightarrow> signed_trust_list \<Rightarrow> pinned_credential \<Rightarrow> tl_error option" where
  "verifyEd25519 cr tlist art pin =
     (if pcEd25519Pub pin = [] then Some ErrMissingPin
      else case Canonical tlist of
        Inl e \<Rightarrow> Some e
      | Inr c \<Rightarrow>
          (case b64_decode RawURLEncoding (stSignature art) of
             None \<Rightarrow> Some (TLErr ''decode ed25519 signature'')
           | Some sig \<Rightarrow> (if \<not> bundlesig_Verify cr c sig (pcEd25519Pub pin) then Some ErrBadSignature else None)))"

definition Verify :: "crypto \<Rightarrow> trust_list \<Rightarrow> signed_trust_list \<Rightarrow> pinned_credential \<Rightarrow> tl_error option" where
  "Verify cr tlist art pin =
     (if stAlg art \<noteq> pcAlg pin then Some ErrAlgMismatch
      else if pcAlg pin = AlgEd25519 then verifyEd25519 cr tlist art pin
      else if pcAlg pin = AlgWebAuthnES256 \<or> pcAlg pin = AlgWebAuthnEdDSA then verifyWebAuthn cr tlist art pin
      else Some ErrUnsupportedAlg)"

section \<open>Pinned keys\<close>

definition ParseEd25519PinPEM :: "crypto \<Rightarrow> string \<Rightarrow> tl_error + string" where
  "ParseEd25519PinPEM cr data =
     (case crParsePublicKey cr data of
        None \<Rightarrow> Inl (TLErr ''parse PKIX public key'')
      | Some (Ed25519Key k) \<Rightarrow> Inr k
      | Some _ \<Rightarrow> Inl (TLErr ''pin is not an ed25519 key''))"

definition ParseES256Pin :: "crypto \<Rightarrow> string \<Rightarrow> tl_error + ecdsa_key" where
  "ParseES256Pin cr data =
     (case crParsePublicKey cr data of
        None \<Rightarrow> Inl (TLErr ''parse PKIX public key'')
      | Some (ECDSAKey k) \<Rightarrow> (if \<not> ekP256 k then Inl (TLErr ''not P-256'') else Inr k)
      | Some _ \<Rightarrow> Inl (TLErr ''pin is not an ecdsa key''))"

section \<open>The software signer\<close>

definition KeyID :: "crypto \<Rightarrow> string \<Rightarrow> string" where
  "KeyID cr priv = sha256_hex (crEd25519Public cr priv)"

definition Sign :: "crypto \<Rightarrow> string \<Rightarrow> trust_list \<Rightarrow> tl_error + signed_trust_list" where
  "Sign cr priv tlist =
     (case Canonical tlist of
        Inl e \<Rightarrow> Inl e
      | Inr c \<Rightarrow> Inr \<lparr>stAlg = AlgEd25519, stCredentialID = KeyID cr priv,
          stPublicKey = crMarshalPEM cr (crEd25519Public cr priv),
          stSignature = b64_encode RawURLEncoding (crEd25519Sign cr priv c), stAuthenticatorData = [], stClientDataJSON = []\<rparr>)"

section \<open>Specification\<close>

text \<open>Values that survive JSON: valid UTF-8 and 64-bit integers.\<close>

definition int64 :: "int \<Rightarrow> bool" where
  "int64 i \<longleftrightarrow> - (2 ^ 63) \<le> i \<and> i < 2 ^ 63"

definition member_ok :: "member \<Rightarrow> bool" where
  "member_ok m \<longleftrightarrow> utf8_valid (mNodeID m) \<and> utf8_valid (mWGPublicKey m) \<and> utf8_valid (mBundleSHA256 m)"

definition trust_list_ok :: "trust_list \<Rightarrow> bool" where
  "trust_list_ok tlist \<longleftrightarrow> int64 (tlSchemaVersion tlist) \<and> int64 (tlEpoch tlist) \<and> utf8_valid (tlTenant tlist) \<and>
     list_all member_ok (tlMembers tlist)"


text \<open>An example list, and a stand-in for the signature primitives that satisfies their laws.\<close>

definition example_member :: "string \<Rightarrow> member" where
  "example_member n = \<lparr>mNodeID = n, mWGPublicKey = ''k'', mBundleSHA256 = ''d''\<rparr>"

definition example_list :: "string list \<Rightarrow> trust_list" where
  "example_list ns = \<lparr>tlSchemaVersion = 1, tlTenant = ''acme'', tlEpoch = 7, tlMembers = map example_member ns\<rparr>"

definition example_crypto :: crypto where
  "example_crypto = \<lparr>crEd25519Verify = (\<lambda>pub m sig. sig = sha256_bytes pub @ sha256_bytes m),
     crES256Verify = (\<lambda>k m sig. sig = sha256_bytes (ekPoint k) @ sha256_bytes m),
     crParsePublicKey = (\<lambda>pem. Some (Ed25519Key (sha256_bytes pem))),
     crEd25519Sign = (\<lambda>priv m. sha256_bytes (sha256_bytes priv) @ sha256_bytes m),
     crEd25519Public = sha256_bytes, crMarshalPEM = sha256_hex\<rparr>"

text \<open>The assertion an authenticator makes for a challenge, and the client data of the browser.\<close>

definition client_text :: "string \<Rightarrow> string \<Rightarrow> string" where
  "client_text chal origin = json_text (JObj [(''type'', JStr ''webauthn.get''),
     (''challenge'', JStr (b64_encode RawURLEncoding chal)), (''origin'', JStr origin)])"

definition assertion_of :: "string \<Rightarrow> string \<Rightarrow> string \<Rightarrow> string \<Rightarrow> signed_trust_list" where
  "assertion_of alg authData cData sig = \<lparr>stAlg = alg, stCredentialID = [], stPublicKey = [],
     stSignature = b64_encode RawURLEncoding sig, stAuthenticatorData = b64_encode RawURLEncoding authData,
     stClientDataJSON = b64_encode RawURLEncoding cData\<rparr>"

definition example_es256_pin :: pinned_credential where
  "example_es256_pin = \<lparr>pcAlg = AlgWebAuthnES256, pcCredentialID = ''id'', pcEd25519Pub = [],
     pcES256Pub = Some \<lparr>ekP256 = True, ekPoint = ''p''\<rparr>, pcRPID = ''rp'', pcOrigin = ''https://rp''\<rparr>"

definition example_assertion :: "string \<Rightarrow> signed_trust_list" where
  "example_assertion chal =
     (let authData = sha256_bytes ''rp'' @ CHR 0x01 # replicate 4 (CHR 0x00); cData = client_text chal ''https://rp''
      in assertion_of AlgWebAuthnES256 authData cData
           (sha256_bytes ''p'' @ sha256_bytes (sha256_bytes (authData @ sha256_bytes cData))))"

section \<open>Canonical bytes\<close>

lemma decode_member_json: "decode_member (member_json m) old = Some m"
  by (simp add: decode_member_def member_json_def decode_struct_def match_field_def assign_member_def decode_string_def)

lemma decode_members: "decode_elements decode_member zero_member (map member_json ms) old = Some ms"
  by (induction ms arbitrary: old) (simp_all add: decode_member_json)

lemma json_wf_trust_list: "trust_list_ok tlist \<Longrightarrow> json_wf (trust_list_json tlist)"
proof -
  have "utf8_valid ''node_id''" "utf8_valid ''wg_public_key''" "utf8_valid ''bundle_sha256''" "utf8_valid ''schema_version''"
    "utf8_valid ''tenant''" "utf8_valid ''epoch''" "utf8_valid ''members''"
    by code_simp+
  then show "trust_list_ok tlist \<Longrightarrow> json_wf (trust_list_json tlist)"
    by (auto simp: trust_list_json_def member_json_def trust_list_ok_def member_ok_def list_all_iff)
qed

lemma depth_trust_list: "json_depth (trust_list_json tlist) \<le> 3"
proof -
  have "foldr max (map json_depth (map member_json ms)) 0 \<le> 1" for ms
    by (induction ms) (auto simp: member_json_def)
  then show ?thesis by (simp add: trust_list_json_def comp_def)
qed

lemma read_trust_list:
  assumes "trust_list_ok tlist"
  shows "unmarshal_trust_list (json_text (trust_list_json tlist) @ [CHR 0x0A]) = Some tlist"
proof -
  have "json_parse (json_text (trust_list_json tlist) @ [CHR 0x0A]) = Some (trust_list_json tlist)"
    by (rule json_parse_text [OF json_wf_trust_list [OF assms]])
      (use depth_trust_list [of tlist] in \<open>simp_all add: maxNestingDepth_def json_space_def\<close>)
  moreover have "ParseInt (FormatInt (tlSchemaVersion tlist)) = Some (tlSchemaVersion tlist)"
    "ParseInt (FormatInt (tlEpoch tlist)) = Some (tlEpoch tlist)"
    using assms by (simp_all add: trust_list_ok_def int64_def ParseInt_FormatInt)
  ultimately show ?thesis
    using decode_members [of "tlMembers tlist" "[]"]
    by (auto simp: unmarshal_trust_list_def trust_list_json_def decode_struct_def match_field_def assign_trust_list_def
        decode_string_def decode_int_def)
qed

lemma trust_list_ok_sorted: "trust_list_ok tlist \<Longrightarrow> trust_list_ok (tlist\<lparr>tlMembers := sort_key f (tlMembers tlist)\<rparr>)"
  by (simp add: trust_list_ok_def list_all_iff)

lemma sorted_duplicates:
  "sorted (map mNodeID ms) \<Longrightarrow> adjacent_duplicate ms \<longleftrightarrow> \<not> distinct (map mNodeID ms)"
proof (induction ms rule: adjacent_duplicate.induct)
  case (1 a b ms)
  then show ?case by fastforce
qed auto

lemma Canonical_defined: "(\<exists>c. Canonical tlist = Inr c) \<longleftrightarrow> distinct (map mNodeID (tlMembers tlist))"
proof -
  have "distinct (map mNodeID (sort_key mNodeID (tlMembers tlist))) \<longleftrightarrow> distinct (map mNodeID (tlMembers tlist))"
    by (metis mset_eq_imp_distinct_iff mset_map mset_sort)
  then show ?thesis by (simp add: Canonical_def Let_def sorted_duplicates)
qed

text \<open>
  Claim C24: the canonical bytes of a trust list decode to that trust list with its members sorted by node id,
  and canonicalizing what was read gives the same bytes again.  It holds for every list whose strings
  are valid UTF-8 and whose numbers fit 64 bits; a list with a repeated node id has no canonical bytes.
\<close>

theorem canonical_trust_list_reads_back:
  assumes "trust_list_ok tlist"
  shows "(Canonical tlist = Inl (TLErr ''duplicate node_id'') \<and> \<not> distinct (map mNodeID (tlMembers tlist))) \<or>
    (\<exists>c. Canonical tlist = Inr c \<and>
       unmarshal_trust_list c = Some (tlist\<lparr>tlMembers := sort_key mNodeID (tlMembers tlist)\<rparr>) \<and>
       Canonical (the (unmarshal_trust_list c)) = Inr c)"
proof (cases "distinct (map mNodeID (tlMembers tlist))")
  case True
  then obtain c where c: "Canonical tlist = Inr c" using Canonical_defined by blast
  moreover have r: "unmarshal_trust_list c = Some (tlist\<lparr>tlMembers := sort_key mNodeID (tlMembers tlist)\<rparr>)"
    using c read_trust_list [OF trust_list_ok_sorted [OF assms]]
    by (auto simp: Canonical_def Let_def split: if_splits)
  moreover have "sort_key mNodeID (sort_key mNodeID (tlMembers tlist)) = sort_key mNodeID (tlMembers tlist)"
    by (simp add: sort_key_id_if_sorted)
  ultimately show ?thesis by (simp add: Canonical_def Let_def split: if_splits)
next
  case False
  then have "\<nexists>c. Canonical tlist = Inr c" using Canonical_defined by blast
  with False show ?thesis by (auto simp: Canonical_def Let_def split: if_splits)
qed

theorem canonical_trust_list_reads_back_witness:
  "\<exists>c. Canonical (example_list [''b'', ''a'']) = Inr c \<and> unmarshal_trust_list c = Some (example_list [''a'', ''b''])"
proof -
  have ok: "trust_list_ok (example_list [''b'', ''a''])" by code_simp
  have "distinct (map mNodeID (tlMembers (example_list [''b'', ''a''])))" by code_simp
  moreover have "(example_list [''b'', ''a''])\<lparr>tlMembers := sort_key mNodeID (tlMembers (example_list [''b'', ''a'']))\<rparr>
      = example_list [''a'', ''b'']" by code_simp
  ultimately show ?thesis
    using canonical_trust_list_reads_back [OF ok] by auto
qed



section \<open>What the verifier accepts\<close>

lemma xor_zero: "xor m n = (0 :: nat) \<longleftrightarrow> m = n"
proof
  assume "xor m n = 0"
  then have "xor (xor m n) n = n" by simp
  then show "m = n" by (simp add: xor.assoc)
qed simp

lemma or_fold_zero:
  "foldl (\<lambda>v (x, y). or v (xor (of_char x) (of_char y))) (n :: nat) zs = 0 \<longleftrightarrow> n = 0 \<and> list_all (\<lambda>(x, y). x = y) zs"
proof (induction zs arbitrary: n)
  case (Cons p zs)
  obtain x y where p: "p = (x, y)" by force
  show ?case unfolding p foldl.simps case_prod_conv Cons by (simp add: or_eq_0_iff xor_zero)
qed simp

lemma constEqual_iff: "constEqual a b \<longleftrightarrow> a = b"
proof (cases "length a = length b")
  case True
  then have "list_all (\<lambda>(x, y). x = y) (zip a b) \<longleftrightarrow> a = b"
    by (induction a b rule: list_induct2) auto
  with True show ?thesis by (simp add: constEqual_def or_fold_zero)
qed (auto simp: constEqual_def)

lemma verify_assertion_accepts:
  assumes "verify_assertion cr art pin chal = None"
  obtains authData cData cd sig where "b64_decode RawURLEncoding (stAuthenticatorData art) = Some authData"
    "b64_decode RawURLEncoding (stClientDataJSON art) = Some cData" "37 \<le> length authData"
    "unmarshal_client [''type'', ''challenge'', ''origin''] cData = Some cd" "cdType cd = ''webauthn.get''"
    "cdChallenge cd = b64_encode RawURLEncoding chal" "take 32 authData = sha256_bytes (pcRPID pin)"
    "flag_set flagUserPresent authData" "pcRPID pin \<noteq> []" "b64_decode RawURLEncoding (stSignature art) = Some sig"
    "assertion_signature cr pin (authData @ sha256_bytes cData) sig = None"
  using assms
  by (auto simp: verify_assertion_def constEqual_iff authDataMinLen_def split: if_splits option.splits)

text \<open>
  Claim C26: a WebAuthn assertion authorizes one trust list.  If the verifier accepts the same assertion for two
  trust lists, even under different pinned credentials and different signature primitives, then both
  have the same canonical bytes, or their canonical bytes are a collision of SHA-256.  An accepted
  assertion also carries the user-present flag, names the relying party of the pin and verifies under
  the pinned key over the received bytes.
\<close>

theorem assertion_authorizes_one_trust_list:
  assumes "Verify cr a art pin = None" and "Verify cr' b art pin' = None" and "pcAlg pin \<noteq> AlgEd25519"
  shows "(\<exists>ca cb. Canonical a = Inr ca \<and> Canonical b = Inr cb \<and>
      (ca = cb \<or> ca \<noteq> cb \<and> sha256_bytes ca = sha256_bytes cb)) \<and>
    (\<exists>authData cData sig. b64_decode RawURLEncoding (stAuthenticatorData art) = Some authData \<and>
       b64_decode RawURLEncoding (stClientDataJSON art) = Some cData \<and>
       b64_decode RawURLEncoding (stSignature art) = Some sig \<and>
       take 32 authData = sha256_bytes (pcRPID pin) \<and> flag_set flagUserPresent authData \<and>
       assertion_signature cr pin (authData @ sha256_bytes cData) sig = None)"
proof -
  have alg: "pcAlg pin' = pcAlg pin" using assms by (auto simp: Verify_def split: if_splits)
  obtain ca where ca: "Canonical a = Inr ca" "verify_assertion cr art pin (sha256_bytes ca) = None"
    using assms(1,3) by (auto simp: Verify_def verifyWebAuthn_def Challenge_def split: if_splits sum.splits)
  obtain cb where cb: "Canonical b = Inr cb" "verify_assertion cr' art pin' (sha256_bytes cb) = None"
    using assms(2,3) alg by (auto simp: Verify_def verifyWebAuthn_def Challenge_def split: if_splits sum.splits)
  have "sha256_bytes ca = sha256_bytes cb"
    by (rule verify_assertion_accepts [OF ca(2)], rule verify_assertion_accepts [OF cb(2)]) (auto simp: b64_encode_inj)
  moreover have "\<exists>authData cData sig. b64_decode RawURLEncoding (stAuthenticatorData art) = Some authData \<and>
       b64_decode RawURLEncoding (stClientDataJSON art) = Some cData \<and>
       b64_decode RawURLEncoding (stSignature art) = Some sig \<and>
       take 32 authData = sha256_bytes (pcRPID pin) \<and> flag_set flagUserPresent authData \<and>
       assertion_signature cr pin (authData @ sha256_bytes cData) sig = None"
    by (rule verify_assertion_accepts [OF ca(2)]) blast
  ultimately show ?thesis using ca(1) cb(1) by blast
qed

text \<open>An assertion made for the challenge is accepted.\<close>

lemma read_client_text:
  assumes "utf8_valid origin"
  shows "unmarshal_client [''type'', ''challenge'', ''origin''] (client_text chal origin)
    = Some \<lparr>cdType = ''webauthn.get'', cdChallenge = b64_encode RawURLEncoding chal, cdOrigin = origin\<rparr>"
proof -
  let ?j = "JObj [(''type'', JStr ''webauthn.get''), (''challenge'', JStr (b64_encode RawURLEncoding chal)),
     (''origin'', JStr origin)]"
  have "utf8_valid ''type''" "utf8_valid ''webauthn.get''" "utf8_valid ''challenge''" "utf8_valid ''origin''" by code_simp+
  then have "json_wf ?j" using assms ascii_utf8_valid [OF b64_ascii] by simp
  from json_parse_text [OF this, of "[]"] have "json_parse (client_text chal origin) = Some ?j"
    by (simp add: client_text_def maxNestingDepth_def)
  then show ?thesis
    by (simp add: unmarshal_client_def decode_struct_def match_field_def assign_client_def decode_string_def)
qed

lemma assertion_accepted:
  assumes "pcRPID pin \<noteq> []" and "utf8_valid origin" and "pcOrigin pin = [] \<or> pcOrigin pin = origin"
    and "37 \<le> length authData" and "take 32 authData = sha256_bytes (pcRPID pin)" and "flag_set flagUserPresent authData"
    and "assertion_signature cr pin (authData @ sha256_bytes (client_text chal origin)) sig = None"
  shows "verify_assertion cr (assertion_of alg authData (client_text chal origin) sig) pin chal = None"
  using assms read_client_text [OF assms(2)]
  by (auto simp: verify_assertion_def assertion_of_def b64_decode_encode constEqual_iff authDataMinLen_def)

lemma example_assertion_accepted:
  assumes "Canonical tlist = Inr c"
  shows "Verify example_crypto tlist (example_assertion (sha256_bytes c)) example_es256_pin = None"
proof -
  have "utf8_valid ''https://rp''" by code_simp
  then have "verify_assertion example_crypto (example_assertion (sha256_bytes c)) example_es256_pin (sha256_bytes c) = None"
    unfolding example_assertion_def Let_def
    by (intro assertion_accepted)
      (simp_all add: example_es256_pin_def sha256_bytes_def flag_set_def flagUserPresent_def nth_append
        assertion_signature_def example_crypto_def)
  then show ?thesis
    using assms by (simp add: Verify_def verifyWebAuthn_def Challenge_def example_assertion_def Let_def assertion_of_def
        example_es256_pin_def AlgWebAuthnES256_def AlgEd25519_def)
qed

theorem assertion_authorizes_one_trust_list_witness:
  "\<exists>c. Canonical (example_list [''b'', ''a'']) = Inr c \<and>
     (\<forall>other. Verify example_crypto other (example_assertion (sha256_bytes c)) example_es256_pin = None \<longrightarrow>
        (\<exists>cb. Canonical other = Inr cb \<and> (c = cb \<or> c \<noteq> cb \<and> sha256_bytes c = sha256_bytes cb)))"
proof -
  have "distinct (map mNodeID (tlMembers (example_list [''b'', ''a''])))" by code_simp
  then obtain c where c: "Canonical (example_list [''b'', ''a'']) = Inr c" using Canonical_defined by blast
  have "pcAlg example_es256_pin \<noteq> AlgEd25519"
    by (simp add: example_es256_pin_def AlgWebAuthnES256_def AlgEd25519_def)
  with assertion_authorizes_one_trust_list [OF example_assertion_accepted [OF c]] c show ?thesis
    by (metis sum.inject(2))
qed

text \<open>
  Claim C27: what the software signer signs, the verifier accepts under the signer's own key, and under that
  key the same signature is accepted for another trust list only if the primitive accepts it over that
  list's canonical bytes.  The primitives are assumed to give 32-byte keys and 64-byte signatures and
  to verify what they signed.
\<close>

theorem signed_trust_list_verifies:
  assumes "\<And>m. crEd25519Verify cr (crEd25519Public cr priv) m (crEd25519Sign cr priv m)"
    and "length (crEd25519Public cr priv) = 32" and "\<And>m. length (crEd25519Sign cr priv m) = 64"
    and "Sign cr priv tlist = Inr art" and "pcAlg pin = AlgEd25519" and "pcEd25519Pub pin = crEd25519Public cr priv"
  shows "Verify cr tlist art pin = None \<and>
    (\<forall>other. Verify cr other art pin = None \<longleftrightarrow>
       (\<exists>c c'. Canonical tlist = Inr c \<and> Canonical other = Inr c' \<and>
          crEd25519Verify cr (crEd25519Public cr priv) c' (crEd25519Sign cr priv c)))"
proof -
  obtain c where c: "Canonical tlist = Inr c"
    "art = \<lparr>stAlg = AlgEd25519, stCredentialID = KeyID cr priv, stPublicKey = crMarshalPEM cr (crEd25519Public cr priv),
      stSignature = b64_encode RawURLEncoding (crEd25519Sign cr priv c), stAuthenticatorData = [], stClientDataJSON = []\<rparr>"
    using assms(4) by (auto simp: Sign_def split: sum.splits)
  have "Verify cr other art pin = None \<longleftrightarrow> (\<exists>c'. Canonical other = Inr c' \<and>
      crEd25519Verify cr (crEd25519Public cr priv) c' (crEd25519Sign cr priv c))" for other
    using assms(2,3,5,6) c(2)
    by (auto simp: Verify_def verifyEd25519_def bundlesig_Verify_def b64_decode_encode split: sum.splits)
  then show ?thesis using c(1) assms(1) by auto
qed

theorem signed_trust_list_verifies_witness:
  "\<exists>art. Sign example_crypto ''key'' (example_list [''a'', ''b'']) = Inr art \<and>
     Verify example_crypto (example_list [''a'', ''b'']) art
       \<lparr>pcAlg = AlgEd25519, pcCredentialID = [], pcEd25519Pub = crEd25519Public example_crypto ''key'', pcES256Pub = None,
        pcRPID = [], pcOrigin = []\<rparr> = None"
proof -
  have "distinct (map mNodeID (tlMembers (example_list [''a'', ''b''])))" by code_simp
  then obtain c where "Canonical (example_list [''a'', ''b'']) = Inr c" using Canonical_defined by blast
  then obtain art where art: "Sign example_crypto ''key'' (example_list [''a'', ''b'']) = Inr art"
    by (simp add: Sign_def)
  have "Verify example_crypto (example_list [''a'', ''b'']) art
       \<lparr>pcAlg = AlgEd25519, pcCredentialID = [], pcEd25519Pub = crEd25519Public example_crypto ''key'', pcES256Pub = None,
        pcRPID = [], pcOrigin = []\<rparr> = None"
    by (rule signed_trust_list_verifies [THEN conjunct1, OF _ _ _ art])
      (simp_all add: example_crypto_def sha256_bytes_def)
  with art show ?thesis by blast
qed

end
