(* ===== verification/Bundle_Verify.thy ===== *)
theory Bundle_Verify
  imports Trust_List "HOL-Library.Finite_Map"
begin

text \<open>
  The node's checks of a fetched bundle before anything runs as root
  (\<^verbatim>\<open>internal/agent/verify.go\<close>), against the checksum file that \<^verbatim>\<open>internal/bundlesig\<close> writes.  A bundle is a
  finite map from relative paths to contents.  Error texts are shortened.
\<close>

type_synonym files = "(string, string) fmap"

section \<open>The checksum file\<close>

definition checksum_line :: "string \<Rightarrow> string \<Rightarrow> string" where
  "checksum_line path content = sha256_hex content @ ''  '' @ path @ [CHR 0x0A]"

definition Canonicalize :: "files \<Rightarrow> string" where
  "Canonicalize fs = concat (map (\<lambda>(path, content). checksum_line path content) (sorted_list_of_fmap fs))"

text \<open>\<^verbatim>\<open>strings.Index(s, "  ")\<close>.\<close>

fun index_two_spaces :: "string \<Rightarrow> nat option" where
  "index_two_spaces (a # b # cs) =
     (if a = CHR '' '' \<and> b = CHR '' '' then Some 0 else map_option Suc (index_two_spaces (b # cs)))"
| "index_two_spaces _ = None"

definition lower :: "char \<Rightarrow> char" where
  "lower c = (if 65 \<le> (of_char c :: nat) \<and> (of_char c :: nat) \<le> 90 then char_of (of_char c + 32 :: nat) else c)"

definition hex_string :: "string \<Rightarrow> bool" where
  "hex_string s \<longleftrightarrow> list_all (\<lambda>c. hex_value c \<noteq> None) s"

definition checksum_entry :: "string \<Rightarrow> (string \<times> string) option" where
  "checksum_entry line =
     (case index_two_spaces line of
        None \<Rightarrow> None
      | Some idx \<Rightarrow>
          (let hexSum = take idx line; path = drop (idx + 2) line
           in if length hexSum \<noteq> 64 then None
              else if \<not> hex_string hexSum then None
              else if path = [] then None
              else Some (path, map lower hexSum)))"

fun checksum_lines :: "string list \<Rightarrow> (string, string) fmap \<Rightarrow> (string, string) fmap option" where
  "checksum_lines [] acc = Some acc"
| "checksum_lines (line # ls) acc =
     (if line = [] then checksum_lines ls acc
      else case checksum_entry line of
        None \<Rightarrow> None
      | Some (path, h) \<Rightarrow>
          (if fmlookup acc path \<noteq> None then None else checksum_lines ls (fmupd path h acc)))"

definition parseChecksums :: "string \<Rightarrow> (string, string) fmap option" where
  "parseChecksums data =
     (case checksum_lines (split_on (CHR 0x0A) data) fmempty of
        None \<Rightarrow> None
      | Some out \<Rightarrow> (if out = fmempty then None else Some out))"

section \<open>Integrity of the bundle\<close>

record verify_result =
  vrSigned :: bool
  vrFileCount :: nat

definition parsePinnedPublicKey :: "crypto \<Rightarrow> string \<Rightarrow> string option" where
  "parsePinnedPublicKey cr pem =
     (case crParsePublicKey cr pem of Some (Ed25519Key k) \<Rightarrow> Some k | _ \<Rightarrow> None)"

definition policyFileName :: string where
  "policyFileName = ''telemetry.json''"

definition successorFileName :: string where
  "successorFileName = ''telemetry-policy.json''"

text \<open>The signature decision: \<open>Inr\<close> says whether a signature was verified.\<close>

definition check_signature :: "crypto \<Rightarrow> files \<Rightarrow> string \<Rightarrow> string \<Rightarrow> string + bool" where
  "check_signature cr fs checksums pinnedPubPEM =
     (case (fmlookup fs ''bundle.sig'', fmlookup fs ''signing-pubkey.pem'') of
        (Some sigB64, Some bundlePubPEM) \<Rightarrow>
          (case b64_decode StdEncoding (TrimSpace sigB64) of
             None \<Rightarrow> Inl ''decode bundle.sig''
           | Some sigRaw \<Rightarrow>
               (case parsePinnedPublicKey cr (if pinnedPubPEM \<noteq> [] then pinnedPubPEM else bundlePubPEM) of
                  None \<Rightarrow> Inl ''parse public key''
                | Some pub \<Rightarrow>
                    (if \<not> bundlesig_Verify cr checksums sigRaw pub then Inl ''bundle signature verification failed''
                     else Inr True)))
      | _ \<Rightarrow> (if pinnedPubPEM \<noteq> [] then Inl ''signing key pinned but bundle has no signature'' else Inr False))"

fun check_files :: "files \<Rightarrow> (string \<times> string) list \<Rightarrow> string option" where
  "check_files fs [] = None"
| "check_files fs ((path, wantHex) # ls) =
     (case fmlookup fs path of
        None \<Rightarrow> Some ''listed file is missing''
      | Some content \<Rightarrow> (if sha256_hex content \<noteq> wantHex then Some ''checksum mismatch'' else check_files fs ls))"

text \<open>A file that must be covered by the checksums when it is present.\<close>

definition uncovered :: "files \<Rightarrow> (string, string) fmap \<Rightarrow> string \<Rightarrow> bool" where
  "uncovered fs listed name \<longleftrightarrow> fmlookup fs name \<noteq> None \<and> fmlookup listed name = None"

definition VerifyBundle :: "crypto \<Rightarrow> files \<Rightarrow> string \<Rightarrow> string + verify_result" where
  "VerifyBundle cr fs pinnedPubPEM =
     (case fmlookup fs ''checksums.sha256'' of
        None \<Rightarrow> Inl ''bundle has no checksums.sha256''
      | Some checksums \<Rightarrow>
          (case parseChecksums checksums of
             None \<Rightarrow> Inl ''parse checksums''
           | Some listed \<Rightarrow>
               (if fmlookup fs policyFileName \<noteq> None \<and> fmlookup fs successorFileName \<noteq> None
                then Inl ''bundle contains both policy files''
                else case check_signature cr fs checksums pinnedPubPEM of
                  Inl e \<Rightarrow> Inl e
                | Inr signedOK \<Rightarrow>
                    (case check_files fs (sorted_list_of_fmap listed) of
                       Some e \<Rightarrow> Inl e
                     | None \<Rightarrow>
                         (if fmlookup fs ''install.sh'' = None then Inl ''bundle has no install.sh''
                          else if fmlookup listed ''install.sh'' = None then Inl ''checksums.sha256 does not cover install.sh''
                          else if uncovered fs listed ''artifacts.json'' then Inl ''artifacts.json not covered''
                          else if uncovered fs listed policyFileName then Inl ''telemetry.json not covered''
                          else if uncovered fs listed successorFileName then Inl ''telemetry-policy.json not covered''
                          else Inr \<lparr>vrSigned = signedOK, vrFileCount = length (sorted_list_of_fmap listed)\<rparr>)))))"

section \<open>Peers of the WireGuard configurations\<close>

text \<open>\<^verbatim>\<open>strings.EqualFold\<close> against a text of ASCII characters.\<close>

definition EqualFold :: "string \<Rightarrow> string \<Rightarrow> bool" where
  "EqualFold a b \<longleftrightarrow> fold_key a = fold_key b"

definition splitConfKV :: "string \<Rightarrow> (string \<times> string) option" where
  "splitConfKV line =
     (if CHR ''='' \<in> set line
      then Some (TrimSpace (takeWhile (\<lambda>c. c \<noteq> CHR ''='') line), TrimSpace (drop 1 (dropWhile (\<lambda>c. c \<noteq> CHR ''='') line)))
      else None)"

fun conf_peers :: "bool \<Rightarrow> string list \<Rightarrow> string list option" where
  "conf_peers inPeer [] = Some []"
| "conf_peers inPeer (raw # ls) =
     (let line = TrimSpace raw
      in if line = [] \<or> HasPrefix line ''#'' then conf_peers inPeer ls
         else if HasPrefix line ''['' \<and> HasSuffix line '']'' then conf_peers (EqualFold line ''[Peer]'') ls
         else if \<not> inPeer then conf_peers inPeer ls
         else case splitConfKV line of
           None \<Rightarrow> conf_peers inPeer ls
         | Some (key, val) \<Rightarrow>
             (if \<not> EqualFold key ''PublicKey'' then conf_peers inPeer ls
              else if val = [] then None
              else map_option ((#) val) (conf_peers inPeer ls)))"

fun all_peers :: "(string \<times> string) list \<Rightarrow> string list option" where
  "all_peers [] = Some []"
| "all_peers ((rel, content) # fs) =
     (if \<not> HasPrefix rel ''wireguard/'' \<or> \<not> HasSuffix rel ''.conf'' then all_peers fs
      else case conf_peers False (split_on (CHR 0x0A) content) of
        None \<Rightarrow> None
      | Some ks \<Rightarrow> map_option (\<lambda>r. ks @ r) (all_peers fs))"

definition collectBundlePeerKeys :: "files \<Rightarrow> string list option" where
  "collectBundlePeerKeys fs = map_option (\<lambda>ks. sorted_list_of_set (set ks)) (all_peers (sorted_list_of_fmap fs))"

section \<open>Membership\<close>

record membership_config =
  mcNodeID :: string
  mcOperatorCredPEM :: string
  mcOperatorCredAlg :: string
  mcOperatorRPID :: string
  mcOperatorOrigin :: string

definition pinnedCredential :: "crypto \<Rightarrow> membership_config \<Rightarrow> pinned_credential option" where
  "pinnedCredential cr cfg =
     (let pin = \<lparr>pcAlg = mcOperatorCredAlg cfg, pcCredentialID = [], pcEd25519Pub = [], pcES256Pub = None,
                 pcRPID = mcOperatorRPID cfg, pcOrigin = mcOperatorOrigin cfg\<rparr>
      in if pcAlg pin = AlgEd25519 \<or> pcAlg pin = AlgWebAuthnEdDSA then
           (case ParseEd25519PinPEM cr (mcOperatorCredPEM cfg) of
              Inl _ \<Rightarrow> None
            | Inr pub \<Rightarrow> Some (pin\<lparr>pcEd25519Pub := pub\<rparr>))
         else if pcAlg pin = AlgWebAuthnES256 then
           (case ParseES256Pin cr (mcOperatorCredPEM cfg) of
              Inl _ \<Rightarrow> None
            | Inr pub \<Rightarrow> Some (pin\<lparr>pcES256Pub := Some pub\<rparr>))
         else None)"

text \<open>The node's own entry: the last one with its id.\<close>

definition self_member :: "string \<Rightarrow> member list \<Rightarrow> member option" where
  "self_member nodeID ms = find (\<lambda>m. mNodeID m = nodeID) (rev ms)"

definition member_keys :: "member list \<Rightarrow> string set" where
  "member_keys ms = set (filter (\<lambda>k. k \<noteq> []) (map mWGPublicKey ms))"

definition VerifyMembership :: "crypto \<Rightarrow> files \<Rightarrow> membership_config \<Rightarrow> int \<Rightarrow> string + int" where
  "VerifyMembership cr fs cfg prevEpoch =
     (if mcOperatorCredPEM cfg = [] then Inr 0
      else case fmlookup fs ''trustlist.json'' of
        None \<Rightarrow> Inl ''no trustlist.json''
      | Some tlJSON \<Rightarrow>
      (case fmlookup fs ''trustlist.sig'' of
        None \<Rightarrow> Inl ''no trustlist.sig''
      | Some sigJSON \<Rightarrow>
      (case fmlookup fs ''checksums.sha256'' of
        None \<Rightarrow> Inl ''no checksums.sha256''
      | Some checksums \<Rightarrow>
      (case unmarshal_trust_list tlJSON of
        None \<Rightarrow> Inl ''parse trustlist.json''
      | Some tlist \<Rightarrow>
      (case unmarshal_signed sigJSON of
        None \<Rightarrow> Inl ''parse trustlist.sig''
      | Some art \<Rightarrow>
      (case Canonical tlist of
        Inl _ \<Rightarrow> Inl ''canonicalize trustlist''
      | Inr canonical \<Rightarrow>
          (if canonical \<noteq> tlJSON then Inl ''trustlist.json is not its own canonical form''
           else case pinnedCredential cr cfg of
             None \<Rightarrow> Inl ''parse pinned operator credential''
           | Some pin \<Rightarrow>
               (case Verify cr tlist art pin of
                  Some _ \<Rightarrow> Inl ''trust-list signature verification failed''
                | None \<Rightarrow>
                    (case self_member (mcNodeID cfg) (tlMembers tlist) of
                       None \<Rightarrow> Inl ''node is not a member''
                     | Some self \<Rightarrow>
                         (if mBundleSHA256 self = [] then Inl ''member carries no bundle_sha256''
                          else if \<not> EqualFold (sha256_hex checksums) (mBundleSHA256 self) then Inl ''bundle digest mismatch''
                          else case collectBundlePeerKeys fs of
                            None \<Rightarrow> Inl ''empty peer key''
                          | Some peerKeys \<Rightarrow>
                              (if \<not> list_all (\<lambda>pk. pk \<in> member_keys (tlMembers tlist)) peerKeys
                               then Inl ''bundle peer is not a signed member''
                               else if tlEpoch tlist < prevEpoch then Inl ''membership rollback''
                               else Inr (tlEpoch tlist))))))))))))"

section \<open>Specification\<close>

text \<open>Paths the checksum format can carry.\<close>

definition path_ok :: "string \<Rightarrow> bool" where
  "path_ok p \<longleftrightarrow> p \<noteq> [] \<and> CHR 0x0A \<notin> set p"

text \<open>Two different contents with the same digest.\<close>

definition collision :: "string \<Rightarrow> string \<Rightarrow> bool" where
  "collision a b \<longleftrightarrow> a \<noteq> b \<and> sha256_hex a = sha256_hex b"

text \<open>The files outside the checksum file that an exported bundle may carry.\<close>

definition reserved :: "string set" where
  "reserved = {''checksums.sha256'', ''bundle.sig'', ''signing-pubkey.pem'', ''trustlist.json'', ''trustlist.sig''}"

text \<open>Rendered files that can be exported: an installer, representable paths and one telemetry policy.\<close>

definition exportable :: "files \<Rightarrow> bool" where
  "exportable fs \<longleftrightarrow> ''install.sh'' |\<in>| fmdom fs \<and> (\<forall>p \<in> fset (fmdom fs). path_ok p \<and> p \<notin> reserved) \<and>
     \<not> (policyFileName |\<in>| fmdom fs \<and> successorFileName |\<in>| fmdom fs)"

text \<open>The bundle a node fetches for these files, with the membership and its signature.\<close>

definition shipped :: "files \<Rightarrow> string \<Rightarrow> signed_trust_list \<Rightarrow> files" where
  "shipped fs canonical art =
     fmupd ''trustlist.sig'' (json_text (signed_json art)) (fmupd ''trustlist.json'' canonical
       (fmupd ''checksums.sha256'' (Canonicalize fs) fs))"

text \<open>Only the WireGuard configurations count for the peers.\<close>

definition is_conf :: "string \<Rightarrow> bool" where
  "is_conf rel \<longleftrightarrow> HasPrefix rel ''wireguard/'' \<and> HasSuffix rel ''.conf''"

text \<open>The files a root process reads: the listed ones and those with a meaning of their own.\<close>

definition trusted_names :: "(string, string) fmap \<Rightarrow> string set" where
  "trusted_names listed = fset (fmdom listed) \<union> {''install.sh'', ''artifacts.json'', policyFileName, successorFileName}"

definition example_files :: files where
  "example_files = fmap_of_list [(''install.sh'', ''wg-quick up wg0''),
     (''wireguard/wg0.conf'', ''[Peer]'' @ [CHR 0x0A] @ ''PublicKey = kB'')]"

definition example_membership :: trust_list where
  "example_membership = \<lparr>tlSchemaVersion = 1, tlTenant = ''acme'', tlEpoch = 7, tlMembers =
     [\<lparr>mNodeID = ''a'', mWGPublicKey = ''kA'', mBundleSHA256 = sha256_hex (Canonicalize example_files)\<rparr>,
      \<lparr>mNodeID = ''b'', mWGPublicKey = ''kB'', mBundleSHA256 = []\<rparr>]\<rparr>"

definition example_config :: membership_config where
  "example_config = \<lparr>mcNodeID = ''a'', mcOperatorCredPEM = ''key'', mcOperatorCredAlg = AlgEd25519, mcOperatorRPID = [], mcOperatorOrigin = []\<rparr>"

section \<open>Hexadecimal digests\<close>

definition hex_alphabet :: string where
  "hex_alphabet = ''0123456789abcdef''"

lemma sha256_hex_chars: "set (sha256_hex s) \<subseteq> set hex_alphabet"
proof -
  have "hex_digit n \<in> set hex_alphabet" for n
    unfolding hex_digit_def hex_alphabet_def by (rule nth_mem) simp
  then have "set (hex_encode bs) \<subseteq> set hex_alphabet" for bs
    by (induction bs) (auto simp: hex_encode_def)
  then show ?thesis by (simp add: sha256_hex_def)
qed

lemma hex_alphabet_facts:
  assumes "c \<in> set hex_alphabet"
  shows "lower c = c" "hex_value c \<noteq> None" "c \<noteq> CHR '' ''" "c \<noteq> CHR 0x0A" "of_char c < (128 :: nat)" "lower (upper c) = c"
proof -
  have "list_all (\<lambda>c. lower c = c \<and> hex_value c \<noteq> None \<and> c \<noteq> CHR '' '' \<and> c \<noteq> CHR 0x0A \<and>
      of_char c < (128 :: nat) \<and> lower (upper c) = c) hex_alphabet" by code_simp
  with assms show "lower c = c" "hex_value c \<noteq> None" "c \<noteq> CHR '' ''" "c \<noteq> CHR 0x0A" "of_char c < (128 :: nat)"
    "lower (upper c) = c" by (auto simp: list_all_iff)
qed

lemma sha256_hex_facts:
  "map lower (sha256_hex s) = sha256_hex s" "hex_string (sha256_hex s)" "CHR '' '' \<notin> set (sha256_hex s)"
  "CHR 0x0A \<notin> set (sha256_hex s)" "map lower (map upper (sha256_hex s)) = sha256_hex s"
proof -
  have mem: "c \<in> set hex_alphabet" if "c \<in> set (sha256_hex s)" for c
    using sha256_hex_chars that by blast
  show "map lower (sha256_hex s) = sha256_hex s" by (rule map_idI) (blast intro: mem hex_alphabet_facts)
  show "map lower (map upper (sha256_hex s)) = sha256_hex s"
    unfolding map_map comp_def by (rule map_idI) (blast intro: mem hex_alphabet_facts)
  show "hex_string (sha256_hex s)"
    unfolding hex_string_def list_all_iff using mem hex_alphabet_facts(2) by blast
  show "CHR '' '' \<notin> set (sha256_hex s)" "CHR 0x0A \<notin> set (sha256_hex s)"
    using mem hex_alphabet_facts(3,4) by blast+
qed

lemma fold_key_ascii: "list_all (\<lambda>c. of_char c < (128 :: nat)) s \<Longrightarrow> fold_key s = map upper s"
proof (induction s)
  case (Cons c s)
  then have "byte (c # s) 0 < 128" by (simp add: byte_def)
  with Cons show ?case by (simp add: fold_key.simps [of "c # s"])
qed (simp add: fold_key.simps)

lemma digest_fold: "EqualFold (sha256_hex a) d \<Longrightarrow> EqualFold (sha256_hex b) d \<Longrightarrow> sha256_hex a = sha256_hex b"
proof -
  have "fold_key (sha256_hex x) = map upper (sha256_hex x)" for x
    using sha256_hex_chars [of x] hex_alphabet_facts(5) by (intro fold_key_ascii) (auto simp: list_all_iff)
  then show "EqualFold (sha256_hex a) d \<Longrightarrow> EqualFold (sha256_hex b) d \<Longrightarrow> sha256_hex a = sha256_hex b"
    unfolding EqualFold_def by (metis sha256_hex_facts(5))
qed

section \<open>Reading the checksum file back\<close>

lemma index_after: "CHR '' '' \<notin> set h \<Longrightarrow> index_two_spaces (h @ CHR '' '' # CHR '' '' # p) = Some (length h)"
proof (induction h)
  case (Cons a h)
  then show ?case by (cases h) auto
qed simp

lemma checksum_entry_line:
  "p \<noteq> [] \<Longrightarrow> checksum_entry (sha256_hex c @ CHR '' '' # CHR '' '' # p) = Some (p, sha256_hex c)"
  using index_after [OF sha256_hex_facts(3), of c p] by (simp add: checksum_entry_def sha256_hex_facts)

lemma map_add_fresh: "m p = None \<Longrightarrow> fmlookup (fmupd p v acc) ++ m = fmlookup acc ++ (\<lambda>a. if a = p then Some v else m a)"
  by (auto simp: map_add_def fun_eq_iff split: option.splits)

lemma checksum_lines_read:
  assumes "distinct (map fst kvs)" and "\<And>p. p \<in> fst ` set kvs \<Longrightarrow> path_ok p \<and> fmlookup acc p = None"
  shows "\<exists>out. checksum_lines (map (\<lambda>(p, c). sha256_hex c @ ''  '' @ p) kvs @ [[]]) acc = Some out \<and>
    fmlookup out = fmlookup acc ++ map_of (map (\<lambda>(p, c). (p, sha256_hex c)) kvs)"
  using assms
proof (induction kvs arbitrary: acc)
  case (Cons kv kvs)
  obtain p c where kv: "kv = (p, c)" by force
  have p: "p \<noteq> []" "fmlookup acc p = None" using Cons.prems(2) [of p] kv by (auto simp: path_ok_def)
  have "\<exists>out. checksum_lines (map (\<lambda>(p, c). sha256_hex c @ ''  '' @ p) kvs @ [[]]) (fmupd p (sha256_hex c) acc) = Some out \<and>
      fmlookup out = fmlookup (fmupd p (sha256_hex c) acc) ++ map_of (map (\<lambda>(p, c). (p, sha256_hex c)) kvs)"
    by (rule Cons.IH) (use Cons.prems kv in auto)
  moreover have "map_of (map (\<lambda>(p, c). (p, sha256_hex c)) kvs) p = None"
    using Cons.prems(1) kv by (auto simp: map_of_eq_None_iff image_image case_prod_beta')
  ultimately show ?case
    using p checksum_entry_line [OF p(1), of c] sha256_hex_nonempty [of c]
    by (simp add: kv map_add_fresh)
qed simp

lemma split_Canonicalize:
  assumes "\<And>p. p \<in> fst ` set kvs \<Longrightarrow> path_ok p"
  shows "split_on (CHR 0x0A) (concat (map (\<lambda>(p, c). checksum_line p c) kvs))
    = map (\<lambda>(p, c). sha256_hex c @ ''  '' @ p) kvs @ [[]]"
  using assms
proof (induction kvs)
  case (Cons kv kvs)
  obtain p c where kv: "kv = (p, c)" by force
  have "CHR 0x0A \<notin> set (sha256_hex c @ ''  '' @ p)"
    using Cons.prems [of p] sha256_hex_facts(4) [of c] kv by (auto simp: path_ok_def)
  from split_on_line [OF this] Cons show ?case
    by (simp add: kv checksum_line_def)
qed simp

lemma sorted_fmap_keys: "distinct (map fst (sorted_list_of_fmap m))" "fst ` set (sorted_list_of_fmap m) = fset (fmdom m)"
  by (simp_all add: sorted_list_of_fmap_def comp_def sorted_list_of_fset.rep_eq image_image)

text \<open>The checksum file of a set of files lists exactly these files with their digests.\<close>

lemma parse_Canonicalize:
  assumes "fs \<noteq> fmempty" and "\<And>p. p |\<in>| fmdom fs \<Longrightarrow> path_ok p"
  shows "parseChecksums (Canonicalize fs) = Some (fmmap sha256_hex fs)"
proof -
  have keys: "path_ok p" if "p \<in> fst ` set (sorted_list_of_fmap fs)" for p
    using that assms(2) by (simp add: sorted_fmap_keys)
  obtain out where out: "checksum_lines (split_on (CHR 0x0A) (Canonicalize fs)) fmempty = Some out"
    "fmlookup out = fmlookup fmempty ++ map_of (map (\<lambda>(p, c). (p, sha256_hex c)) (sorted_list_of_fmap fs))"
    using checksum_lines_read [OF sorted_fmap_keys(1), of fs fmempty] keys split_Canonicalize [OF keys]
    by (auto simp: Canonicalize_def)
  have "fmlookup out p = fmlookup (fmmap sha256_hex fs) p" for p
    by (cases "fmlookup fs p") (simp_all add: out(2) map_of_map map_of_sorted_list map_add_def)
  then have "out = fmmap sha256_hex fs" by (rule fmap_ext)
  moreover have "fmmap sha256_hex fs \<noteq> fmempty"
    using assms(1) by (metis fmdom_empty fmdom_map fmrestrict_fset_dom fmrestrict_fset_null)
  ultimately show ?thesis using out(1) by (simp add: parseChecksums_def)
qed

section \<open>What the integrity check establishes\<close>

lemma check_files_iff:
  "check_files fs ls = None \<longleftrightarrow> (\<forall>(p, h) \<in> set ls. \<exists>c. fmlookup fs p = Some c \<and> sha256_hex c = h)"
  by (induction ls) (auto split: option.splits if_splits)

lemma sorted_fmap_set: "(p, h) \<in> set (sorted_list_of_fmap m) \<longleftrightarrow> fmlookup m p = Some h"
  by (metis map_of_eq_Some_iff map_of_sorted_list sorted_fmap_keys(1))

lemma check_listed:
  "check_files fs (sorted_list_of_fmap listed) = None \<longleftrightarrow>
     (\<forall>p h. fmlookup listed p = Some h \<longrightarrow> (\<exists>c. fmlookup fs p = Some c \<and> sha256_hex c = h))"
  by (simp add: check_files_iff case_prod_beta Ball_def split_paired_all) (simp add: sorted_fmap_set)

lemma VerifyBundle_sound:
  assumes "VerifyBundle cr fs pin = Inr r"
  obtains checksums listed where
    "fmlookup fs ''checksums.sha256'' = Some checksums" "parseChecksums checksums = Some listed"
    "check_files fs (sorted_list_of_fmap listed) = None" "''install.sh'' |\<in>| fmdom listed"
    "\<not> uncovered fs listed ''artifacts.json''" "\<not> uncovered fs listed policyFileName"
    "\<not> uncovered fs listed successorFileName" "check_signature cr fs checksums pin = Inr (vrSigned r)"
  using assms that
  by (auto simp: VerifyBundle_def fmlookup_dom_iff split: option.splits sum.splits if_splits)

lemma VerifyMembership_sound:
  assumes "VerifyMembership cr fs cfg prev = Inr epoch" and "mcOperatorCredPEM cfg \<noteq> []"
  obtains tlJSON sigJSON checksums tlist art pin self where
    "fmlookup fs ''trustlist.json'' = Some tlJSON" "fmlookup fs ''trustlist.sig'' = Some sigJSON"
    "fmlookup fs ''checksums.sha256'' = Some checksums" "unmarshal_trust_list tlJSON = Some tlist"
    "unmarshal_signed sigJSON = Some art" "Canonical tlist = Inr tlJSON" "pinnedCredential cr cfg = Some pin"
    "Verify cr tlist art pin = None" "self_member (mcNodeID cfg) (tlMembers tlist) = Some self"
    "EqualFold (sha256_hex checksums) (mBundleSHA256 self)" "epoch = tlEpoch tlist" "prev \<le> epoch"
  using assms that
  by (auto simp: VerifyMembership_def split: option.splits sum.splits if_splits)

text \<open>Bundles with the same checksum file agree on the trusted names.\<close>

lemma same_checksums:
  assumes "check_files fs (sorted_list_of_fmap listed) = None" and "check_files fs' (sorted_list_of_fmap listed) = None"
    and "\<And>p a b. fmlookup fs p = Some a \<Longrightarrow> fmlookup fs' p = Some b \<Longrightarrow> \<not> collision a b"
    and "p |\<in>| fmdom listed \<or> (\<not> uncovered fs listed p \<and> \<not> uncovered fs' listed p)"
  shows "fmlookup fs p = fmlookup fs' p"
proof (cases "fmlookup listed p")
  case None
  then show ?thesis using assms(4) by (auto simp: uncovered_def fmlookup_dom_iff)
next
  case (Some h)
  then obtain a b where "fmlookup fs p = Some a" "fmlookup fs' p = Some b" "sha256_hex a = sha256_hex b"
    using assms(1,2) by (fastforce simp: check_listed)
  with assms(3) show ?thesis by (auto simp: collision_def)
qed

text \<open>
  Claim C28: with an operator credential pinned, the signed trust list decides what runs on the node.  If two bundles
  pass both checks on the same node with the same \<^verbatim>\<open>trustlist.json\<close>, then they carry the same
  membership epoch, and either two of their files exhibit a SHA-256 collision, or their checksum files are
  the same, list the installer, and the bundles agree on every listed file and on the installer, the artifact catalog
  and both telemetry policies, present or absent.
\<close>

theorem signed_membership_fixes_the_bundle:
  assumes "mcOperatorCredPEM cfg \<noteq> []"
    and "VerifyBundle cr fs pub = Inr r" and "VerifyMembership cr fs cfg prev = Inr epoch"
    and "VerifyBundle cr' fs' pub' = Inr r'" and "VerifyMembership cr' fs' cfg prev' = Inr epoch'"
    and "fmlookup fs ''trustlist.json'' = fmlookup fs' ''trustlist.json''"
  shows "epoch = epoch' \<and>
    ((\<exists>p a b. fmlookup fs p = Some a \<and> fmlookup fs' p = Some b \<and> collision a b) \<or>
     (\<exists>checksums listed. fmlookup fs ''checksums.sha256'' = Some checksums \<and> fmlookup fs' ''checksums.sha256'' = Some checksums \<and>
        parseChecksums checksums = Some listed \<and> ''install.sh'' |\<in>| fmdom listed \<and>
        (\<forall>p \<in> trusted_names listed. fmlookup fs p = fmlookup fs' p)))"
proof -
  obtain tlJSON tlist cs self where m: "fmlookup fs ''trustlist.json'' = Some tlJSON" "fmlookup fs ''checksums.sha256'' = Some cs"
    "unmarshal_trust_list tlJSON = Some tlist" "self_member (mcNodeID cfg) (tlMembers tlist) = Some self"
    "EqualFold (sha256_hex cs) (mBundleSHA256 self)" "epoch = tlEpoch tlist"
    by (rule VerifyMembership_sound [OF assms(3,1)]) blast
  obtain tlJSON' tlist' cs' self' where m': "fmlookup fs' ''trustlist.json'' = Some tlJSON'" "fmlookup fs' ''checksums.sha256'' = Some cs'"
    "unmarshal_trust_list tlJSON' = Some tlist'" "self_member (mcNodeID cfg) (tlMembers tlist') = Some self'"
    "EqualFold (sha256_hex cs') (mBundleSHA256 self')" "epoch' = tlEpoch tlist'"
    by (rule VerifyMembership_sound [OF assms(5,1)]) blast
  have same: "tlist' = tlist" "self' = self" using assms(6) m m' by auto
  have digest: "sha256_hex cs = sha256_hex cs'" using digest_fold m(5) m'(5) same by metis
  obtain listed where b: "parseChecksums cs = Some listed" "check_files fs (sorted_list_of_fmap listed) = None"
    "''install.sh'' |\<in>| fmdom listed" "\<not> uncovered fs listed ''artifacts.json''" "\<not> uncovered fs listed policyFileName"
    "\<not> uncovered fs listed successorFileName"
    by (rule VerifyBundle_sound [OF assms(2)]) (use m(2) in auto)
  obtain listed' where b': "parseChecksums cs' = Some listed'" "check_files fs' (sorted_list_of_fmap listed') = None"
    "\<not> uncovered fs' listed' ''artifacts.json''" "\<not> uncovered fs' listed' policyFileName"
    "\<not> uncovered fs' listed' successorFileName"
    by (rule VerifyBundle_sound [OF assms(4)]) (use m'(2) in auto)
  show ?thesis
  proof (cases "\<exists>p a b. fmlookup fs p = Some a \<and> fmlookup fs' p = Some b \<and> collision a b")
    case False
    then have cs: "cs' = cs" using m(2) m'(2) digest by (auto simp: collision_def)
    with b(1) b'(1) have l: "listed' = listed" by simp
    have "fmlookup fs p = fmlookup fs' p" if "p \<in> trusted_names listed" for p
      by (rule same_checksums [OF b(2) b'(2) [unfolded l]])
        (use False that b(3-) b'(3-) l in \<open>auto simp: trusted_names_def\<close>)
    then show ?thesis using b(1,3) m m' cs same by auto
  qed (use m m' same in auto)
qed

section \<open>What the controller ships is accepted\<close>

lemma all_peers_conf: "all_peers fs = all_peers (filter (\<lambda>(rel, c). is_conf rel) fs)"
  by (induction fs rule: all_peers.induct) (auto simp: is_conf_def split: option.splits)

lemma sorted_list_filter:
  "finite A \<Longrightarrow> filter P (sorted_list_of_set A) = sorted_list_of_set {x \<in> A. P (x :: 'a :: linorder)}"
  by (rule sorted_distinct_set_unique) (auto simp: sorted_wrt_filter)

lemma filter_sorted_fmap:
  "filter (\<lambda>(k, v). P k) (sorted_list_of_fmap m)
    = map (\<lambda>k. (k, the (fmlookup m k))) (sorted_list_of_set {k \<in> fset (fmdom m). P k})"
  by (simp add: sorted_list_of_fmap_def filter_map comp_def sorted_list_of_fset.rep_eq sorted_list_filter)

lemma peers_fmupd: "\<not> is_conf k \<Longrightarrow> collectBundlePeerKeys (fmupd k v fs) = collectBundlePeerKeys fs"
proof -
  assume k: "\<not> is_conf k"
  then have "{x \<in> fset (fmdom (fmupd k v fs)). is_conf x} = {x \<in> fset (fmdom fs). is_conf x}" by auto
  then have "filter (\<lambda>(rel, c). is_conf rel) (sorted_list_of_fmap (fmupd k v fs))
      = filter (\<lambda>(rel, c). is_conf rel) (sorted_list_of_fmap fs)"
    using k by (auto simp: filter_sorted_fmap)
  then show ?thesis unfolding collectBundlePeerKeys_def by (metis all_peers_conf)
qed

lemma read_signed:
  assumes "utf8_valid (stAlg a)" "utf8_valid (stCredentialID a)" "utf8_valid (stPublicKey a)" "utf8_valid (stSignature a)"
    "utf8_valid (stAuthenticatorData a)" "utf8_valid (stClientDataJSON a)"
  shows "unmarshal_signed (json_text (signed_json a)) = Some a"
proof -
  have "utf8_valid ''alg''" "utf8_valid ''credential_id''" "utf8_valid ''public_key''" "utf8_valid ''signature''"
    "utf8_valid ''authenticator_data''" "utf8_valid ''client_data_json''" by code_simp+
  then have "json_wf (signed_json a)" using assms by (auto simp: signed_json_def split: if_splits)
  from json_parse_text [OF this, of "[]"] have "json_parse (json_text (signed_json a)) = Some (signed_json a)"
    by (simp add: signed_json_def maxNestingDepth_def)
  then show ?thesis
    by (simp add: unmarshal_signed_def signed_json_def decode_struct_def match_field_def assign_signed_def
        decode_string_def zero_signed_def)
qed

lemma hex_utf8: "utf8_valid (sha256_hex s)"
  using sha256_hex_chars [of s] hex_alphabet_facts(5) by (intro ascii_utf8_valid) (auto simp: list_all_iff)

lemma shipped_lookup:
  "fmlookup (shipped fs c art) ''checksums.sha256'' = Some (Canonicalize fs)"
  "fmlookup (shipped fs c art) ''trustlist.json'' = Some c"
  "fmlookup (shipped fs c art) ''trustlist.sig'' = Some (json_text (signed_json art))"
  "p \<notin> reserved \<Longrightarrow> fmlookup (shipped fs c art) p = fmlookup fs p"
  "exportable fs \<Longrightarrow> fmlookup (shipped fs c art) ''bundle.sig'' = None"
  by (auto simp: shipped_def reserved_def exportable_def fmlookup_dom_iff)

lemma complete_bundle_verifies:
  assumes "exportable fs" and "fmlookup B ''checksums.sha256'' = Some (Canonicalize fs)" and "fmlookup B ''bundle.sig'' = None"
    and "\<And>p. p \<in> trusted_names fs \<Longrightarrow> fmlookup B p = fmlookup fs p"
  shows "\<exists>r. VerifyBundle cr B [] = Inr r"
proof -
  have "fs \<noteq> fmempty" "\<And>p. p |\<in>| fmdom fs \<Longrightarrow> path_ok p" "''install.sh'' |\<in>| fmdom fs"
    using assms(1) by (auto simp: exportable_def)
  moreover have "check_files B (sorted_list_of_fmap (fmmap sha256_hex fs)) = None"
    using assms(4) by (auto simp: check_listed trusted_names_def fmlookup_dom_iff)
  moreover have "fmlookup B p = fmlookup fs p" if "p \<in> {''install.sh'', ''artifacts.json'', policyFileName, successorFileName}" for p
    using that assms(4) by (auto simp: trusted_names_def)
  ultimately show ?thesis
    using assms(1-3) parse_Canonicalize [of fs]
    by (auto simp: VerifyBundle_def check_signature_def uncovered_def exportable_def fmlookup_dom_iff)
qed

lemma signed_membership_accepted:
  assumes "Canonical tlist = Inr c" and "trust_list_ok tlist" and "sorted (map mNodeID (tlMembers tlist))"
    and "fmlookup B ''trustlist.json'' = Some c" and "fmlookup B ''trustlist.sig'' = Some (json_text (signed_json art))"
    and "fmlookup B ''checksums.sha256'' = Some cs" and "collectBundlePeerKeys B = Some ks"
    and "self_member (mcNodeID cfg) (tlMembers tlist) = Some self" and "mBundleSHA256 self = sha256_hex cs"
    and "set ks \<subseteq> member_keys (tlMembers tlist)" and "prev \<le> tlEpoch tlist"
    and "unmarshal_signed (json_text (signed_json art)) = Some art"
    and "pinnedCredential cr cfg = Some pin" and "Verify cr tlist art pin = None" and "mcOperatorCredPEM cfg \<noteq> []"
  shows "VerifyMembership cr B cfg prev = Inr (tlEpoch tlist)"
proof -
  have bytes: "c = json_text (trust_list_json tlist) @ [CHR 0x0A]"
    using assms(1,3) by (auto simp: Canonical_def Let_def sort_key_id_if_sorted split: if_splits)
  show ?thesis
    using assms sha256_hex_nonempty
    by (auto simp: VerifyMembership_def bytes [symmetric] read_trust_list [OF assms(2), folded bytes] EqualFold_def list_all_iff)
qed

text \<open>What the software signer produces reads back, and verifies under the signer's key.\<close>

lemma signer_output:
  assumes "Sign cr priv tlist = Inr art" and "utf8_valid (crMarshalPEM cr (crEd25519Public cr priv))"
    and "\<And>m. crEd25519Verify cr (crEd25519Public cr priv) m (crEd25519Sign cr priv m)"
    and "length (crEd25519Public cr priv) = 32" and "\<And>m. length (crEd25519Sign cr priv m) = 64"
    and "mcOperatorCredAlg cfg = AlgEd25519"
    and "crParsePublicKey cr (mcOperatorCredPEM cfg) = Some (Ed25519Key (crEd25519Public cr priv))"
  obtains c pin where "Canonical tlist = Inr c" "unmarshal_signed (json_text (signed_json art)) = Some art"
    "pinnedCredential cr cfg = Some pin" "Verify cr tlist art pin = None"
proof -
  obtain c where c: "Canonical tlist = Inr c" and art: "art = \<lparr>stAlg = AlgEd25519, stCredentialID = KeyID cr priv,
      stPublicKey = crMarshalPEM cr (crEd25519Public cr priv),
      stSignature = b64_encode RawURLEncoding (crEd25519Sign cr priv c), stAuthenticatorData = [], stClientDataJSON = []\<rparr>"
    using assms(1) by (auto simp: Sign_def split: sum.splits)
  obtain pin where pin: "pinnedCredential cr cfg = Some pin" "pcAlg pin = AlgEd25519" "pcEd25519Pub pin = crEd25519Public cr priv"
    using assms(6,7) by (simp add: pinnedCredential_def Let_def ParseEd25519PinPEM_def)
  have "Verify cr tlist art pin = None"
    using assms(3-5) pin c by (auto simp: art Verify_def verifyEd25519_def bundlesig_Verify_def b64_decode_encode)
  moreover have "utf8_valid AlgEd25519" by code_simp
  then have "unmarshal_signed (json_text (signed_json art)) = Some art"
    using assms(2) by (intro read_signed) (simp_all add: art KeyID_def hex_utf8 ascii_utf8_valid b64_ascii)
  ultimately show ?thesis using that c pin(1) by blast
qed

lemma shipped_agrees: "exportable fs \<Longrightarrow> p \<in> trusted_names fs \<Longrightarrow> fmlookup (shipped fs c art) p = fmlookup fs p"
  by (rule shipped_lookup(4))
    (auto simp: trusted_names_def exportable_def reserved_def policyFileName_def successorFileName_def)

lemma shipped_peers: "collectBundlePeerKeys (shipped fs c art) = collectBundlePeerKeys fs"
proof -
  have "\<not> is_conf ''trustlist.sig''" "\<not> is_conf ''trustlist.json''" "\<not> is_conf ''checksums.sha256''" by code_simp+
  then show ?thesis by (simp add: shipped_def peers_fmupd)
qed

text \<open>
  Claim C29: a node accepts what the operator signed.  Take exportable files, a trust list in canonical order whose
  entry for the node carries the digest of their checksum file, and an epoch that is not
  below the node's; if every peer key of the configurations is a member's, then the bundle made of the
  files, the checksum file, the canonical trust list and the operator's signature passes the integrity
  check and the membership check, which returns the epoch of the list.
\<close>

theorem shipped_bundle_is_accepted:
  assumes "exportable fs" and "trust_list_ok tlist" and "sorted (map mNodeID (tlMembers tlist))"
    and "self_member (mcNodeID cfg) (tlMembers tlist) = Some self" and "mBundleSHA256 self = sha256_hex (Canonicalize fs)"
    and "collectBundlePeerKeys fs = Some ks" and "set ks \<subseteq> member_keys (tlMembers tlist)"
    and "prev \<le> tlEpoch tlist" and "Sign cr priv tlist = Inr art" and "utf8_valid (crMarshalPEM cr (crEd25519Public cr priv))"
    and "\<And>m. crEd25519Verify cr (crEd25519Public cr priv) m (crEd25519Sign cr priv m)"
    and "length (crEd25519Public cr priv) = 32" and "\<And>m. length (crEd25519Sign cr priv m) = 64"
    and "mcOperatorCredAlg cfg = AlgEd25519" and "mcOperatorCredPEM cfg \<noteq> []"
    and "crParsePublicKey cr (mcOperatorCredPEM cfg) = Some (Ed25519Key (crEd25519Public cr priv))"
  shows "\<exists>c r. Canonical tlist = Inr c \<and> VerifyBundle cr (shipped fs c art) [] = Inr r \<and>
    VerifyMembership cr (shipped fs c art) cfg prev = Inr (tlEpoch tlist)"
proof -
  obtain c pin where c: "Canonical tlist = Inr c" "unmarshal_signed (json_text (signed_json art)) = Some art"
    "pinnedCredential cr cfg = Some pin" "Verify cr tlist art pin = None"
    by (rule signer_output [OF assms(9-14,16)])
  have "\<exists>r. VerifyBundle cr (shipped fs c art) [] = Inr r"
    by (rule complete_bundle_verifies [OF assms(1)]) (use assms(1) in \<open>simp_all add: shipped_lookup shipped_agrees\<close>)
  moreover have "VerifyMembership cr (shipped fs c art) cfg prev = Inr (tlEpoch tlist)"
    by (rule signed_membership_accepted [OF c(1) assms(2,3)])
      (use assms c in \<open>simp_all add: shipped_lookup shipped_peers\<close>)
  ultimately show ?thesis using c(1) by blast
qed

text \<open>The example bundle.\<close>

lemma example_files_facts:
  "exportable example_files" "collectBundlePeerKeys example_files = Some [''kB'']"
proof -
  have dom: "fmdom example_files = {|''install.sh'', ''wireguard/wg0.conf''|}"
    by (simp add: example_files_def)
  then show "exportable example_files"
    by (simp add: exportable_def reserved_def path_ok_def policyFileName_def successorFileName_def)
  have "sorted_list_of_fmap example_files
      = [(''install.sh'', ''wg-quick up wg0''), (''wireguard/wg0.conf'', ''[Peer]'' @ [CHR 0x0A] @ ''PublicKey = kB'')]"
    by code_simp
  moreover have "all_peers [(''install.sh'', ''wg-quick up wg0''), (''wireguard/wg0.conf'', ''[Peer]'' @ [CHR 0x0A] @ ''PublicKey = kB'')]
      = Some [''kB'']" by code_simp
  ultimately show "collectBundlePeerKeys example_files = Some [''kB'']" by (simp add: collectBundlePeerKeys_def)
qed

lemma example_membership_facts:
  "trust_list_ok example_membership" "\<exists>art. Sign example_crypto ''key'' example_membership = Inr art"
proof -
  have "utf8_valid ''acme''" "utf8_valid ''a''" "utf8_valid ''b''" "utf8_valid ''kA''" "utf8_valid ''kB''" "utf8_valid []" by code_simp+
  then show "trust_list_ok example_membership"
    by (simp add: trust_list_ok_def example_membership_def int64_def member_ok_def hex_utf8)
  have "distinct (map mNodeID (tlMembers example_membership))" by (simp add: example_membership_def)
  then obtain c where "Canonical example_membership = Inr c" using Canonical_defined by blast
  then show "\<exists>art. Sign example_crypto ''key'' example_membership = Inr art" by (simp add: Sign_def)
qed

theorem shipped_bundle_is_accepted_witness:
  "\<exists>art c r. Sign example_crypto ''key'' example_membership = Inr art \<and> Canonical example_membership = Inr c \<and>
     VerifyBundle example_crypto (shipped example_files c art) [] = Inr r \<and>
     VerifyMembership example_crypto (shipped example_files c art) example_config 7 = Inr 7"
proof -
  obtain art where art: "Sign example_crypto ''key'' example_membership = Inr art" using example_membership_facts(2) by blast
  have "\<exists>c r. Canonical example_membership = Inr c \<and> VerifyBundle example_crypto (shipped example_files c art) [] = Inr r \<and>
      VerifyMembership example_crypto (shipped example_files c art) example_config 7 = Inr (tlEpoch example_membership)"
    by (rule shipped_bundle_is_accepted [OF example_files_facts(1) example_membership_facts(1) _ _ _ example_files_facts(2) _ _ art])
      (auto simp: example_membership_def example_config_def example_crypto_def sha256_bytes_def hex_utf8
        self_member_def member_keys_def)
  with art show ?thesis by (auto simp: example_membership_def)
qed

text \<open>Any bundle with the example's files is accepted, whatever else it carries.\<close>

lemma example_bundle_accepted:
  assumes "Sign example_crypto ''key'' example_membership = Inr art" and "Canonical example_membership = Inr c"
    and "\<And>p. p \<in> trusted_names example_files \<union> reserved \<Longrightarrow> fmlookup B p = fmlookup (shipped example_files c art) p"
    and "collectBundlePeerKeys B = Some [''kB'']"
  shows "\<exists>r. VerifyBundle example_crypto B [] = Inr r"
    and "VerifyMembership example_crypto B example_config 7 = Inr (tlEpoch example_membership)"
proof -
  have lookups: "fmlookup B ''checksums.sha256'' = Some (Canonicalize example_files)" "fmlookup B ''bundle.sig'' = None"
    "fmlookup B ''trustlist.json'' = Some c" "fmlookup B ''trustlist.sig'' = Some (json_text (signed_json art))"
    using assms(3) example_files_facts(1) by (auto simp: reserved_def shipped_lookup)
  show "\<exists>r. VerifyBundle example_crypto B [] = Inr r"
    by (rule complete_bundle_verifies [OF example_files_facts(1) lookups(1,2)])
      (simp add: assms(3) shipped_agrees example_files_facts(1))
  obtain pin where c: "unmarshal_signed (json_text (signed_json art)) = Some art"
    "pinnedCredential example_crypto example_config = Some pin" "Verify example_crypto example_membership art pin = None"
    by (rule signer_output [OF assms(1), of example_config])
      (blast | simp add: example_config_def example_crypto_def sha256_bytes_def hex_utf8)+
  show "VerifyMembership example_crypto B example_config 7 = Inr (tlEpoch example_membership)"
    by (rule signed_membership_accepted [OF assms(2) example_membership_facts(1) _ lookups(3,4,1) assms(4) _ _ _ _ c])
      (simp add: example_membership_def example_config_def self_member_def member_keys_def)+
qed

theorem signed_membership_fixes_the_bundle_witness:
  "\<exists>fs r epoch fs' r' epoch'. fs \<noteq> fs' \<and>
     VerifyBundle example_crypto fs [] = Inr r \<and> VerifyMembership example_crypto fs example_config 7 = Inr epoch \<and>
     VerifyBundle example_crypto fs' [] = Inr r' \<and> VerifyMembership example_crypto fs' example_config 7 = Inr epoch' \<and>
     epoch = epoch' \<and>
     ((\<exists>p a b. fmlookup fs p = Some a \<and> fmlookup fs' p = Some b \<and> collision a b) \<or>
      (\<exists>checksums listed. fmlookup fs ''checksums.sha256'' = Some checksums \<and> fmlookup fs' ''checksums.sha256'' = Some checksums \<and>
         parseChecksums checksums = Some listed \<and> ''install.sh'' |\<in>| fmdom listed \<and>
         (\<forall>p \<in> trusted_names listed. fmlookup fs p = fmlookup fs' p)))"
proof -
  obtain art where art: "Sign example_crypto ''key'' example_membership = Inr art" using example_membership_facts(2) by blast
  then obtain c where c: "Canonical example_membership = Inr c" by (auto simp: Sign_def split: sum.splits)
  let ?B = "shipped example_files c art" and ?B' = "fmupd ''README'' ''hello'' (shipped example_files c art)"
  have readme: "\<not> is_conf ''README''" by code_simp
  have "''README'' \<notin> trusted_names example_files \<union> reserved"
    by (auto simp: trusted_names_def example_files_def policyFileName_def successorFileName_def reserved_def)
  then have same: "fmlookup ?B' p = fmlookup ?B p" if "p \<in> trusted_names example_files \<union> reserved" for p using that by auto
  have peers: "collectBundlePeerKeys ?B = Some [''kB'']" "collectBundlePeerKeys ?B' = Some [''kB'']"
    by (simp_all add: peers_fmupd readme shipped_peers example_files_facts(2))
  note B = example_bundle_accepted [OF art c refl peers(1)] and B' = example_bundle_accepted [OF art c same peers(2)]
  obtain r r' where r: "VerifyBundle example_crypto ?B [] = Inr r" "VerifyBundle example_crypto ?B' [] = Inr r'" using B B' by blast
  have "fmlookup ?B ''README'' = None" by (simp add: shipped_def example_files_def)
  then have diff: "?B \<noteq> ?B'" by (metis fmupd_lookup option.distinct(1))
  have tl: "fmlookup ?B ''trustlist.json'' = fmlookup ?B' ''trustlist.json''" by simp
  have pinned: "mcOperatorCredPEM example_config \<noteq> []" by (simp add: example_config_def)
  note result = signed_membership_fixes_the_bundle [OF pinned r(1) B(2) r(2) B'(2) tl]
  from diff r(1) B(2) r(2) B'(2) result show ?thesis by blast
qed

end
