(* ===== verification/Bundle_Paths.thy ===== *)
theory Bundle_Paths
  imports Bundle_Verify
begin

text \<open>
  The materialization preflight of a fetched bundle (\<^verbatim>\<open>validateBundlePaths\<close> in \<^verbatim>\<open>internal/agent/agent.go\<close>):
  which sets of file names are accepted before anything is written to the staging directory.  Unicode
  case mapping is an argument.
\<close>

section \<open>Slash-separated paths\<close>

text \<open>\<^verbatim>\<open>path.Clean\<close>: one step of the walk over the elements, on the reversed output.\<close>

fun join_with :: "char \<Rightarrow> string list \<Rightarrow> string" where
  "join_with sep [] = []"
| "join_with sep [x] = x"
| "join_with sep (x # y # xs) = x @ sep # join_with sep (y # xs)"

definition clean_step :: "bool \<Rightarrow> string \<Rightarrow> string list \<Rightarrow> string list" where
  "clean_step rooted e out =
     (if e = [] \<or> e = ''.'' then out
      else if e = ''..'' then
        (case out of
           [] \<Rightarrow> (if rooted then [] else [''..''])
         | e' # rest \<Rightarrow> (if e' = ''..'' then ''..'' # out else rest))
      else e # out)"

definition path_IsAbs :: "string \<Rightarrow> bool" where
  "path_IsAbs p \<longleftrightarrow> HasPrefix p ''/''"

definition path_Clean :: "string \<Rightarrow> string" where
  "path_Clean p =
     (let rooted = path_IsAbs p;
          body = join_with (CHR ''/'') (rev (fold (clean_step rooted) (split_on (CHR ''/'') p) []));
          res = (if rooted then CHR ''/'' # body else body)
      in if res = [] then ''.'' else res)"

text \<open>\<^verbatim>\<open>path.Dir\<close> of a clean relative path.\<close>

definition path_Dir :: "string \<Rightarrow> string" where
  "path_Dir p = path_Clean (rev (dropWhile (\<lambda>c. c \<noteq> CHR ''/'') (rev p)))"

section \<open>The preflight\<close>

definition volume_qualified :: "string \<Rightarrow> bool" where
  "volume_qualified rel \<longleftrightarrow> 2 \<le> length rel \<and>
     (65 \<le> byte rel 0 \<and> byte rel 0 \<le> 90 \<or> 97 \<le> byte rel 0 \<and> byte rel 0 \<le> 122) \<and> rel ! 1 = CHR '':''"

definition validateCanonicalBundlePath :: "string \<Rightarrow> bool" where
  "validateCanonicalBundlePath rel \<longleftrightarrow>
     \<not> (rel = [] \<or> CHR 0x00 \<in> set rel \<or> CHR 0x5C \<in> set rel) \<and>
     \<not> volume_qualified rel \<and>
     (let clean = path_Clean rel
      in \<not> (path_IsAbs rel \<or> clean = ''.'' \<or> clean = ''..'' \<or> HasPrefix clean ''../'' \<or> clean \<noteq> rel))"

text \<open>The destinations seen so far, each with the name that claimed it.\<close>

fun claim_paths :: "(string \<Rightarrow> string) \<Rightarrow> string list \<Rightarrow> (string, string) fmap \<Rightarrow> (string, string) fmap option" where
  "claim_paths lowercase [] seen = Some seen"
| "claim_paths lowercase (rel # rels) seen =
     (if \<not> validateCanonicalBundlePath rel then None
      else let normalized = lowercase (path_Clean rel)
           in if fmlookup seen normalized \<noteq> None then None
              else claim_paths lowercase rels (fmupd normalized rel seen))"

text \<open>Whether some directory above a destination is itself a destination.\<close>

function parent_taken :: "(string, string) fmap \<Rightarrow> string \<Rightarrow> bool" where
  "parent_taken seen p =
     (if p = ''.'' then False
      else if fmlookup seen p \<noteq> None then True
      else if length (path_Dir p) < length p then parent_taken seen (path_Dir p)
      else False)"
  by pat_completeness auto
termination by (relation "measure (\<lambda>(seen, p). length p)") auto

declare parent_taken.simps [simp del]

definition validateBundlePaths :: "(string \<Rightarrow> string) \<Rightarrow> files \<Rightarrow> string list option" where
  "validateBundlePaths lowercase fs =
     (let rels = sorted_list_of_fset (fmdom fs)
      in case claim_paths lowercase rels fmempty of
           None \<Rightarrow> None
         | Some seen \<Rightarrow>
             (if list_ex (\<lambda>normalized. parent_taken seen (path_Dir normalized)) (sorted_list_of_fset (fmdom seen)) then None
              else Some rels))"

definition PreflightBundleMaterialization :: "(string \<Rightarrow> string) \<Rightarrow> files \<Rightarrow> bool" where
  "PreflightBundleMaterialization lowercase fs \<longleftrightarrow> validateBundlePaths lowercase fs \<noteq> None"

section \<open>Specification\<close>

text \<open>The elements of a path that stays below the directory it is joined to.\<close>

definition plain_element :: "string \<Rightarrow> bool" where
  "plain_element e \<longleftrightarrow> e \<noteq> [] \<and> e \<noteq> ''.'' \<and> e \<noteq> ''..'' \<and> CHR ''/'' \<notin> set e"

abbreviation elements :: "string \<Rightarrow> string list" where
  "elements \<equiv> split_on (CHR ''/'')"

text \<open>What a case mapping does to paths: it works element by element and keeps plain elements plain.\<close>

definition case_mapping :: "(string \<Rightarrow> string) \<Rightarrow> bool" where
  "case_mapping lowercase \<longleftrightarrow> (\<forall>p. elements (lowercase p) = map lowercase (elements p)) \<and>
     (\<forall>e. plain_element e \<longrightarrow> plain_element (lowercase e))"

section \<open>Paths and their elements\<close>

lemma elements_no_slash: "e \<in> set (elements p) \<Longrightarrow> CHR ''/'' \<notin> set e"
  by (induction p arbitrary: e) (auto split: if_splits list.splits)

lemma elements_nonempty [simp]: "elements p \<noteq> []"
  by (cases p) (auto split: list.splits)

lemma join_elements: "join_with (CHR ''/'') (elements p) = p"
proof (induction p)
  case (Cons c p)
  obtain l ls where "elements p = l # ls" by (cases "elements p") auto
  with Cons show ?case by (cases ls) auto
qed simp

lemma elements_single: "sep \<notin> set e \<Longrightarrow> split_on sep e = [e]"
  by (induction e) auto

lemma elements_join: "es \<noteq> [] \<Longrightarrow> \<forall>e \<in> set es. sep \<notin> set e \<Longrightarrow> split_on sep (join_with sep es) = es"
  by (induction sep es rule: join_with.induct) (auto simp: elements_single split_on_line)

text \<open>The walk shrinks unless every element is pushed.\<close>

lemma clean_length: "length (fold (clean_step r) es out) \<le> length es + length out"
proof (induction es arbitrary: out)
  case (Cons e es)
  have "length (clean_step r e out) \<le> Suc (length out)" by (auto simp: clean_step_def split: list.splits)
  then show ?case using Cons [of "clean_step r e out"] by simp
qed simp

lemma clean_all_pushed:
  assumes "length (fold (clean_step False) es out) = length es + length out"
  shows "(\<forall>e \<in> set es. e \<noteq> [] \<and> e \<noteq> ''.'') \<and> (''..'' \<in> set es \<longrightarrow> hd (out @ es) = ''..'' \<or> (out \<noteq> [] \<and> hd out = ''..''))"
  using assms
proof (induction es arbitrary: out)
  case (Cons e es)
  let ?out = "clean_step False e out"
  have "length ?out \<le> Suc (length out)" by (auto simp: clean_step_def split: list.splits)
  with Cons.prems clean_length [of False es ?out] have eq: "length ?out = Suc (length out)"
    "length (fold (clean_step False) es ?out) = length es + length ?out" by simp_all
  from eq(1) have e: "e \<noteq> []" "e \<noteq> ''.''" "e = ''..'' \<Longrightarrow> out = [] \<or> hd out = ''..''" "?out = e # out"
    by (auto simp: clean_step_def split: if_splits list.splits)
  from Cons.IH [OF eq(2)] e show ?case by (auto simp: hd_append)
qed simp

lemma canonical_elements:
  assumes "validateCanonicalBundlePath rel"
  shows "list_all plain_element (elements rel)"
proof -
  let ?out = "fold (clean_step False) (elements rel) []"
  have ok: "rel \<noteq> []" "\<not> path_IsAbs rel" "path_Clean rel = rel" "rel \<noteq> ''.''" "rel \<noteq> ''..''" "\<not> HasPrefix rel ''../''"
    using assms by (auto simp: validateCanonicalBundlePath_def Let_def)
  then have join: "join_with (CHR ''/'') (rev ?out) = rel" by (auto simp: path_Clean_def Let_def split: if_splits)
  have slash: "\<forall>e \<in> set (fold (clean_step False) es out). CHR ''/'' \<notin> set e"
    if "\<forall>e \<in> set es. CHR ''/'' \<notin> set e" "\<forall>e \<in> set out. CHR ''/'' \<notin> set e" for es out
    using that
  proof (induction es arbitrary: out)
    case (Cons e es)
    show ?case unfolding fold_Cons comp_def
      by (rule Cons.IH) (use Cons.prems in \<open>auto simp: clean_step_def split: list.splits if_splits\<close>)
  qed simp
  have "?out \<noteq> []" using join ok(1) by auto
  then have "elements rel = rev ?out"
    using elements_join [of "rev ?out"] slash [of "elements rel" "[]"] elements_no_slash join by fastforce
  then have "length ?out = length (elements rel)" by (metis length_rev)
  from clean_all_pushed [of "elements rel" "[]"] this
  have plain: "\<forall>e \<in> set (elements rel). e \<noteq> [] \<and> e \<noteq> ''.''" "''..'' \<in> set (elements rel) \<longrightarrow> hd (elements rel) = ''..''"
    by simp_all
  have "hd (elements rel) \<noteq> ''..''"
  proof
    assume "hd (elements rel) = ''..''"
    then obtain es where es: "elements rel = ''..'' # es" by (cases "elements rel") auto
    then have "rel = join_with (CHR ''/'') (''..'' # es)" by (metis join_elements)
    then show False using ok(5,6) by (cases es) (auto simp: HasPrefix_def)
  qed
  with plain show ?thesis by (auto simp: list_all_iff plain_element_def dest: elements_no_slash)
qed

lemma join_snoc: "es \<noteq> [] \<Longrightarrow> join_with sep (es @ [e]) = join_with sep es @ sep # e"
  by (induction sep es rule: join_with.induct) auto

lemma clean_plain: "list_all plain_element es \<Longrightarrow> fold (clean_step r) es out = rev es @ out"
  by (induction es arbitrary: out) (auto simp: clean_step_def plain_element_def)

lemma plain_no_slash: "list_all plain_element es \<Longrightarrow> \<forall>e \<in> set es. CHR ''/'' \<notin> set e"
  by (auto simp: list_all_iff plain_element_def)

lemma plain_not_abs:
  assumes "list_all plain_element es" and "es \<noteq> []"
  shows "\<not> path_IsAbs (join_with (CHR ''/'') es @ s)"
proof -
  obtain e es' where es: "es = e # es'" using assms(2) by (cases es) auto
  then obtain c cs where "e = c # cs" "c \<noteq> CHR ''/''" using assms(1) by (cases e) (auto simp: plain_element_def)
  then show ?thesis by (cases es') (auto simp: es path_IsAbs_def HasPrefix_def)
qed

lemma Dir_plain:
  assumes "list_all plain_element (es @ [e])"
  shows "path_Dir (join_with (CHR ''/'') (es @ [e])) = (if es = [] then ''.'' else join_with (CHR ''/'') es)"
proof -
  have e: "CHR ''/'' \<notin> set e" "list_all plain_element es" using assms by (auto simp: plain_element_def)
  then have drop: "dropWhile (\<lambda>c. c \<noteq> CHR ''/'') (rev e @ s) = dropWhile (\<lambda>c. c \<noteq> CHR ''/'') s" for s
    by (subst dropWhile_append2) auto
  show ?thesis
  proof (cases "es = []")
    case True
    have dot: "path_Clean [] = ''.''" by code_simp
    have none: "dropWhile (\<lambda>c. c \<noteq> CHR ''/'') (rev e) = []" using e(1) by auto
    show ?thesis by (simp only: path_Dir_def True append_Nil join_with.simps none rev.simps dot) simp
  next
    case False
    let ?p = "join_with (CHR ''/'') es @ ''/''"
    have "?p = join_with (CHR ''/'') (es @ [[]])" using False by (simp add: join_snoc)
    then have "elements ?p = es @ [[]]" using elements_join [of "es @ [[]]" "CHR ''/''"] plain_no_slash [OF e(2)] by auto
    then have "path_Clean ?p = join_with (CHR ''/'') es"
      using plain_not_abs [OF e(2) False, of "''/''"] elements_join [OF False plain_no_slash [OF e(2)]] False e(2)
      by (auto simp: path_Clean_def Let_def clean_plain clean_step_def plain_element_def)
    then show ?thesis using False drop [of "CHR ''/'' # rev (join_with (CHR ''/'') es)"]
      by (simp add: path_Dir_def join_snoc)
  qed
qed

lemma join_plain_not_dot: "list_all plain_element es \<Longrightarrow> es \<noteq> [] \<Longrightarrow> join_with (CHR ''/'') es \<noteq> ''.''"
  using elements_join [of es "CHR ''/''"] plain_no_slash [of es] elements_single [of "CHR ''/''" "''.''"]
  by (auto simp: plain_element_def)

lemma parent_taken_iff:
  assumes "list_all plain_element es" and "es \<noteq> []"
  shows "parent_taken seen (join_with (CHR ''/'') es) \<longleftrightarrow>
    (\<exists>k. 0 < k \<and> k \<le> length es \<and> fmlookup seen (join_with (CHR ''/'') (take k es)) \<noteq> None)"
  using assms
proof (induction es rule: rev_induct)
  case (snoc e es)
  let ?p = "join_with (CHR ''/'') (es @ [e])"
  have dot: "?p \<noteq> ''.''" using join_plain_not_dot [OF snoc.prems] .
  have split: "(\<exists>k. 0 < k \<and> k \<le> length (es @ [e]) \<and> P (take k (es @ [e]))) \<longleftrightarrow>
      P (es @ [e]) \<or> (\<exists>k. 0 < k \<and> k \<le> length es \<and> P (take k es))" for P
  proof
    assume "\<exists>k. 0 < k \<and> k \<le> length (es @ [e]) \<and> P (take k (es @ [e]))"
    then obtain k where k: "0 < k" "k \<le> Suc (length es)" "P (take k (es @ [e]))" by auto
    show "P (es @ [e]) \<or> (\<exists>k. 0 < k \<and> k \<le> length es \<and> P (take k es))"
    proof (cases "k \<le> length es")
      case True
      then have "take k (es @ [e]) = take k es" by simp
      with k True show ?thesis by metis
    next
      case False
      then have "take k (es @ [e]) = es @ [e]" using k(2) by simp
      with k(3) show ?thesis by simp
    qed
  next
    assume "P (es @ [e]) \<or> (\<exists>k. 0 < k \<and> k \<le> length es \<and> P (take k es))"
    then consider "P (es @ [e])" | k where "0 < k" "k \<le> length es" "P (take k es)" by blast
    then show "\<exists>k. 0 < k \<and> k \<le> length (es @ [e]) \<and> P (take k (es @ [e]))"
    proof cases
      case 1
      then show ?thesis by (intro exI [of _ "Suc (length es)"]) simp
    next
      case 2
      then show ?thesis by (intro exI [of _ k]) simp
    qed
  qed
  show ?case
  proof (cases "es = []")
    case True
    then have "path_Dir ?p = ''.''" using Dir_plain [OF snoc.prems(1)] by simp
    then have "parent_taken seen (path_Dir ?p) \<longleftrightarrow> False" by (simp add: parent_taken.simps [of seen "''.''"])
    then have "parent_taken seen ?p \<longleftrightarrow> fmlookup seen ?p \<noteq> None" by (subst parent_taken.simps) (simp add: dot)
    then show ?thesis
      unfolding split [of "\<lambda>es. fmlookup seen (join_with (CHR ''/'') es) \<noteq> None"] using True by simp
  next
    case False
    then have "path_Dir ?p = join_with (CHR ''/'') es" "length (join_with (CHR ''/'') es) < length ?p"
      using Dir_plain [OF snoc.prems(1)] by (simp_all add: join_snoc)
    then have "parent_taken seen ?p \<longleftrightarrow> fmlookup seen ?p \<noteq> None \<or> parent_taken seen (join_with (CHR ''/'') es)"
      by (subst parent_taken.simps) (simp add: dot)
    moreover have "list_all plain_element es" using snoc.prems(1) by simp
    ultimately show ?thesis
      unfolding split [of "\<lambda>es. fmlookup seen (join_with (CHR ''/'') es) \<noteq> None"] using snoc.IH False by simp
  qed
qed simp

lemma claim_paths_some:
  assumes "claim_paths lowercase rels seen = Some out"
  shows "(\<forall>rel \<in> set rels. validateCanonicalBundlePath rel) \<and> distinct (map lowercase rels) \<and>
    fset (fmdom out) = fset (fmdom seen) \<union> lowercase ` set rels \<and> fset (fmdom seen) \<inter> lowercase ` set rels = {}"
  using assms
proof (induction rels arbitrary: seen)
  case (Cons rel rels)
  have v: "validateCanonicalBundlePath rel" "fmlookup seen (lowercase (path_Clean rel)) = None"
    "claim_paths lowercase rels (fmupd (lowercase (path_Clean rel)) rel seen) = Some out"
    using Cons.prems by (auto simp: Let_def split: if_splits)
  moreover have "path_Clean rel = rel" using v(1) by (auto simp: validateCanonicalBundlePath_def Let_def)
  ultimately show ?case using Cons.IH [of "fmupd (lowercase rel) rel seen"] by (auto simp: fmlookup_dom_iff)
qed simp

text \<open>
  Claim C31: when the preflight accepts a bundle, its destinations are the bundle's names in order; no name has an
  empty, dot or dot-dot element, so every file lands below the staging directory; no two names
  differ only in case; and no name is a directory of another, also up to case.
\<close>

theorem staged_paths_are_contained:
  assumes "case_mapping lowercase" and "validateBundlePaths lowercase fs = Some rels"
  shows "rels = sorted_list_of_fset (fmdom fs) \<and> list_all (\<lambda>rel. list_all plain_element (elements rel)) rels \<and>
    inj_on lowercase (set rels) \<and>
    (\<forall>rel \<in> set rels. \<forall>rel' \<in> set rels. \<not> HasPrefix (lowercase rel') (lowercase rel @ ''/''))"
proof -
  obtain seen where seen: "claim_paths lowercase rels fmempty = Some seen" "rels = sorted_list_of_fset (fmdom fs)"
    "\<not> list_ex (\<lambda>n. parent_taken seen (path_Dir n)) (sorted_list_of_fset (fmdom seen))"
    using assms(2) by (auto simp: validateBundlePaths_def Let_def split: option.splits if_splits)
  note c = claim_paths_some [OF seen(1)]
  have plain: "list_all plain_element (elements rel)" if "rel \<in> set rels" for rel
    using c that canonical_elements by blast
  have low: "list_all plain_element (elements (lowercase rel))" if "rel \<in> set rels" for rel
    using plain [OF that] assms(1) by (auto simp: case_mapping_def list_all_iff)
  have "False" if r: "rel \<in> set rels" "rel' \<in> set rels" and pre: "HasPrefix (lowercase rel') (lowercase rel @ ''/'')" for rel rel'
  proof -
    obtain s where s: "lowercase rel' = lowercase rel @ CHR ''/'' # s"
      using pre by (auto simp: HasPrefix_def) (metis append_take_drop_id append.assoc append_Cons append_Nil)
    let ?es = "elements (lowercase rel')"
    have split: "elements (x @ CHR ''/'' # y) = elements x @ elements y" for x y
      by (induction x) (auto split: list.splits)
    then have es: "?es = elements (lowercase rel) @ elements s" using s by simp
    define k where "k = length (elements (lowercase rel))"
    have k: "0 < k" "k < length ?es" "take k ?es = elements (lowercase rel)" using es by (simp_all add: k_def)
    have b: "butlast ?es \<noteq> []" "list_all plain_element (butlast ?es)" "?es = butlast ?es @ [last ?es]"
      using k low [OF r(2)] by (cases ?es rule: rev_cases; auto)+
    have "path_Dir (join_with (CHR ''/'') (butlast ?es @ [last ?es])) = join_with (CHR ''/'') (butlast ?es)"
      using Dir_plain [of "butlast ?es" "last ?es"] b low [OF r(2)] by simp
    then have "path_Dir (lowercase rel') = join_with (CHR ''/'') (butlast ?es)"
      using b(3) by (simp add: join_elements)
    moreover have "join_with (CHR ''/'') (take k (butlast ?es)) = lowercase rel"
      using k by (simp add: take_butlast join_elements)
    moreover have "lowercase rel |\<in>| fmdom seen" "lowercase rel' |\<in>| fmdom seen" using c r by auto
    ultimately have "parent_taken seen (path_Dir (lowercase rel'))"
      using parent_taken_iff [OF b(2,1), of seen] k by (auto simp: fmlookup_dom_iff intro!: exI [of _ k])
    then show False using seen(3) \<open>lowercase rel' |\<in>| fmdom seen\<close> by (auto simp: list_ex_iff)
  qed
  with seen(2) plain c show ?thesis by (auto simp: list_all_iff distinct_map)
qed

text \<open>The ASCII case mapping is one.\<close>

lemma lower_punctuation: "(of_char d :: nat) < 65 \<Longrightarrow> lower c = d \<longleftrightarrow> c = d"
proof -
  assume d: "(of_char d :: nat) < 65"
  have "of_char (char_of (of_char c + 32 :: nat) :: char) = of_char c + (32 :: nat)" if "(of_char c :: nat) \<le> 90"
    using that by (simp add: of_char_of)
  with d show ?thesis by (auto simp: lower_def)
qed

lemma ascii_case_mapping: "case_mapping (map lower)"
proof -
  have p: "lower c = CHR ''/'' \<longleftrightarrow> c = CHR ''/''" "lower c = CHR ''.'' \<longleftrightarrow> c = CHR ''.''" for c
    by (simp_all add: lower_punctuation)
  have "elements (map lower s) = map (map lower) (elements s)" for s
    by (induction s) (auto simp: p split: list.splits)
  moreover have "plain_element (map lower e)" if "plain_element e" for e
  proof -
    have "map lower e = ''.'' \<longleftrightarrow> e = ''.''" "map lower e = ''..'' \<longleftrightarrow> e = ''..''"
      by (simp_all add: map_eq_Cons_conv p)
    moreover have "CHR ''/'' \<in> set (map lower e) \<longleftrightarrow> CHR ''/'' \<in> set e" using p(1) by (auto simp: image_iff eq_commute [of "CHR ''/''"])
    ultimately show ?thesis using that by (simp only: plain_element_def) simp
  qed
  ultimately show ?thesis by (simp add: case_mapping_def)
qed

theorem staged_paths_are_contained_witness:
  "\<exists>rels. validateBundlePaths (map lower) example_files = Some rels \<and>
     list_all (\<lambda>rel. list_all plain_element (elements rel)) rels \<and> inj_on (map lower) (set rels)"
proof -
  have "validateBundlePaths (map lower) example_files = Some [''install.sh'', ''wireguard/wg0.conf'']" by code_simp
  from this staged_paths_are_contained [OF ascii_case_mapping this] show ?thesis by blast
qed

end
