(* ===== verification/Version.thy ===== *)
theory Version
  imports Go_Strings
begin

text \<open>
  The version comparator (\<^verbatim>\<open>internal/version/version.go\<close>) that orders self-update targets, floors and
  minimum versions on the agent and the refuse-newer guard on the controller.
\<close>

section \<open>Operations\<close>

definition splitVersion :: "string \<Rightarrow> string \<times> string" where
  "splitVersion v0 =
     (let v = takeWhile (\<lambda>c. c \<noteq> CHR ''+'') (TrimPrefix v0 ''v'')
      in (takeWhile (\<lambda>c. c \<noteq> CHR ''-'') v, drop 1 (dropWhile (\<lambda>c. c \<noteq> CHR ''-'') v)))"

definition atoiOrZero :: "string \<Rightarrow> int" where
  "atoiOrZero s = (case ParseInt (TrimSpace s) of None \<Rightarrow> 0 | Some n \<Rightarrow> n)"

text \<open>The loop over the dotted fields; a missing field is 0.\<close>

fun compare_core :: "string list \<Rightarrow> string list \<Rightarrow> int" where
  "compare_core [] [] = 0"
| "compare_core (a # as) [] =
     (let ai = atoiOrZero a in if ai \<noteq> 0 then (if ai < 0 then - 1 else 1) else compare_core as [])"
| "compare_core [] (b # bs) =
     (let bi = atoiOrZero b in if 0 \<noteq> bi then (if 0 < bi then - 1 else 1) else compare_core [] bs)"
| "compare_core (a # as) (b # bs) =
     (let ai = atoiOrZero a; bi = atoiOrZero b
      in if ai \<noteq> bi then (if ai < bi then - 1 else 1) else compare_core as bs)"

definition compareReleaseCore :: "string \<Rightarrow> string \<Rightarrow> int" where
  "compareReleaseCore a b = compare_core (split_on (CHR ''.'') a) (split_on (CHR ''.'') b)"

definition comparePreField :: "string \<Rightarrow> string \<Rightarrow> int" where
  "comparePreField a b =
     (case (ParseInt a, ParseInt b) of
        (Some an, Some bn) \<Rightarrow> (if an \<noteq> bn then (if an < bn then - 1 else 1) else 0)
      | (Some _, None) \<Rightarrow> - 1
      | (None, Some _) \<Rightarrow> 1
      | (None, None) \<Rightarrow> (if a \<noteq> b then (if a < b then - 1 else 1) else 0))"

fun compare_fields :: "string list \<Rightarrow> string list \<Rightarrow> int" where
  "compare_fields [] [] = 0"
| "compare_fields [] (b # bs) = - 1"
| "compare_fields (a # as) [] = 1"
| "compare_fields (a # as) (b # bs) =
     (let c = comparePreField a b in if c \<noteq> 0 then c else compare_fields as bs)"

definition comparePrerelease :: "string \<Rightarrow> string \<Rightarrow> int" where
  "comparePrerelease a b = compare_fields (split_on (CHR ''.'') a) (split_on (CHR ''.'') b)"

definition Compare :: "string \<Rightarrow> string \<Rightarrow> int" where
  "Compare a0 b0 =
     (let a = TrimSpace a0; b = TrimSpace b0
      in if a = b then 0
         else if a = [] then - 1
         else if b = [] then 1
         else let (relA, preA) = splitVersion a; (relB, preB) = splitVersion b;
                  c = compareReleaseCore relA relB
              in if c \<noteq> 0 then c
                 else if preA = [] \<and> preB = [] then 0
                 else if preA = [] then 1
                 else if preB = [] then - 1
                 else comparePrerelease preA preB)"

section \<open>Specification\<close>

text \<open>Equal release cores: a pre-release is below the release.\<close>

definition compare_pre :: "string \<Rightarrow> string \<Rightarrow> int" where
  "compare_pre preA preB =
     (if preA = [] \<and> preB = [] then 0 else if preA = [] then 1 else if preB = [] then - 1
      else comparePrerelease preA preB)"

definition compare_trimmed :: "string \<Rightarrow> string \<Rightarrow> int" where
  "compare_trimmed a b =
     (let c = compareReleaseCore (fst (splitVersion a)) (fst (splitVersion b))
      in if c \<noteq> 0 then c else compare_pre (snd (splitVersion a)) (snd (splitVersion b)))"

section \<open>Comparators\<close>

text \<open>What a three-way comparison promises: swapping negates, and it is transitive.\<close>

locale comparator =
  fixes cmp :: "'a \<Rightarrow> 'a \<Rightarrow> int"
  assumes swap: "cmp b a = - cmp a b"
    and trans: "cmp a b \<le> 0 \<Longrightarrow> cmp b c \<le> 0 \<Longrightarrow> cmp a c \<le> 0"
begin

lemma same [simp]: "cmp a a = 0"
  using swap [of a a] by simp

lemma less_trans: "cmp a b < 0 \<Longrightarrow> cmp b c \<le> 0 \<Longrightarrow> cmp a c < 0"
  using trans [of b c a] swap [of a b] swap [of a c] by force

lemma trans_less: "cmp a b \<le> 0 \<Longrightarrow> cmp b c < 0 \<Longrightarrow> cmp a c < 0"
  using trans [of c a b] swap [of b c] swap [of a c] by force

lemma equal_trans: "cmp a b = 0 \<Longrightarrow> cmp b c = 0 \<Longrightarrow> cmp a c = 0"
  using trans [of a b c] trans [of c b a] swap [of a b] swap [of b c] swap [of a c] by simp

text \<open>A second comparison that decides among equals.\<close>

lemma refine:
  assumes "comparator cmp'"
  shows "comparator (\<lambda>a b. if cmp a b \<noteq> 0 then cmp a b else cmp' a b)"
proof
  fix a b c
  show "(if cmp b a \<noteq> 0 then cmp b a else cmp' b a) = - (if cmp a b \<noteq> 0 then cmp a b else cmp' a b)"
    using swap [of a b] comparator.swap [OF assms, of a b] by simp
  assume ab: "(if cmp a b \<noteq> 0 then cmp a b else cmp' a b) \<le> 0" and bc: "(if cmp b c \<noteq> 0 then cmp b c else cmp' b c) \<le> 0"
  have le: "cmp a b \<le> 0" "cmp b c \<le> 0" using ab bc by (auto split: if_splits)
  consider "cmp a b < 0 \<or> cmp b c < 0" | "cmp a b = 0" "cmp b c = 0" using le by linarith
  then show "(if cmp a c \<noteq> 0 then cmp a c else cmp' a c) \<le> 0"
  proof cases
    case 1
    then have "cmp a c < 0" using le less_trans trans_less by blast
    then show ?thesis by simp
  next
    case 2
    then show ?thesis using ab bc equal_trans [of a b c] comparator.trans [OF assms, of a b c] by simp
  qed
qed

end

text \<open>Comparing images.\<close>

lemma comparator_image: "comparator cmp \<Longrightarrow> comparator (\<lambda>a b. cmp (f a) (f b))"
  unfolding comparator_def by blast

lemma comparePreField_comparator: "comparator comparePreField"
proof
  fix a b c
  show "comparePreField b a = - comparePreField a b"
    by (auto simp: comparePreField_def split: option.splits)
  show "comparePreField a b \<le> 0 \<Longrightarrow> comparePreField b c \<le> 0 \<Longrightarrow> comparePreField a c \<le> 0"
    by (auto simp: comparePreField_def split: option.splits if_splits)
qed

interpretation pre_field: comparator comparePreField
  by (rule comparePreField_comparator)

lemma compare_fields_swap: "compare_fields bs as = - compare_fields as bs"
proof (induction as bs rule: compare_fields.induct)
  case (4 a as b bs)
  then show ?case using pre_field.swap [of b a] by (simp add: Let_def)
qed auto

lemma compare_fields_trans:
  "compare_fields as bs \<le> 0 \<Longrightarrow> compare_fields bs cs \<le> 0 \<Longrightarrow> compare_fields as cs \<le> 0"
proof (induction as bs arbitrary: cs rule: compare_fields.induct)
  case (2 b bs)
  then show ?case by (cases cs) auto
next
  case (4 a as b bs)
  then obtain c cs' where cs: "cs = c # cs'" by (cases cs) auto
  have "compare_fields as bs \<le> 0 \<Longrightarrow> compare_fields bs cs' \<le> 0 \<Longrightarrow> compare_fields as cs' \<le> 0"
    if "comparePreField a b = 0" using 4(1) [OF refl] that by simp
  then show ?case
    using 4(2,3) pre_field.trans [of a b c] pre_field.less_trans [of a b c] pre_field.trans_less [of a b c]
      pre_field.equal_trans [of a b c]
    by (auto simp: cs Let_def split: if_splits)
qed auto

interpretation fields: comparator compare_fields
  using compare_fields_swap compare_fields_trans by unfold_locales

lemma compare_core_swap: "compare_core bs as = - compare_core as bs"
  by (induction as bs rule: compare_core.induct) (auto simp: Let_def)

lemma compare_core_trans:
  "compare_core as bs \<le> 0 \<Longrightarrow> compare_core bs cs \<le> 0 \<Longrightarrow> compare_core as cs \<le> 0"
proof (induction as bs arbitrary: cs rule: compare_core.induct)
  case (2 a as)
  then show ?case by (cases cs) (auto simp: Let_def split: if_splits)
next
  case (3 b bs)
  then show ?case by (cases cs) (auto simp: Let_def split: if_splits)
next
  case (4 a as b bs)
  then show ?case by (cases cs) (auto simp: Let_def split: if_splits)
qed auto

interpretation core: comparator compare_core
  using compare_core_swap compare_core_trans by unfold_locales

lemma compare_pre_comparator: "comparator compare_pre"
proof
  fix a b c
  show "compare_pre b a = - compare_pre a b"
    using fields.swap [of "split_on (CHR ''.'') b" "split_on (CHR ''.'') a"]
    by (simp add: compare_pre_def comparePrerelease_def)
  show "compare_pre a b \<le> 0 \<Longrightarrow> compare_pre b c \<le> 0 \<Longrightarrow> compare_pre a c \<le> 0"
    by (auto simp: compare_pre_def comparePrerelease_def intro: fields.trans split: if_splits)
qed

lemma compare_trimmed_comparator: "comparator compare_trimmed"
  unfolding compare_trimmed_def Let_def compareReleaseCore_def
  by (rule comparator.refine)
    (rule comparator_image [OF core.comparator_axioms, of "\<lambda>v. split_on (CHR ''.'') (fst (splitVersion v))"],
     rule comparator_image [OF compare_pre_comparator])

interpretation trimmed: comparator compare_trimmed
  by (rule compare_trimmed_comparator)

lemma Compare_trimmed:
  "Compare a b =
     (let a = TrimSpace a; b = TrimSpace b
      in if a = [] then (if b = [] then 0 else - 1) else if b = [] then 1 else compare_trimmed a b)"
proof (cases "TrimSpace a = TrimSpace b")
  case True
  then show ?thesis by (simp add: Compare_def Let_def)
next
  case False
  then show ?thesis by (auto simp: Compare_def compare_trimmed_def compare_pre_def Let_def case_prod_beta)
qed

lemma Compare_comparator: "comparator Compare"
proof
  fix a b c
  show "Compare b a = - Compare a b"
    using trimmed.swap [of "TrimSpace b" "TrimSpace a"] by (simp add: Compare_trimmed Let_def)
  show "Compare a b \<le> 0 \<Longrightarrow> Compare b c \<le> 0 \<Longrightarrow> Compare a c \<le> 0"
    by (auto simp: Compare_trimmed Let_def intro: trimmed.trans split: if_splits)
qed

interpretation version: comparator Compare
  by (rule Compare_comparator)

text \<open>
  Claim C30: the comparator is a total preorder on all strings: swapping the arguments negates the result, which is
  -1, 0 or 1, and being at most is transitive, so a floor, an anti-downgrade check and a minimum
  version can be combined.  The empty string is below everything else.
\<close>

theorem version_compare_is_a_preorder:
  "Compare a b \<in> {- 1, 0, 1} \<and> Compare b a = - Compare a b \<and>
   (Compare a b \<le> 0 \<longrightarrow> Compare b c \<le> 0 \<longrightarrow> Compare a c \<le> 0 \<and> (Compare a c = 0 \<longrightarrow> Compare a b = 0 \<and> Compare b c = 0)) \<and>
   (TrimSpace b \<noteq> [] \<longrightarrow> Compare [] b = - 1)"
proof -
  have "Compare a b \<in> {- 1, 0, 1}"
  proof -
    have field: "comparePreField x y \<in> {- 1, 0, 1}" for x y by (auto simp: comparePreField_def split: option.splits)
    have fields: "compare_fields xs ys \<in> {- 1, 0, 1}" for xs ys
      by (induction xs ys rule: compare_fields.induct) (use field in \<open>auto simp: Let_def\<close>)
    have core: "compare_core xs ys \<in> {- 1, 0, 1}" for xs ys
      by (induction xs ys rule: compare_core.induct) (auto simp: Let_def)
    have pre: "compare_pre x y \<in> {- 1, 0, 1}" for x y
      using fields [of "split_on (CHR ''.'') x" "split_on (CHR ''.'') y"] by (simp add: compare_pre_def comparePrerelease_def)
    have "compare_trimmed x y \<in> {- 1, 0, 1}" for x y
      unfolding compare_trimmed_def Let_def compareReleaseCore_def by (simp only: pre core split: if_split) blast
    from this [of "TrimSpace a" "TrimSpace b"] show ?thesis by (simp add: Compare_trimmed Let_def)
  qed
  moreover have "Compare a c = 0 \<longrightarrow> Compare a b = 0 \<and> Compare b c = 0" if "Compare a b \<le> 0" "Compare b c \<le> 0"
    using version.less_trans [of a b c] version.trans_less [of a b c] that by force
  moreover have "TrimSpace [] = []" by code_simp
  then have "Compare [] b = - 1" if "TrimSpace b \<noteq> []" using that by (simp add: Compare_trimmed)
  ultimately show ?thesis using version.swap [of b a] version.trans [of a b c] by blast
qed

theorem version_compare_is_a_preorder_witness:
  "Compare ''v2.0.0-beta.2'' ''2.0.0-beta.10'' = - 1 \<and> Compare ''2.0.0-beta.10'' ''v2.0'' = - 1 \<and>
   Compare ''v2.0.0-beta.2'' ''v2.0'' = - 1"
proof -
  have ab: "Compare ''v2.0.0-beta.2'' ''2.0.0-beta.10'' = - 1" and bc: "Compare ''2.0.0-beta.10'' ''v2.0'' = - 1" by code_simp+
  have "Compare ''v2.0.0-beta.2'' ''v2.0'' \<le> 0 \<and> (Compare ''v2.0.0-beta.2'' ''v2.0'' = 0 \<longrightarrow> False)"
    using version_compare_is_a_preorder [of "''v2.0.0-beta.2''" "''2.0.0-beta.10''" "''v2.0''", THEN conjunct2, THEN conjunct2, THEN conjunct1]
    unfolding ab bc by simp
  with version_compare_is_a_preorder [of "''v2.0.0-beta.2''" "''v2.0''" "[]", THEN conjunct1] ab bc
  show ?thesis by auto
qed

end
