(* ===== verification/Go_Time.thy ===== *)
theory Go_Time
  imports Go_Strings
begin

text \<open>
  Go's \<^verbatim>\<open>time.Parse\<close> and \<^verbatim>\<open>Time.Format\<close> for the layout \<^verbatim>\<open>2006-01-02T15:04:05Z\<close>, in UTC.  A time is the number
  of nanoseconds since the zero time.  As in Go, the hour may have one digit, a fraction after the
  seconds is accepted, and \<^verbatim>\<open>Z\<close> is a literal.
\<close>

section \<open>Dates\<close>

definition days_of_civil :: "int \<Rightarrow> int \<Rightarrow> int \<Rightarrow> int" where
  "days_of_civil y m d =
     (let y' = (if m \<le> 2 then y - 1 else y); mp = (if m > 2 then m - 3 else m + 9)
      in 365 * y' + y' div 4 - y' div 100 + y' div 400 + (153 * mp + 2) div 5 + d - 1 - 306)"

definition is_leap :: "int \<Rightarrow> bool" where
  "is_leap y \<longleftrightarrow> y mod 4 = 0 \<and> (y mod 100 \<noteq> 0 \<or> y mod 400 = 0)"

definition days_in :: "int \<Rightarrow> int \<Rightarrow> int" where
  "days_in m y = (if m = 2 then (if is_leap y then 29 else 28) else if m \<in> {4, 6, 9, 11} then 30 else 31)"

section \<open>Parsing\<close>

text \<open>One or two digits, as \<^verbatim>\<open>getnum\<close>; a fixed-width field needs both.\<close>

fun getnum :: "bool \<Rightarrow> string \<Rightarrow> (int \<times> string) option" where
  "getnum fixed [] = None"
| "getnum fixed [a] = (if is_digit a \<and> \<not> fixed then Some (of_char a - 48, []) else None)"
| "getnum fixed (a # b # s) =
     (if \<not> is_digit a then None
      else if is_digit b then Some ((of_char a - 48) * 10 + (of_char b - 48), s)
      else if fixed then None
      else Some (of_char a - 48, b # s))"

fun year_field :: "string \<Rightarrow> (int \<times> string) option" where
  "year_field (a # b # c # d # s) =
     map_option (\<lambda>n. (int n, s)) (parse_digits 0 [a, b, c, d])"
| "year_field _ = None"

fun skip_char :: "char \<Rightarrow> string \<Rightarrow> string option" where
  "skip_char c (d # s) = (if d = c then Some s else None)"
| "skip_char c [] = None"

text \<open>A fraction that follows the seconds: at most nine digits count.\<close>

definition fraction :: "string \<Rightarrow> int \<times> string" where
  "fraction s =
     (case s of
        c # d # _ \<Rightarrow>
          (if (c = CHR ''.'' \<or> c = CHR '','') \<and> is_digit d
           then let ds = takeWhile is_digit (tl s); used = take 9 ds
                in (int (the (parse_digits 0 used)) * 10 ^ (9 - length used), drop (length ds) (tl s))
           else (0, s))
      | _ \<Rightarrow> (0, s))"

definition clock :: "int \<Rightarrow> int \<Rightarrow> int \<Rightarrow> int \<Rightarrow> int \<Rightarrow> time" where
  "clock days h m s ns = ((days * 24 + h) * 60 + m) * 60 * 1000000000 + s * 1000000000 + ns"

definition ParseLayout :: "string \<Rightarrow> time option" where
  "ParseLayout s =
     Option.bind (year_field s) (\<lambda>(y, s). Option.bind (skip_char (CHR ''-'') s) (\<lambda>s.
     Option.bind (getnum True s) (\<lambda>(mo, s).
       if mo \<le> 0 \<or> 12 < mo then None else Option.bind (skip_char (CHR ''-'') s) (\<lambda>s.
     Option.bind (getnum True s) (\<lambda>(d, s). Option.bind (skip_char (CHR ''T'') s) (\<lambda>s.
     Option.bind (getnum False s) (\<lambda>(h, s).
       if 24 \<le> h then None else Option.bind (skip_char (CHR '':'') s) (\<lambda>s.
     Option.bind (getnum True s) (\<lambda>(mi, s).
       if 60 \<le> mi then None else Option.bind (skip_char (CHR '':'') s) (\<lambda>s.
     Option.bind (getnum True s) (\<lambda>(sec, s).
       if 60 \<le> sec then None else case fraction s of (ns, s) \<Rightarrow> Option.bind (skip_char (CHR ''Z'') s) (\<lambda>s.
       if s \<noteq> [] then None
       else if d < 1 \<or> days_in mo y < d then None
       else Some (clock (days_of_civil y mo d) h mi sec ns)))))))))))))"

section \<open>Formatting\<close>

definition FormatLayout :: "time \<Rightarrow> string" where
  "FormatLayout t =
     (let secs = t div 1000000000; sod = secs mod 86400
      in case civil_of_days (secs div 86400) of (y, m, d) \<Rightarrow>
           year_digits y @ ''-'' @ zero_pad 2 (nat m) @ ''-'' @ zero_pad 2 (nat d) @ ''T'' @
           zero_pad 2 (nat (sod div 3600)) @ '':'' @ zero_pad 2 (nat (sod div 60 mod 60)) @ '':'' @
           zero_pad 2 (nat (sod mod 60)) @ ''Z'')"

section \<open>No white space around an accepted time\<close>

lemma TrimSpace_plain:
  assumes "s \<noteq> []" and "of_char (hd s) < (128 :: nat)" "of_char (hd s) \<notin> {9, 10, 11, 12, 13, 32 :: nat}"
    and "of_char (last s) < (128 :: nat)" "of_char (last s) \<notin> {9, 10, 11, 12, 13, 32 :: nat}"
  shows "TrimSpace s = s"
proof -
  have "byte s 0 = of_char (hd s)" using assms(1) by (simp add: byte_def hd_conv_nth)
  then have l: "trim_left s = s" using assms(2,3) by (simp add: trim_left.simps space_prefix_def)
  have nth: "byte (drop (length s - Suc n) s) n = of_char (last s)" if "n < length s" for n
    using that assms(1) by (simp add: byte_def last_conv_nth)
  have "space_prefix (drop (length s - 1) s) \<noteq> 1" using nth [of 0] assms(1,4,5) by (auto simp: space_prefix_def split: if_splits)
  moreover have "space_prefix (drop (length s - 2) s) \<noteq> 2" if "2 \<le> length s"
    using nth [of 1] that assms(4) by (auto simp: space_prefix_def numeral_2_eq_2 split: if_splits)
  moreover have "space_prefix (drop (length s - 3) s) \<noteq> 3" if "3 \<le> length s"
    using nth [of 2] that assms(4) by (auto simp: space_prefix_def numeral_3_eq_3 numeral_2_eq_2 split: if_splits)
  ultimately have "space_suffix s = 0" by (auto simp: space_suffix_def)
  then show ?thesis by (simp add: TrimSpace_def l trim_right.simps)
qed

text \<open>Every field leaves an end of the text.\<close>

lemma field_rest:
  "year_field s = Some (y, r) \<Longrightarrow> \<exists>p. s = p @ r"
  "getnum b s = Some (n, r) \<Longrightarrow> \<exists>p. s = p @ r"
  "skip_char c s = Some r \<longleftrightarrow> s = c # r"
  "fraction s = (ns, r) \<Longrightarrow> \<exists>p. s = p @ r"
proof -
  show "year_field s = Some (y, r) \<Longrightarrow> \<exists>p. s = p @ r"
    by (cases s rule: year_field.cases) (auto simp: split: option.splits)
  show "getnum b s = Some (n, r) \<Longrightarrow> \<exists>p. s = p @ r"
    by (cases "(b, s)" rule: getnum.cases) (auto split: if_splits)
  show "skip_char c s = Some r \<longleftrightarrow> s = c # r"
    by (cases s) (auto split: if_splits)
  show "fraction s = (ns, r) \<Longrightarrow> \<exists>p. s = p @ r"
  proof (cases s)
    case (Cons c t)
    assume f: "fraction s = (ns, r)"
    have "\<exists>k. r = drop k s"
    proof (cases t)
      case (Cons d u)
      show ?thesis
      proof (cases "(c = CHR ''.'' \<or> c = CHR '','') \<and> is_digit d")
        case True
        then have "r = drop (length (takeWhile is_digit t)) t" using f Cons \<open>s = c # t\<close> by (auto simp: fraction_def Let_def)
        then show ?thesis using \<open>s = c # t\<close> by (metis drop_Suc_Cons)
      next
        case False
        then show ?thesis using f Cons \<open>s = c # t\<close> by (auto simp: fraction_def intro: exI [of _ 0])
      qed
    qed (use f Cons in \<open>auto simp: fraction_def intro: exI [of _ 0]\<close>)
    then show ?thesis by (metis append_take_drop_id)
  qed (auto simp: fraction_def)
qed

lemma ParseLayout_ends:
  assumes "ParseLayout s = Some t"
  shows "s \<noteq> []" "is_digit (hd s)" "last s = CHR ''Z''"
proof -
  obtain y r where y: "year_field s = Some (y, r)" using assms by (auto simp: ParseLayout_def bind_eq_Some_conv)
  then show ne: "s \<noteq> []" and "is_digit (hd s)" by (cases s rule: year_field.cases; auto split: if_splits)+
  have "\<exists>p. s = p @ [CHR ''Z'']"
  proof -
    have rest: "\<exists>p. u = p @ snd (fraction u)" for u using field_rest(4) [of u "fst (fraction u)" "snd (fraction u)"] by simp
    from assms have "\<exists>u. (\<exists>p. s = p @ u) \<and> snd (fraction u) = [CHR ''Z'']" unfolding ParseLayout_def
      by (auto simp: bind_eq_Some_conv case_prod_unfold field_rest(3) split: if_splits dest!: field_rest(1,2))
        (metis append.assoc append_Cons)
    then obtain u where u: "\<exists>p. s = p @ u" "snd (fraction u) = [CHR ''Z'']" by blast
    then have "\<exists>p. s = p @ snd (fraction u)" using rest [of u] by (metis append.assoc)
    with u(2) show ?thesis by simp
  qed
  then show "last s = CHR ''Z''" by auto
qed

lemma ParseLayout_TrimSpace: "ParseLayout s = Some t \<Longrightarrow> TrimSpace s = s"
  using ParseLayout_ends [of s t] by (intro TrimSpace_plain) (auto simp: is_digit_def)

end
