(* ===== verification/Agent_State.thy ===== *)
theory Agent_State
  imports Bundle_Paths Version Go_Time Store_Types
begin

text \<open>
  The node agent's durable record (\<^verbatim>\<open>internal/agent/state.go\<close>), the write-ahead intent of a root action
  (\<^verbatim>\<open>apply_intent.go\<close>) and the conditions the agent reports about itself (\<^verbatim>\<open>conditions.go\<close>,
  \<^verbatim>\<open>conditions_selfupdate.go\<close>).  The state file holds the record itself; its JSON text is not
  modelled.  Error texts are shortened.
\<close>

section \<open>Records\<close>

record pending_apply =
  paCompiledAt :: string
  paManifestChecksum :: string
  paBundleSHA256 :: string
  paAction :: string
  paMembershipEpoch :: int
  paMembershipVerified :: bool
  paSigningKeyFingerprint :: string
  paOperatorCredentialFingerprint :: string
  paOperatorCredentialAlg :: string
  paOperatorRPID :: string
  paOperatorOrigin :: string
  paStartedAt :: string

record pending_update =
  puFrom :: string
  puTo :: string
  puAttempts :: int
  puConfirmed :: bool

record agent_state =
  asNodeID :: string
  asLastCompiledAt :: string
  asLastChecksum :: string
  asLastResult :: string
  asLastAction :: string
  asLastError :: string
  asLastSigned :: bool
  asMembershipEpoch :: int
  asMembershipVerified :: bool
  asPendingApply :: "pending_apply option"
  asAppliedAt :: string
  asHealth :: string
  asAgentVersionFloor :: string
  asPendingUpdate :: "pending_update option"
  asAbandonedAgentVersion :: string
  asAbandonedReason :: string
  asSelfUpdateBlocked :: string
  asConditions :: "condition list"
  asActiveTelemetryPolicy :: string

definition zero_state :: agent_state where
  "zero_state = \<lparr>asNodeID = [], asLastCompiledAt = [], asLastChecksum = [], asLastResult = [], asLastAction = [],
     asLastError = [], asLastSigned = False, asMembershipEpoch = 0, asMembershipVerified = False, asPendingApply = None,
     asAppliedAt = [], asHealth = [], asAgentVersionFloor = [], asPendingUpdate = None, asAbandonedAgentVersion = [],
     asAbandonedReason = [], asSelfUpdateBlocked = [], asConditions = [], asActiveTelemetryPolicy = []\<rparr>"

definition LastResultOK :: string where "LastResultOK = ''ok''"
definition LastResultPending :: string where "LastResultPending = ''pending''"
definition LastActionApply :: string where "LastActionApply = ''apply''"
definition LastActionUninstall :: string where "LastActionUninstall = ''uninstall''"

record self_update_params =
  suRunningVersion :: string
  suGithubProxy :: string

record agent_config =
  cfgNodeID :: string
  cfgPinnedPubPEM :: string
  cfgOperatorCredPEM :: string
  cfgOperatorCredAlg :: string
  cfgOperatorRPID :: string
  cfgOperatorOrigin :: string
  cfgStagingDir :: string
  cfgInstallArgs :: "string list"
  cfgSelfUpdate :: "self_update_params option"

text \<open>
  What the agent works on: its state file, its executable and the backup of it, its WireGuard key, and
  three histories that the program never reads: the public keys registered with the controller, the root
  actions that were started, with the configuration they ran under, and the executables that were run.
\<close>

record root_action =
  raFiles :: files
  raArgs :: "string list"
  raConfig :: agent_config

record host =
  hState :: "agent_state option"
  hBinary :: string
  hBackup :: "string option"
  hKey :: string
  hRegistered :: "string list"
  hRoot :: "root_action list"
  hRan :: "string list"

text \<open>
  The surroundings of one run: the cryptographic primitives, the bundle the source returns, clock readings
  and sampled conditions (indexed by the place that takes them), the telemetry policy canonicalizer, the
  Unicode case mapping, a fresh key pair, and for self-update the architecture, the mirror, what an executable prints as its
  version, what a torn copy leaves, and the health check.
\<close>

record world =
  wCrypto :: crypto
  wMarshalPKIX :: "public_key \<Rightarrow> string option"
  wFetch :: "string + files"
  wClock :: "nat \<Rightarrow> time"
  wSamples :: "nat \<Rightarrow> condition list"
  wPolicy :: "bool \<Rightarrow> string \<Rightarrow> string option"
  wLower :: "string \<Rightarrow> string"
  wNewKey :: "string \<times> string"
  wArch :: string
  wDownload :: "string \<Rightarrow> string option"
  wVersionOf :: "string \<Rightarrow> string option"
  wTorn :: "string \<Rightarrow> string"
  wHealthy :: bool

section \<open>The state file\<close>

definition current_state :: "host \<Rightarrow> agent_state" where
  "current_state d = (case hState d of None \<Rightarrow> zero_state | Some s \<Rightarrow> s)"

definition LoadState :: "(host, string, agent_state) io" where
  "LoadState = backend ''read state'' (\<lambda>d. (current_state d, d)) (\<lambda>d. d)"

text \<open>
  The replacement is atomic: a failure before the rename leaves the old file, a failed directory sync is
  reported although the new file is in place.
\<close>

definition SaveState :: "agent_state \<Rightarrow> (host, string, unit) io" where
  "SaveState s = backend ''save state'' (\<lambda>d. ((), d\<lparr>hState := Some s\<rparr>)) (\<lambda>d. d\<lparr>hState := Some s\<rparr>)"

section \<open>The manifest and the compile time\<close>

record manifest_info =
  miNodeID :: string
  miCompiledAt :: string
  miChecksum :: string

definition assign_manifest :: "string \<Rightarrow> json \<Rightarrow> manifest_info \<Rightarrow> manifest_info option" where
  "assign_manifest f v m =
     (if f = ''node_id'' then map_option (\<lambda>x. m\<lparr>miNodeID := x\<rparr>) (decode_string v (miNodeID m))
      else if f = ''compiled_at'' then map_option (\<lambda>x. m\<lparr>miCompiledAt := x\<rparr>) (decode_string v (miCompiledAt m))
      else map_option (\<lambda>x. m\<lparr>miChecksum := x\<rparr>) (decode_string v (miChecksum m)))"

definition parseManifest :: "string \<Rightarrow> manifest_info option" where
  "parseManifest data =
     (case json_parse data of
        None \<Rightarrow> None
      | Some v \<Rightarrow>
          (case decode_struct [''node_id'', ''compiled_at'', ''checksum''] assign_manifest v
                  \<lparr>miNodeID = [], miCompiledAt = [], miChecksum = []\<rparr> of
             None \<Rightarrow> None
           | Some m \<Rightarrow> (if TrimSpace (miCompiledAt m) = [] then None else Some m)))"

definition CheckRollback :: "agent_state \<Rightarrow> string \<Rightarrow> string option" where
  "CheckRollback prev candidateCompiledAt =
     (case ParseLayout (TrimSpace candidateCompiledAt) of
        None \<Rightarrow> Some ''candidate compiled_at unparseable''
      | Some cand \<Rightarrow>
          (if TrimSpace (asLastCompiledAt prev) = [] then None
           else case ParseLayout (TrimSpace (asLastCompiledAt prev)) of
             None \<Rightarrow> None
           | Some lastAt \<Rightarrow> (if cand < lastAt then Some ''anti-rollback'' else None)))"

section \<open>The write-ahead intent\<close>

definition validSHA256Hex :: "string \<Rightarrow> bool" where
  "validSHA256Hex v \<longleftrightarrow> length v = 64 \<and> hex_string v"

definition credFingerprint :: "world \<Rightarrow> string \<Rightarrow> string option" where
  "credFingerprint w pem =
     (case crParsePublicKey (wCrypto w) pem of
        None \<Rightarrow> None
      | Some k \<Rightarrow> map_option sha256_hex (wMarshalPKIX w k))"

definition check_signing_anchor :: "world \<Rightarrow> agent_config \<Rightarrow> pending_apply \<Rightarrow> string option" where
  "check_signing_anchor w cfg p =
     (if paSigningKeyFingerprint p = [] then None
      else if \<not> validSHA256Hex (paSigningKeyFingerprint p) then Some ''invalid signing-key fingerprint''
      else if cfgPinnedPubPEM cfg = [] then Some ''no signing key is configured''
      else case credFingerprint w (cfgPinnedPubPEM cfg) of
        None \<Rightarrow> Some ''parse signing key''
      | Some got \<Rightarrow> (if \<not> EqualFold got (paSigningKeyFingerprint p) then Some ''signing key changed'' else None))"

definition check_operator_anchor :: "world \<Rightarrow> agent_config \<Rightarrow> pending_apply \<Rightarrow> string option" where
  "check_operator_anchor w cfg p =
     (if paMembershipVerified p then
        (if \<not> validSHA256Hex (paOperatorCredentialFingerprint p) then Some ''invalid operator-credential fingerprint''
         else if cfgOperatorCredPEM cfg = [] then Some ''no operator credential is configured''
         else case credFingerprint w (cfgOperatorCredPEM cfg) of
           None \<Rightarrow> Some ''parse operator credential''
         | Some got \<Rightarrow>
             (if \<not> EqualFold got (paOperatorCredentialFingerprint p) \<or> cfgOperatorCredAlg cfg \<noteq> paOperatorCredentialAlg p \<or>
                 cfgOperatorRPID cfg \<noteq> paOperatorRPID p \<or> cfgOperatorOrigin cfg \<noteq> paOperatorOrigin p
              then Some ''operator anchor changed'' else None))
      else if paOperatorCredentialFingerprint p \<noteq> [] \<or> paOperatorCredentialAlg p \<noteq> [] \<or> paOperatorRPID p \<noteq> [] \<or>
              paOperatorOrigin p \<noteq> []
      then Some ''non-keystone apply carries operator-credential metadata''
      else None)"

definition validatePendingApply :: "world \<Rightarrow> agent_config \<Rightarrow> agent_state \<Rightarrow> string option" where
  "validatePendingApply w cfg state =
     (case asPendingApply state of
        None \<Rightarrow> None
      | Some p \<Rightarrow>
          (if ParseLayout (paCompiledAt p) = None then Some ''pending apply has invalid compiled_at''
           else if ParseLayout (paStartedAt p) = None then Some ''pending apply has invalid started_at''
           else if paAction p \<noteq> LastActionApply \<and> paAction p \<noteq> LastActionUninstall then Some ''pending apply has invalid action''
           else if \<not> validSHA256Hex (paBundleSHA256 p) then Some ''pending apply has invalid bundle_sha256''
           else if paMembershipEpoch p < 0 then Some ''pending apply has negative membership epoch''
           else case check_signing_anchor w cfg p of
             Some e \<Rightarrow> Some e
           | None \<Rightarrow> check_operator_anchor w cfg p))"

definition effectiveMembershipFloor :: "agent_state \<Rightarrow> int" where
  "effectiveMembershipFloor state =
     (case asPendingApply state of
        Some p \<Rightarrow> (if paMembershipEpoch p > asMembershipEpoch state then paMembershipEpoch p else asMembershipEpoch state)
      | None \<Rightarrow> asMembershipEpoch state)"

definition effectiveRollbackState :: "agent_state \<Rightarrow> agent_state" where
  "effectiveRollbackState state =
     (case asPendingApply state of
        None \<Rightarrow> state
      | Some p \<Rightarrow>
          (case ParseLayout (paCompiledAt p) of
             None \<Rightarrow> state
           | Some pending \<Rightarrow>
               (if (case ParseLayout (asLastCompiledAt state) of None \<Rightarrow> True | Some lastAt \<Rightarrow> pending > lastAt)
                then state\<lparr>asLastCompiledAt := paCompiledAt p\<rparr> else state)))"

definition verifiedBundleDigest :: "files \<Rightarrow> string option" where
  "verifiedBundleDigest fs = map_option sha256_hex (fmlookup fs ''checksums.sha256'')"

definition validateCandidateAgainstPending :: "agent_state \<Rightarrow> manifest_info \<Rightarrow> files \<Rightarrow> string \<Rightarrow> string option" where
  "validateCandidateAgainstPending state man fs action =
     (case asPendingApply state of
        None \<Rightarrow> None
      | Some p \<Rightarrow>
          (if action \<noteq> paAction p then Some ''another action is unresolved''
           else case ParseLayout (miCompiledAt man) of
             None \<Rightarrow> Some ''compiled_at''
           | Some cand \<Rightarrow>
               (case ParseLayout (paCompiledAt p) of
                  None \<Rightarrow> Some ''pending compiled_at''
                | Some pending \<Rightarrow>
                    (if cand \<noteq> pending then None
                     else case verifiedBundleDigest fs of
                       None \<Rightarrow> Some ''no checksums.sha256''
                     | Some digest \<Rightarrow>
                         (if \<not> EqualFold digest (paBundleSHA256 p) \<or> miChecksum man \<noteq> paManifestChecksum p
                          then Some ''different same-version candidate'' else None)))))"

definition samePendingApply :: "pending_apply option \<Rightarrow> pending_apply \<Rightarrow> bool" where
  "samePendingApply a' b =
     (case a' of
        None \<Rightarrow> False
      | Some a \<Rightarrow> paCompiledAt a = paCompiledAt b \<and> paManifestChecksum a = paManifestChecksum b \<and>
          EqualFold (paBundleSHA256 a) (paBundleSHA256 b) \<and> paAction a = paAction b \<and>
          paMembershipEpoch a = paMembershipEpoch b \<and> paMembershipVerified a = paMembershipVerified b \<and>
          EqualFold (paSigningKeyFingerprint a) (paSigningKeyFingerprint b) \<and>
          EqualFold (paOperatorCredentialFingerprint a) (paOperatorCredentialFingerprint b) \<and>
          paOperatorCredentialAlg a = paOperatorCredentialAlg b \<and> paOperatorRPID a = paOperatorRPID b \<and>
          paOperatorOrigin a = paOperatorOrigin b)"

section \<open>Conditions\<close>

text \<open>The runes of a string, re-encoded; an invalid byte is the replacement character.\<close>

function runes :: "string \<Rightarrow> string list" where
  "runes s =
     (if s = [] then []
      else if utf8_size s = 0 then replacement # runes (drop 1 s)
      else take (utf8_size s) s # runes (drop (utf8_size s) s))"
  by pat_completeness auto
termination by (relation "measure length") auto

declare runes.simps [simp del]

definition ConditionMessageMax :: nat where "ConditionMessageMax = 160"

definition classify :: "string \<Rightarrow> string \<Rightarrow> string \<Rightarrow> string \<Rightarrow> time \<Rightarrow> condition" where
  "classify condType status reason detail since =
     \<lparr>cType = condType, cStatus = status, cReason = reason,
      cMessage = (let r = runes detail in if length r > ConditionMessageMax then concat (take ConditionMessageMax r) else detail),
      cSince = FormatLayout since\<rparr>"

definition configActionCondition :: "bool \<Rightarrow> string \<Rightarrow> time \<Rightarrow> condition" where
  "configActionCondition ok action now =
     (if ok then
        (if action = LastActionUninstall
         then classify ''configapply'' ''ok'' ''Uninstalled'' ''configuration uninstalled'' now
         else classify ''configapply'' ''ok'' ''Applied'' ''configuration applied'' now)
      else classify ''configapply'' ''warn'' ''DegradedKeepingLastGood'' ''keeping last-good configuration'' now)"

definition selfUpdateCondition :: "agent_state \<Rightarrow> time \<Rightarrow> condition option" where
  "selfUpdateCondition prev now =
     (case asPendingUpdate prev of
        Some pu \<Rightarrow>
          (if puConfirmed pu
           then Some (classify ''selfupdate'' ''warn'' ''HealthConfirmedProbationary''
                  (''self-update to '' @ puTo pu @ '' health-confirmed; probationary until one clean cycle'') now)
           else Some (classify ''selfupdate'' ''warn'' ''Active''
                  (''self-update to '' @ puTo pu @ '' in flight (attempt '' @ FormatInt (puAttempts pu) @ '')'') now))
      | None \<Rightarrow>
          (if asAbandonedAgentVersion prev \<noteq> []
           then Some (classify ''selfupdate'' ''error'' ''Abandoned''
                  (''self-update to '' @ asAbandonedAgentVersion prev @ '' abandoned (rolled back)'' @
                   (if asAbandonedReason prev \<noteq> [] then '': '' @ asAbandonedReason prev else []) @ ''; change the target to retry'') now)
           else if HasPrefix (asHealth prev) ''self-updated to ''
           then Some (classify ''selfupdate'' ''ok'' ''Updated''
                  (''self-updated to '' @ TrimPrefix (asHealth prev) ''self-updated to '') now)
           else if asSelfUpdateBlocked prev \<noteq> []
           then Some (classify ''selfupdate'' ''warn'' ''Blocked'' (asSelfUpdateBlocked prev) now)
           else None))"

text \<open>The sampled WireGuard and mimic conditions are an argument.\<close>

definition collectConditionsForAction :: "agent_state \<Rightarrow> bool \<Rightarrow> string \<Rightarrow> time \<Rightarrow> condition list \<Rightarrow> condition list" where
  "collectConditionsForAction prev ok action now samples =
     configActionCondition ok action now # (case selfUpdateCondition prev now of None \<Rightarrow> [] | Some c \<Rightarrow> [c]) @ samples"

definition collectConditions :: "agent_state \<Rightarrow> bool \<Rightarrow> time \<Rightarrow> condition list \<Rightarrow> condition list" where
  "collectConditions prev ok now samples =
     collectConditionsForAction prev ok
       (if ok \<and> asLastAction prev = LastActionUninstall then LastActionUninstall else LastActionApply) now samples"

section \<open>State laws\<close>

lemma current_state_simps [simp]:
  "current_state (d\<lparr>hState := Some s\<rparr>) = s" "current_state (d\<lparr>hBinary := b\<rparr>) = current_state d"
  "current_state (d\<lparr>hBackup := k\<rparr>) = current_state d" "current_state (d\<lparr>hRoot := r\<rparr>) = current_state d"
  "current_state (d\<lparr>hRan := x\<rparr>) = current_state d" "current_state (d\<lparr>hKey := y\<rparr>) = current_state d"
  "current_state (d\<lparr>hRegistered := z\<rparr>) = current_state d"
  by (simp_all add: current_state_def)

lemma wp_LoadState [simp]:
  "wp LoadState Q E d \<longleftrightarrow> Q (current_state d) d \<and> E ''read state'' d"
  by (simp add: LoadState_def)

lemma wp_SaveState [simp]:
  "wp (SaveState s) Q E d \<longleftrightarrow>
     Q () (d\<lparr>hState := Some s\<rparr>) \<and> E ''save state'' d \<and> E ''save state'' (d\<lparr>hState := Some s\<rparr>)"
  by (simp add: SaveState_def)

lemma wp_bindM_LoadState [simp]:
  "wp (bindM LoadState k) Q E d \<longleftrightarrow>
     wp (k (current_state d)) Q E d \<and> E ''read state'' d"
  by (simp add: LoadState_def)

lemma wp_bindM_SaveState [simp]:
  "wp (bindM (SaveState s) k) Q E d \<longleftrightarrow>
     wp (k ()) Q E (d\<lparr>hState := Some s\<rparr>) \<and> E ''save state'' d \<and> E ''save state'' (d\<lparr>hState := Some s\<rparr>)"
  by (simp add: SaveState_def)

lemma run_LoadState [simp]:
  "LoadState (d, []) = (Inr (current_state d), (d, []))"
  "bindM LoadState k (d, []) = k (current_state d) (d, [])"
  by (simp_all add: LoadState_def)

lemma run_SaveState [simp]:
  "SaveState s (d, []) = (Inr (), (d\<lparr>hState := Some s\<rparr>, []))"
  "bindM (SaveState s) k (d, []) = k () (d\<lparr>hState := Some s\<rparr>, [])"
  by (simp_all add: SaveState_def)

end
