(* ===== verification/Self_Update.thy ===== *)
theory Self_Update
  imports Agent_State
begin

text \<open>
  Signed self-update of the agent (\<^verbatim>\<open>internal/agent/selfupdate.go\<close>, \<^verbatim>\<open>selfupdate_retry.go\<close>): the decision, the
  swap of the executable, and the reconciliation of an unfinished update at every start.  Every system
  call may fail; a crash is a script that fails from there on.  Replacing the process image ends the run.
\<close>

section \<open>The pinned catalog\<close>

record bin_pin =
  bpAsset :: string
  bpSHA256 :: string

record agent_catalog =
  acVersion :: string
  acMinVersion :: string
  acReleaseURL :: string
  acBins :: "(string, bin_pin) fmap"

definition assign_pin :: "string \<Rightarrow> json \<Rightarrow> bin_pin \<Rightarrow> bin_pin option" where
  "assign_pin f v p =
     (if f = ''asset'' then map_option (\<lambda>x. p\<lparr>bpAsset := x\<rparr>) (decode_string v (bpAsset p))
      else map_option (\<lambda>x. p\<lparr>bpSHA256 := x\<rparr>) (decode_string v (bpSHA256 p)))"

fun decode_pins :: "(string \<times> json) list \<Rightarrow> (string, bin_pin) fmap \<Rightarrow> (string, bin_pin) fmap option" where
  "decode_pins [] m = Some m"
| "decode_pins ((k, v) # kvs) m =
     (case decode_struct [''asset'', ''sha256''] assign_pin v \<lparr>bpAsset = [], bpSHA256 = []\<rparr> of
        None \<Rightarrow> None
      | Some p \<Rightarrow> decode_pins kvs (fmupd k p m))"

definition decode_bins :: "json \<Rightarrow> (string, bin_pin) fmap \<Rightarrow> (string, bin_pin) fmap option" where
  "decode_bins v old = (case v of JNull \<Rightarrow> Some fmempty | JObj kvs \<Rightarrow> decode_pins kvs old | _ \<Rightarrow> None)"

definition assign_agent :: "string \<Rightarrow> json \<Rightarrow> agent_catalog \<Rightarrow> agent_catalog option" where
  "assign_agent f v c =
     (if f = ''version'' then map_option (\<lambda>x. c\<lparr>acVersion := x\<rparr>) (decode_string v (acVersion c))
      else if f = ''min_version'' then map_option (\<lambda>x. c\<lparr>acMinVersion := x\<rparr>) (decode_string v (acMinVersion c))
      else if f = ''release_url'' then map_option (\<lambda>x. c\<lparr>acReleaseURL := x\<rparr>) (decode_string v (acReleaseURL c))
      else map_option (\<lambda>x. c\<lparr>acBins := x\<rparr>) (decode_bins v (acBins c)))"

definition parseAgentCatalog :: "files \<Rightarrow> agent_catalog option" where
  "parseAgentCatalog fs =
     (case fmlookup fs ''artifacts.json'' of
        None \<Rightarrow> None
      | Some raw \<Rightarrow>
          (case Option.bind (json_parse raw) (\<lambda>v. decode_struct [''agent'']
                  (\<lambda>f. decode_struct [''version'', ''min_version'', ''release_url'', ''bins''] assign_agent) v
                  \<lparr>acVersion = [], acMinVersion = [], acReleaseURL = [], acBins = fmempty\<rparr>) of
             None \<Rightarrow> None
           | Some cat \<Rightarrow> (if TrimSpace (acVersion cat) = [] then None else Some cat)))"

section \<open>The decision\<close>

datatype update_decision = updateSkip | updateRefuse | updateForced | updateAfterApply

definition sameVersion :: "string \<Rightarrow> string \<Rightarrow> bool" where
  "sameVersion a b \<longleftrightarrow> Compare a b = 0"

definition isForced :: "agent_catalog option \<Rightarrow> string \<Rightarrow> bool" where
  "isForced cat running =
     (case cat of None \<Rightarrow> False | Some c \<Rightarrow> TrimSpace (acMinVersion c) \<noteq> [] \<and> Compare running (acMinVersion c) < 0)"

definition decideSelfUpdate :: "agent_catalog option \<Rightarrow> string \<Rightarrow> string \<Rightarrow> string \<Rightarrow> update_decision" where
  "decideSelfUpdate cat running floorV abandoned =
     (case cat of
        None \<Rightarrow> updateSkip
      | Some c \<Rightarrow>
          (if TrimSpace (acVersion c) = [] then updateSkip
           else let desired = acVersion c; forced = isForced cat running
                in if Compare desired running = 0 \<and> \<not> forced then updateSkip
                   else if abandoned \<noteq> [] \<and> Compare desired abandoned = 0 then updateRefuse
                   else if Compare desired running < 0 then updateRefuse
                   else if floorV \<noteq> [] \<and> Compare desired floorV < 0 then updateRefuse
                   else if forced then (if Compare desired (acMinVersion c) < 0 then updateRefuse else updateForced)
                   else updateAfterApply))"

section \<open>The swap\<close>

datatype su_error =
    SuUnsupportedArch | SuStateUnreadable | SuInFlight | SuNoPin | SuLocate | SuDownload | SuHashRead | SuHashMismatch
  | SuChmod | SuSelfTestFailed | SuSelfTestVersion | SuBreadcrumb | SuBackup | SuInstall | SuExec

text \<open>The process was replaced, or the update failed before or after the executable was swapped.\<close>

datatype su_outcome = Reexec | SuFailed bool su_error

text \<open>\<^verbatim>\<open>if err := m(); err != nil { return false, e }\<close>.\<close>

definition orFail :: "(host, string, 'a) io \<Rightarrow> su_error \<Rightarrow> ('a \<Rightarrow> (host, string, su_outcome) io) \<Rightarrow> (host, string, su_outcome) io" where
  "orFail m e k = bindM (attempt m) (\<lambda>r. case r of Inl _ \<Rightarrow> ret (SuFailed False e) | Inr a \<Rightarrow> k a)"

text \<open>A system call that changes nothing modelled here.\<close>

definition syscall :: "string \<Rightarrow> (host, string, unit) io" where
  "syscall name = backend name (\<lambda>d. ((), d)) (\<lambda>d. d)"

definition maxSelfUpdateArtifactBytes :: int where
  "maxSelfUpdateArtifactBytes = 268435456"

definition downloadTo :: "world \<Rightarrow> string \<Rightarrow> string option" where
  "downloadTo w url =
     (case wDownload w url of
        None \<Rightarrow> None
      | Some body \<Rightarrow> (if int (length body) > maxSelfUpdateArtifactBytes then None else Some body))"

fun download_any :: "world \<Rightarrow> string list \<Rightarrow> string option" where
  "download_any w [] = None"
| "download_any w (u # us) = (case downloadTo w u of None \<Rightarrow> download_any w us | Some b \<Rightarrow> Some b)"

text \<open>The configured mirror first, then the release itself.\<close>

definition update_urls :: "agent_catalog \<Rightarrow> bin_pin \<Rightarrow> string \<Rightarrow> string list" where
  "update_urls cat pin ghProxy =
     (let direct = acReleaseURL cat @ ''/'' @ bpAsset pin
      in if TrimSpace ghProxy \<noteq> [] then [ghProxy @ direct, direct] else [direct])"

definition run_version :: "world \<Rightarrow> string \<Rightarrow> (host, string, string option) io" where
  "run_version w bin = backend ''exec'' (\<lambda>d. (wVersionOf w bin, d\<lparr>hRan := bin # hRan d\<rparr>)) (\<lambda>d. d\<lparr>hRan := bin # hRan d\<rparr>)"

definition remove_backup :: "(host, string, unit) io" where
  "remove_backup = ignoring (backend ''remove'' (\<lambda>d. ((), d\<lparr>hBackup := None\<rparr>)) (\<lambda>d. d))"

text \<open>The copy to the backup: truncated first, then written; removed again when the write or sync fails.\<close>

definition copyFile :: "world \<Rightarrow> (host, string, unit) io" where
  "copyFile w =
     bindM (backend ''open'' (\<lambda>d. ((), d\<lparr>hBackup := Some []\<rparr>)) (\<lambda>d. d)) (\<lambda>_.
     bindM (attempt (backend ''copy'' (\<lambda>d. ((), d\<lparr>hBackup := Some (hBinary d)\<rparr>)) (\<lambda>d. d\<lparr>hBackup := Some (wTorn w (hBinary d))\<rparr>))) (\<lambda>r.
       case r of
         Inl e \<Rightarrow> thenM remove_backup (throw e)
       | Inr _ \<Rightarrow> bindM (attempt (syscall ''sync'')) (\<lambda>r.
           case r of Inl e \<Rightarrow> thenM remove_backup (throw e) | Inr _ \<Rightarrow> syscall ''close'')))"

text \<open>A rename replaces the target atomically; across filesystems the copy is renamed instead.\<close>

definition rename_over :: "string \<Rightarrow> (host, string, unit) io" where
  "rename_over bin = backend ''rename'' (\<lambda>d. ((), d\<lparr>hBinary := bin\<rparr>)) (\<lambda>d. d)"

definition renameOrCopy :: "string \<Rightarrow> (host, string, unit) io" where
  "renameOrCopy bin =
     bindM (attempt (rename_over bin)) (\<lambda>r.
       case r of
         Inr _ \<Rightarrow> ret ()
       | Inl _ \<Rightarrow> bindM (syscall ''copy'') (\<lambda>_. bindM (rename_over bin) (\<lambda>_. ret ())))"

definition execSelf :: "(host, string, unit) io" where
  "execSelf = backend ''exec'' (\<lambda>d. ((), d\<lparr>hRan := hBinary d # hRan d\<rparr>)) (\<lambda>d. d)"

definition performSelfUpdate ::
  "world \<Rightarrow> agent_config \<Rightarrow> agent_catalog \<Rightarrow> string \<Rightarrow> string \<Rightarrow> (host, string, su_outcome) io" where
  "performSelfUpdate w cfg cat running ghProxy =
     (if wArch w \<noteq> ''amd64'' \<and> wArch w \<noteq> ''arm64'' then ret (SuFailed False SuUnsupportedArch)
      else orFail LoadState SuStateUnreadable (\<lambda>st.
        if asPendingUpdate st \<noteq> None then ret (SuFailed False SuInFlight)
        else case fmlookup (acBins cat) (''linux-'' @ wArch w) of
          None \<Rightarrow> ret (SuFailed False SuNoPin)
        | Some pin \<Rightarrow>
            if bpAsset pin = [] \<or> bpSHA256 pin = [] then ret (SuFailed False SuNoPin)
            else orFail (syscall ''locate'') SuLocate (\<lambda>_.
              case download_any w (update_urls cat pin ghProxy) of
                None \<Rightarrow> ret (SuFailed False SuDownload)
              | Some bin \<Rightarrow>
                orFail (syscall ''hash'') SuHashRead (\<lambda>_.
                if \<not> EqualFold (sha256_hex bin) (bpSHA256 pin) then ret (SuFailed False SuHashMismatch)
                else orFail (syscall ''chmod'') SuChmod (\<lambda>_.
                orFail (run_version w bin) SuSelfTestFailed (\<lambda>out.
                case out of
                  None \<Rightarrow> ret (SuFailed False SuSelfTestFailed)
                | Some got \<Rightarrow>
                  if Compare (TrimSpace got) (acVersion cat) \<noteq> 0 then ret (SuFailed False SuSelfTestVersion)
                  else orFail LoadState SuStateUnreadable (\<lambda>st.
                  if asPendingUpdate st \<noteq> None then ret (SuFailed False SuInFlight)
                  else orFail (SaveState (st\<lparr>asNodeID := cfgNodeID cfg,
                         asPendingUpdate := Some \<lparr>puFrom = running, puTo = acVersion cat, puAttempts = 0, puConfirmed = False\<rparr>\<rparr>))
                       SuBreadcrumb (\<lambda>_.
                  orFail (copyFile w) SuBackup (\<lambda>_.
                  bindM (attempt (renameOrCopy bin)) (\<lambda>r.
                  case r of
                    Inl _ \<Rightarrow> thenM remove_backup (ret (SuFailed False SuInstall))
                  | Inr _ \<Rightarrow> bindM (attempt execSelf) (\<lambda>r.
                      case r of Inl _ \<Rightarrow> ret (SuFailed True SuExec) | Inr _ \<Rightarrow> ret Reexec)))))))))))"

section \<open>Reconciliation at start\<close>

definition maxSelfUpdateAttempts :: int where
  "maxSelfUpdateAttempts = 3"

fun Contains :: "string \<Rightarrow> string \<Rightarrow> bool" where
  "Contains [] p = (p = [])"
| "Contains (c # s) p = (HasPrefix (c # s) p \<or> Contains s p)"

definition curateAbandonReason :: "string \<Rightarrow> string" where
  "curateAbandonReason reason =
     (if reason = [] then []
      else if Contains reason ''attempt cap'' then ''the update repeatedly failed to apply and hit the retry cap''
      else if Contains reason ''health gate'' then ''the updated binary failed its post-update health check and was rolled back''
      else ''the update was rolled back'')"

text \<open>Re-exec when the backup was restored; the result says whether the process was replaced.\<close>

definition reexec_if :: "bool \<Rightarrow> (host, string, bool) io" where
  "reexec_if rolledBack =
     (if rolledBack then bindM (attempt execSelf) (\<lambda>r. case r of Inl _ \<Rightarrow> ret False | Inr _ \<Rightarrow> ret True) else ret False)"

definition restore_backup :: "(host, string, bool) io" where
  "restore_backup =
     bindM (attempt (backend ''stat'' (\<lambda>d. (hBackup d, d)) (\<lambda>d. d))) (\<lambda>r.
       case r of
         Inl _ \<Rightarrow> ret False
       | Inr None \<Rightarrow> ret False
       | Inr (Some bak) \<Rightarrow>
           bindM (attempt (backend ''rename'' (\<lambda>d. ((), d\<lparr>hBinary := bak, hBackup := None\<rparr>)) (\<lambda>d. d))) (\<lambda>r.
             case r of Inl _ \<Rightarrow> ret False | Inr _ \<Rightarrow> ret True))"

definition rollbackAndAbandon :: "string \<Rightarrow> pending_update \<Rightarrow> string \<Rightarrow> (host, string, bool) io" where
  "rollbackAndAbandon buildVersion pu reason =
     bindM (if sameVersion buildVersion (puTo pu) then restore_backup else ret False) (\<lambda>rolledBack.
     bindM (attempt LoadState) (\<lambda>r.
       case r of
         Inl _ \<Rightarrow> reexec_if rolledBack
       | Inr st \<Rightarrow>
           bindM (attempt (SaveState (st\<lparr>asPendingUpdate := None, asAbandonedAgentVersion := puTo pu,
             asAbandonedReason := curateAbandonReason reason,
             asHealth := ''self-update to '' @ puTo pu @ '' abandoned: '' @ reason\<rparr>))) (\<lambda>r.
             case r of
               Inl _ \<Rightarrow> reexec_if rolledBack
             | Inr _ \<Rightarrow> (if rolledBack then reexec_if True else thenM remove_backup (ret False)))))"

definition reconcileSelfUpdateEarlyLocked :: "string \<Rightarrow> (host, string, bool) io" where
  "reconcileSelfUpdateEarlyLocked buildVersion =
     bindM LoadState (\<lambda>st.
       case asPendingUpdate st of
         None \<Rightarrow> ret False
       | Some pu0 \<Rightarrow>
           let pu = pu0\<lparr>puAttempts := puAttempts pu0 + 1\<rparr>
           in bindM (SaveState (st\<lparr>asPendingUpdate := Some pu\<rparr>)) (\<lambda>_.
                if puAttempts pu > maxSelfUpdateAttempts
                then rollbackAndAbandon buildVersion pu (''attempt cap '' @ FormatInt maxSelfUpdateAttempts @ '' exceeded'')
                else ret False))"

definition ReconcileSelfUpdateEarly :: "string \<Rightarrow> (host, string, bool) io" where
  "ReconcileSelfUpdateEarly buildVersion = bindM (syscall ''lock'') (\<lambda>_. reconcileSelfUpdateEarlyLocked buildVersion)"

definition ReconcileSelfUpdatePromote :: "world \<Rightarrow> string \<Rightarrow> (host, string, unit) io" where
  "ReconcileSelfUpdatePromote w buildVersion =
     bindM (attempt LoadState) (\<lambda>r.
       case r of
         Inl _ \<Rightarrow> ret ()
       | Inr st \<Rightarrow>
           (case asPendingUpdate st of
              None \<Rightarrow> ret ()
            | Some pu \<Rightarrow>
                (if \<not> sameVersion buildVersion (puTo pu) then ret ()
                 else if puConfirmed pu then ret ()
                 else if \<not> wHealthy w then throw ''health gate failed''
                 else SaveState (st\<lparr>asPendingUpdate := Some (pu\<lparr>puConfirmed := True\<rparr>),
                        asHealth := ''self-update to '' @ puTo pu @ '' health-confirmed (probationary)''\<rparr>))))"

definition FinalizeSelfUpdate :: "string \<Rightarrow> (host, string, unit) io" where
  "FinalizeSelfUpdate buildVersion =
     bindM (attempt LoadState) (\<lambda>r.
       case r of
         Inl _ \<Rightarrow> ret ()
       | Inr st \<Rightarrow>
           (case asPendingUpdate st of
              None \<Rightarrow> ret ()
            | Some pu \<Rightarrow>
                (if \<not> puConfirmed pu \<or> \<not> sameVersion buildVersion (puTo pu) then ret ()
                 else bindM (attempt (SaveState (st\<lparr>asPendingUpdate := None, asAgentVersionFloor := puTo pu,
                        asAbandonedAgentVersion := [], asAbandonedReason := [], asSelfUpdateBlocked := [],
                        asHealth := ''self-updated to '' @ puTo pu\<rparr>))) (\<lambda>r.
                        case r of Inl _ \<Rightarrow> ret () | Inr _ \<Rightarrow> remove_backup))))"

section \<open>Retrying a deferred update\<close>

text \<open>The reason is chosen by the kind of the error.\<close>

definition classifySelfUpdateBlock :: "su_error \<Rightarrow> string" where
  "classifySelfUpdateBlock e =
     (case e of
        SuInFlight \<Rightarrow> []
      | SuSelfTestVersion \<Rightarrow> ''the fetched agent binary does not match the rollout target version''
      | SuHashMismatch \<Rightarrow> ''the fetched agent binary does not match the rollout target version''
      | SuSelfTestFailed \<Rightarrow> ''the fetched agent binary failed its self-test''
      | SuNoPin \<Rightarrow> ''no signed self-update pin for this architecture''
      | SuUnsupportedArch \<Rightarrow> ''self-update is not supported on this architecture''
      | SuDownload \<Rightarrow> ''could not download the update binary''
      | _ \<Rightarrow> ''self-update was deferred and keeps being refused'')"

definition recordSelfUpdateBlocked :: "agent_config \<Rightarrow> string \<Rightarrow> (host, string, unit) io" where
  "recordSelfUpdateBlocked cfg reason =
     bindM (attempt LoadState) (\<lambda>r.
       case r of
         Inl _ \<Rightarrow> ret ()
       | Inr st \<Rightarrow> ignoring (SaveState (st\<lparr>asNodeID := cfgNodeID cfg, asSelfUpdateBlocked := reason\<rparr>)))"

definition clearSelfUpdateBlocked :: "(host, string, unit) io" where
  "clearSelfUpdateBlocked =
     bindM (attempt LoadState) (\<lambda>r.
       case r of
         Inl _ \<Rightarrow> ret ()
       | Inr st \<Rightarrow> (if asSelfUpdateBlocked st = [] then ret () else ignoring (SaveState (st\<lparr>asSelfUpdateBlocked := []\<rparr>))))"

text \<open>The verified fetch with the membership gate behind it.\<close>

definition WithMembershipGate :: "world \<Rightarrow> (string + files) \<Rightarrow> membership_config \<Rightarrow> (host, string, files) io" where
  "WithMembershipGate w fetched cfg =
     (case fetched of
        Inl e \<Rightarrow> throw e
      | Inr fs \<Rightarrow>
          bindM LoadState (\<lambda>st.
            case VerifyMembership (wCrypto w) fs cfg (effectiveMembershipFloor st) of
              Inl e \<Rightarrow> throw e
            | Inr _ \<Rightarrow> ret fs))"

definition retry_config :: "self_update_params \<Rightarrow> string \<Rightarrow> agent_config" where
  "retry_config p nodeID = \<lparr>cfgNodeID = nodeID, cfgPinnedPubPEM = [], cfgOperatorCredPEM = [], cfgOperatorCredAlg = [],
     cfgOperatorRPID = [], cfgOperatorOrigin = [], cfgStagingDir = [], cfgInstallArgs = [], cfgSelfUpdate = Some p\<rparr>"

definition RetryDeferredSelfUpdate ::
  "world \<Rightarrow> self_update_params option \<Rightarrow> string \<Rightarrow> (host, string, files) io \<Rightarrow> (host, string, bool \<times> su_outcome option) io" where
  "RetryDeferredSelfUpdate w params nodeID verifiedFetch =
     (case params of
        None \<Rightarrow> ret (False, None)
      | Some p \<Rightarrow>
          bindM (attempt LoadState) (\<lambda>r.
            case r of
              Inl _ \<Rightarrow> ret (False, None)
            | Inr st \<Rightarrow>
                (if asSelfUpdateBlocked st = [] \<or> asPendingUpdate st \<noteq> None \<or> asPendingApply st \<noteq> None then ret (False, None)
                 else bindM verifiedFetch (\<lambda>fs.
                   case parseAgentCatalog fs of
                     None \<Rightarrow> thenM clearSelfUpdateBlocked (ret (False, None))
                   | Some cat \<Rightarrow>
                       (let dec = decideSelfUpdate (Some cat) (suRunningVersion p) (asAgentVersionFloor st) (asAbandonedAgentVersion st)
                        in if dec \<noteq> updateAfterApply \<and> dec \<noteq> updateForced
                           then thenM clearSelfUpdateBlocked (ret (False, None))
                           else bindM (performSelfUpdate w (retry_config p nodeID) cat (suRunningVersion p) (suGithubProxy p)) (\<lambda>out.
                             case out of
                               Reexec \<Rightarrow> ret (True, Some out)
                             | SuFailed swapped e \<Rightarrow>
                                 thenM (if \<not> swapped \<and> classifySelfUpdateBlock e \<noteq> []
                                        then recordSelfUpdateBlocked (retry_config p nodeID) (classifySelfUpdateBlock e) else ret ())
                                   (ret (True, Some out))))))))"

section \<open>Specification\<close>

text \<open>The bytes the catalog pins for this machine.\<close>

definition pinned_for :: "world \<Rightarrow> agent_catalog \<Rightarrow> string \<Rightarrow> bool" where
  "pinned_for w cat bin \<longleftrightarrow> (\<exists>pin. fmlookup (acBins cat) (''linux-'' @ wArch w) = Some pin \<and> EqualFold (sha256_hex bin) (bpSHA256 pin))"

definition with_breadcrumb :: "agent_config \<Rightarrow> agent_catalog \<Rightarrow> string \<Rightarrow> agent_state \<Rightarrow> agent_state" where
  "with_breadcrumb cfg cat running st = st\<lparr>asNodeID := cfgNodeID cfg,
     asPendingUpdate := Some \<lparr>puFrom = running, puTo = acVersion cat, puAttempts = 0, puConfirmed = False\<rparr>\<rparr>"

definition swap_ok :: "world \<Rightarrow> agent_config \<Rightarrow> agent_catalog \<Rightarrow> string \<Rightarrow> host \<Rightarrow> su_outcome \<Rightarrow> host \<Rightarrow> bool" where
  "swap_ok w cfg cat running d out d' \<longleftrightarrow>
     hRoot d' = hRoot d \<and> (\<exists>rs. hRan d' = rs @ hRan d \<and> list_all (pinned_for w cat) rs) \<and>
     (hState d' = hState d \<or> hState d' = Some (with_breadcrumb cfg cat running (current_state d))) \<and>
     (case out of
        SuFailed False e \<Rightarrow> hBinary d' = hBinary d
      | _ \<Rightarrow> pinned_for w cat (hBinary d') \<and>
          (\<exists>v. wVersionOf w (hBinary d') = Some v \<and> Compare (TrimSpace v) (acVersion cat) = 0) \<and>
          hBackup d' = Some (hBinary d) \<and> hState d' = Some (with_breadcrumb cfg cat running (current_state d)))"

section \<open>The swap\<close>

lemma wp_orFail: "wp m (\<lambda>a. wp (k a) Q E) (\<lambda>_. Q (SuFailed False e)) d \<Longrightarrow> wp (orFail m e k) Q E d"
  unfolding orFail_def by (rule wp_bindM) simp

text \<open>In front of a single call the rule is an equivalence.\<close>

lemma wp_orFail_backend [simp]:
  "wp (orFail (backend n f g) e k) Q E d \<longleftrightarrow>
     wp (k (fst (f d))) Q E (snd (f d)) \<and> Q (SuFailed False e) d \<and> Q (SuFailed False e) (g d)"
  (is "?l \<longleftrightarrow> ?r")
proof
  assume l: ?l
  have *: "case orFail (backend n f g) e k (d, fs) of
      (Inr a, (d', _)) \<Rightarrow> Q a d' | (Inl e, (d', _)) \<Rightarrow> E e d'" for fs
    using l by (simp add: wp_def)
  from * [of "[FailBefore]"] * [of "[FailAfter]"] have "Q (SuFailed False e) d \<and> Q (SuFailed False e) (g d)"
    by (simp add: orFail_def backend_def bindM_def attempt_def ret_def)
  moreover have "wp (k (fst (f d))) Q E (snd (f d))"
    unfolding wp_def
  proof
    fix fs
    show "case k (fst (f d)) (snd (f d), fs) of (Inr a, (d', _)) \<Rightarrow> Q a d' | (Inl e, (d', _)) \<Rightarrow> E e d'"
      using * [of "Pass # fs"] by (simp add: orFail_def backend_def bindM_def attempt_def)
  qed
  ultimately show ?r by simp
next
  assume ?r
  then show ?l by (intro wp_orFail) simp
qed

lemma wp_remove_backup: "Q () d \<Longrightarrow> Q () (d\<lparr>hBackup := None\<rparr>) \<Longrightarrow> wp remove_backup Q E d"
  unfolding remove_backup_def by (rule wp_ignoring) simp

lemma wp_copyFile:
  "wp (copyFile w) (\<lambda>_ d'. d' = d\<lparr>hBackup := Some (hBinary d)\<rparr>) (\<lambda>_ d'. \<exists>b. d' = d\<lparr>hBackup := b\<rparr>) d"
  unfolding copyFile_def syscall_def
  by (auto intro!: wp_bindM wp_remove_backup) (metis host.surjective host.update_convs(3))+

lemma wp_renameOrCopy: "wp (renameOrCopy bin) (\<lambda>_ d'. d' = d\<lparr>hBinary := bin\<rparr>) (\<lambda>_ d'. d' = d) d"
  unfolding renameOrCopy_def rename_over_def syscall_def by (auto intro!: wp_bindM)

text \<open>The last part of the swap, from the backup on.\<close>

lemma wp_swap_tail:
  assumes "\<And>b e. Q (SuFailed False e) (d\<lparr>hBackup := b\<rparr>)"
    and "let d1 = d\<lparr>hBackup := Some (hBinary d), hBinary := bin\<rparr>
         in Q (SuFailed True SuExec) d1 \<and> Q Reexec (d1\<lparr>hRan := bin # hRan d1\<rparr>)"
  shows "wp (orFail (copyFile w) SuBackup (\<lambda>_. bindM (attempt (renameOrCopy bin)) (\<lambda>r.
      case r of
        Inl _ \<Rightarrow> thenM remove_backup (ret (SuFailed False SuInstall))
      | Inr _ \<Rightarrow> bindM (attempt execSelf) (\<lambda>r. case r of Inl _ \<Rightarrow> ret (SuFailed True SuExec) | Inr _ \<Rightarrow> ret Reexec)))) Q E d"
proof -
  let ?d = "d\<lparr>hBackup := Some (hBinary d)\<rparr>"
  have "wp (bindM (attempt execSelf) (\<lambda>r. case r of Inl _ \<Rightarrow> ret (SuFailed True SuExec) | Inr _ \<Rightarrow> ret Reexec)) Q E (?d\<lparr>hBinary := bin\<rparr>)"
    unfolding execSelf_def by (rule wp_bindM) (use assms(2) in \<open>simp add: Let_def\<close>)
  moreover have "wp (thenM remove_backup (ret (SuFailed False SuInstall))) Q E ?d"
    by (rule wp_bindM, rule wp_remove_backup) (use assms(1) in simp_all)
  ultimately have tail: "wp (bindM (attempt (renameOrCopy bin)) (\<lambda>r.
      case r of
        Inl _ \<Rightarrow> thenM remove_backup (ret (SuFailed False SuInstall))
      | Inr _ \<Rightarrow> bindM (attempt execSelf) (\<lambda>r. case r of Inl _ \<Rightarrow> ret (SuFailed True SuExec) | Inr _ \<Rightarrow> ret Reexec))) Q E ?d"
    by (intro wp_bindM) (simp, rule wp_mono [OF wp_renameOrCopy], auto)
  show ?thesis
    by (rule wp_orFail, rule wp_mono [OF wp_copyFile]) (use assms(1) tail in auto)
qed

lemma performSelfUpdate_swap_ok:
  "wp (performSelfUpdate w cfg cat running ghProxy) (swap_ok w cfg cat running d) (\<lambda>_ _. False) d"
proof -
  have start: "swap_ok w cfg cat running d (SuFailed False e) d" for e by (simp add: swap_ok_def)
  have tested: "swap_ok w cfg cat running d (SuFailed False e) (d\<lparr>hRan := bin # hRan d\<rparr>)" if "pinned_for w cat bin" for bin e
    using that by (auto simp: swap_ok_def intro!: exI [of _ "[bin]"])
  have saved: "swap_ok w cfg cat running d (SuFailed False e)
      (d\<lparr>hRan := bin # hRan d, hState := Some (with_breadcrumb cfg cat running (current_state d)), hBackup := b\<rparr>)"
    "swap_ok w cfg cat running d (SuFailed False e)
      (d\<lparr>hRan := bin # hRan d, hState := Some (with_breadcrumb cfg cat running (current_state d))\<rparr>)"
    if "pinned_for w cat bin" for bin e b
    using that by (auto simp: swap_ok_def intro!: exI [of _ "[bin]"])
  have finished: "let d1 = d\<lparr>hRan := bin # hRan d, hState := Some (with_breadcrumb cfg cat running (current_state d)),
        hBackup := Some (hBinary d), hBinary := bin\<rparr>
      in swap_ok w cfg cat running d (SuFailed True SuExec) d1 \<and> swap_ok w cfg cat running d Reexec (d1\<lparr>hRan := bin # hRan d1\<rparr>)"
    if "pinned_for w cat bin" "wVersionOf w bin = Some v" "Compare (TrimSpace v) (acVersion cat) = 0" for bin v
    using that by (auto simp: swap_ok_def Let_def intro: exI [of _ "[bin]"] exI [of _ "[bin, bin]"])
  have tail: "wp (orFail (copyFile w) SuBackup (\<lambda>_. bindM (attempt (renameOrCopy bin)) (\<lambda>r.
      case r of
        Inl _ \<Rightarrow> thenM remove_backup (ret (SuFailed False SuInstall))
      | Inr _ \<Rightarrow> bindM (attempt execSelf) (\<lambda>r. case r of Inl _ \<Rightarrow> ret (SuFailed True SuExec) | Inr _ \<Rightarrow> ret Reexec))))
      (swap_ok w cfg cat running d) (\<lambda>_ _. False) (d\<lparr>hRan := bin # hRan d, hState := Some (with_breadcrumb cfg cat running (current_state d))\<rparr>)"
    if "pinned_for w cat bin" "wVersionOf w bin = Some v" "Compare (TrimSpace v) (acVersion cat) = 0" for bin v
    by (rule wp_swap_tail) (use saved finished [OF that] that in simp_all)
  have pinned: "pinned_for w cat bin" if "fmlookup (acBins cat) (''linux-'' @ wArch w) = Some pin" "EqualFold (sha256_hex bin) (bpSHA256 pin)" for pin bin
    using that by (auto simp: pinned_for_def)
  note program = performSelfUpdate_def syscall_def run_version_def LoadState_def SaveState_def Let_def start
  let ?st = "current_state d" and ?pin = "fmlookup (acBins cat) (''linux-'' @ wArch w)"
  show ?thesis
  proof (cases "(wArch w = ''amd64'' \<or> wArch w = ''arm64'') \<and> asPendingUpdate ?st = None")
    case False
    then consider "wArch w \<noteq> ''amd64'' \<and> wArch w \<noteq> ''arm64''" | "asPendingUpdate ?st \<noteq> None" by satx
    then show ?thesis by cases (simp_all add: program)
  next
    case arch: True
    show ?thesis
    proof (cases ?pin)
      case None
      with arch show ?thesis by (simp add: program)
    next
      case (Some pin)
      let ?bin = "download_any w (update_urls cat pin ghProxy)"
      show ?thesis
      proof (cases "bpAsset pin = [] \<or> bpSHA256 pin = [] \<or> ?bin = None")
        case True
        with arch Some show ?thesis by (auto simp: program)
      next
        case False
        then obtain bin where bin: "?bin = Some bin" by blast
        show ?thesis
        proof (cases "EqualFold (sha256_hex bin) (bpSHA256 pin)")
          case hash: False
          with arch Some False bin show ?thesis by (simp add: program)
        next
          case hash: True
          note p = pinned [OF Some hash]
          show ?thesis
          proof (cases "\<exists>v. wVersionOf w bin = Some v \<and> Compare (TrimSpace v) (acVersion cat) = 0")
            case version: False
            with arch Some False bin hash show ?thesis by (auto simp: program tested [OF p] split: option.split)
          next
            case version: True
            then obtain v where v: "wVersionOf w bin = Some v" "Compare (TrimSpace v) (acVersion cat) = 0" by blast
            from arch Some False bin hash v show ?thesis
              by (simp add: program tested [OF p] saved [OF p] tail [OF p v] with_breadcrumb_def [symmetric])
          qed
        qed
      qed
    qed
  qed
qed

lemma decided_version:
  assumes "decideSelfUpdate (Some cat) running floorV abandoned \<in> {updateForced, updateAfterApply}"
    and "Compare v (acVersion cat) = 0"
  shows "Compare running v \<le> 0" "floorV \<noteq> [] \<Longrightarrow> Compare floorV v \<le> 0" "abandoned \<noteq> [] \<Longrightarrow> Compare v abandoned \<noteq> 0"
proof -
  have d: "0 \<le> Compare (acVersion cat) running" "floorV \<noteq> [] \<Longrightarrow> 0 \<le> Compare (acVersion cat) floorV"
    "abandoned \<noteq> [] \<Longrightarrow> Compare (acVersion cat) abandoned \<noteq> 0"
    using assms(1) by (auto simp: decideSelfUpdate_def Let_def split: if_splits)
  have le: "Compare (acVersion cat) v \<le> 0" "Compare v (acVersion cat) \<le> 0" using assms(2) version.swap [of "acVersion cat" v] by simp_all
  show "Compare running v \<le> 0"
    by (rule version.trans [OF _ le(1)]) (use d(1) version.swap [of running "acVersion cat"] in simp)
  show "Compare floorV v \<le> 0" if "floorV \<noteq> []"
    by (rule version.trans [OF _ le(1)]) (use d(2) [OF that] version.swap [of floorV "acVersion cat"] in simp)
  show "Compare v abandoned \<noteq> 0" if "abandoned \<noteq> []"
    using d(3) [OF that] version.equal_trans [of "acVersion cat" v abandoned]
      assms(2) version.swap [of "acVersion cat" v] by auto
qed

text \<open>
  Claim C32: whatever system call fails or wherever the process dies during a self-update that was decided on, only bytes with the
  signed digest are ever executed, and the state file changes at most by the breadcrumb.  Either the
  executable is unchanged, or it is one with the signed digest that reports a version not below the running
  one or the floor and not the abandoned one, the breadcrumb naming it is durable, and the backup holds the
  previous executable.
\<close>

theorem swapped_binary_is_pinned_and_recoverable:
  assumes "decideSelfUpdate (Some cat) running (asAgentVersionFloor (current_state d)) (asAbandonedAgentVersion (current_state d))
      \<in> {updateForced, updateAfterApply}"
    and "performSelfUpdate w cfg cat running ghProxy (d, fs) = (r, (d', fs'))"
  shows "(\<exists>rs. hRan d' = rs @ hRan d \<and> list_all (pinned_for w cat) rs) \<and> hRoot d' = hRoot d \<and>
    (hState d' = hState d \<or> hState d' = Some (with_breadcrumb cfg cat running (current_state d))) \<and>
    (hBinary d' = hBinary d \<or>
     pinned_for w cat (hBinary d') \<and>
     (\<exists>v. wVersionOf w (hBinary d') = Some v \<and> Compare running (TrimSpace v) \<le> 0 \<and>
        (asAgentVersionFloor (current_state d) \<noteq> [] \<longrightarrow> Compare (asAgentVersionFloor (current_state d)) (TrimSpace v) \<le> 0) \<and>
        (asAbandonedAgentVersion (current_state d) \<noteq> [] \<longrightarrow> Compare (TrimSpace v) (asAbandonedAgentVersion (current_state d)) \<noteq> 0)) \<and>
     hState d' = Some (with_breadcrumb cfg cat running (current_state d)) \<and> hBackup d' = Some (hBinary d))"
proof -
  have "\<exists>out. r = Inr out \<and> swap_ok w cfg cat running d out d'"
  proof (cases r)
    case (Inl e)
    then show ?thesis using wp_error [OF performSelfUpdate_swap_ok] assms(2) by blast
  next
    case (Inr out)
    then show ?thesis using wp_value [OF performSelfUpdate_swap_ok] assms(2) by blast
  qed
  then obtain out where out: "swap_ok w cfg cat running d out d'" by blast
  show ?thesis
    using out decided_version [OF assms(1)]
    by (auto simp: swap_ok_def split: su_outcome.splits bool.splits)
qed

text \<open>One call under a script that is not empty.\<close>

lemma scripted:
  "backend e f g (d, Pass # fs) = (Inr (fst (f d)), (snd (f d), fs))"
  "backend e f g (d, FailBefore # fs) = (Inl e, (d, fs))"
  "bindM (backend e f g) k (d, Pass # fs) = k (fst (f d)) (snd (f d), fs)"
  "bindM (backend e f g) k (d, FailBefore # fs) = (Inl e, (d, fs))"
  "bindM (attempt (backend e f g)) k' (d, Pass # fs) = k' (Inr (fst (f d))) (snd (f d), fs)"
  "bindM (attempt (backend e f g)) k' (d, FailBefore # fs) = k' (Inl e) (d, fs)"
  "bindM (volatile h) k1 (d, fs) = k1 (fst (h d)) (snd (h d), fs)"
  "bindM (bindM m m') k2 = bindM m (\<lambda>a. bindM (m' a) k2)"
  "bindM (ret a) k3 = k3 a"
  by (auto simp: backend_def bindM_def attempt_def ret_def throw_def volatile_def fun_eq_iff split: prod.splits sum.splits)

text \<open>An agent at 1.0.0 whose mirror serves a 2.0.0 executable.\<close>

definition example_world :: world where
  "example_world = \<lparr>wCrypto = example_crypto, wMarshalPKIX = (\<lambda>_. Some ''pkix''), wFetch = Inl ''offline'',
     wClock = (\<lambda>_. 0), wSamples = (\<lambda>_. []), wPolicy = (\<lambda>_ t. Some t), wLower = (\<lambda>s. s), wNewKey = (''private'', ''public''), wArch = ''amd64'',
     wDownload = (\<lambda>_. Some ''new''), wVersionOf = (\<lambda>b. Some (if b = ''new'' then ''2.0.0'' else ''1.0.0'')), wTorn = (\<lambda>s. s),
     wHealthy = False\<rparr>"

definition example_catalog :: agent_catalog where
  "example_catalog = \<lparr>acVersion = ''v2.0.0'', acMinVersion = [], acReleaseURL = ''https://x'',
     acBins = fmap_of_list [(''linux-amd64'', \<lparr>bpAsset = ''agent'', bpSHA256 = sha256_hex ''new''\<rparr>)]\<rparr>"

definition example_host :: host where
  "example_host = \<lparr>hState = None, hBinary = ''old'', hBackup = None, hKey = ''key'', hRegistered = [], hRoot = [], hRan = []\<rparr>"

definition example_agent_config :: agent_config where
  "example_agent_config = retry_config \<lparr>suRunningVersion = ''1.0.0'', suGithubProxy = []\<rparr> ''n''"

lemmas example_agent_defs = example_world_def example_catalog_def example_host_def example_agent_config_def

lemma example_versions:
  "Compare ''2.0.0'' ''v2.0.0'' = 0" "Compare ''v2.0.0'' ''1.0.0'' = 1" "Compare ''1.0.0'' ''v2.0.0'' = - 1"
  "TrimSpace ''2.0.0'' = ''2.0.0''" "TrimSpace ''v2.0.0'' = ''v2.0.0''" "TrimSpace [] = []"
  by code_simp+

lemma example_decision: "decideSelfUpdate (Some example_catalog) ''1.0.0'' [] [] = updateAfterApply"
  by (simp add: decideSelfUpdate_def example_catalog_def isForced_def example_versions)

lemma run_bindM_attempt: "m s = (r, s') \<Longrightarrow> bindM (attempt m) k s = k r s'"
  by (simp add: bindM_def attempt_def)

lemma run_copyFile: "copyFile w (d, []) = (Inr (), (d\<lparr>hBackup := Some (hBinary d)\<rparr>, []))"
  by (simp add: copyFile_def syscall_def)

lemma run_renameOrCopy: "renameOrCopy bin (d, []) = (Inr (), (d\<lparr>hBinary := bin\<rparr>, []))"
  by (simp add: renameOrCopy_def rename_over_def)

theorem swapped_binary_is_pinned_and_recoverable_witness:
  "\<exists>d'. performSelfUpdate example_world example_agent_config example_catalog ''1.0.0'' [] (example_host, []) = (Inr Reexec, (d', [])) \<and>
     hBinary d' = ''new'' \<and> hBackup d' = Some ''old'' \<and> pinned_for example_world example_catalog ''new''"
proof -
  let ?r = "performSelfUpdate example_world example_agent_config example_catalog ''1.0.0'' [] (example_host, [])"
  have r: "fst ?r = Inr Reexec \<and> hBinary (fst (snd ?r)) = ''new'' \<and> snd (snd ?r) = []"
    by (simp add: performSelfUpdate_def example_agent_defs orFail_def LoadState_def SaveState_def syscall_def run_version_def update_urls_def
        downloadTo_def maxSelfUpdateArtifactBytes_def run_bindM_attempt run_copyFile run_renameOrCopy execSelf_def example_versions
        current_state_def zero_state_def EqualFold_def scripted)
  define d' where "d' = fst (snd ?r)"
  have eq: "?r = (Inr Reexec, (d', []))" using r unfolding d'_def by (metis prod.collapse)
  have "decideSelfUpdate (Some example_catalog) ''1.0.0'' (asAgentVersionFloor (current_state example_host))
      (asAbandonedAgentVersion (current_state example_host)) \<in> {updateForced, updateAfterApply}"
    by (simp add: example_host_def current_state_def zero_state_def example_decision)
  note swapped_binary_is_pinned_and_recoverable [OF this eq]
  moreover have "hBinary d' = ''new''" "hBinary example_host = ''old''" using r unfolding d'_def by (simp_all add: example_host_def)
  ultimately have "hBackup d' = Some ''old'' \<and> pinned_for example_world example_catalog ''new''" by auto
  with eq \<open>hBinary d' = ''new''\<close> show ?thesis by blast
qed

end
