(* ===== verification/Self_Update_Recovery.thy ===== *)
theory Self_Update_Recovery
  imports Self_Update
begin

text \<open>
  What the starts of a swapped-in executable do that never completes a cycle
  (\<^verbatim>\<open>ReconcileSelfUpdateEarly\<close>, \<^verbatim>\<open>ReconcileSelfUpdatePromote\<close> and \<^verbatim>\<open>rollbackAndAbandon\<close> of \<^verbatim>\<open>selfupdate.go\<close>).
\<close>

section \<open>Starts of a failing executable\<close>

text \<open>A start that dies before it completes a cycle, and a start in which every call from the \<open>k\<close>-th on fails.\<close>

definition boot :: "world \<Rightarrow> (host, string, unit) io" where
  "boot w = bindM (volatile (\<lambda>d. (hBinary d, d))) (\<lambda>bin.
     case wVersionOf w bin of
       None \<Rightarrow> ret ()
     | Some v \<Rightarrow> bindM (ReconcileSelfUpdateEarly v) (\<lambda>replaced. if replaced then ret () else ReconcileSelfUpdatePromote w v))"

definition crash_at :: "nat \<Rightarrow> fault list" where
  "crash_at k = replicate k Pass @ replicate 16 FailBefore"

fun boots :: "world \<Rightarrow> fault list list \<Rightarrow> host \<Rightarrow> host" where
  "boots w [] d = d"
| "boots w (fs # fss) d = boots w fss (fst (snd (boot w (d, fs))))"

definition custody :: "agent_state \<Rightarrow> string \<times> int \<times> bool \<times> pending_apply option \<times> string" where
  "custody s = (asLastCompiledAt s, asMembershipEpoch s, asMembershipVerified s, asPendingApply s, asAgentVersionFloor s)"

text \<open>An update from \<open>old\<close> to \<open>new\<close> that has not been completed: abandoned, or still recoverable.\<close>

definition abandoned :: "string \<Rightarrow> string \<Rightarrow> agent_state \<Rightarrow> host \<Rightarrow> bool" where
  "abandoned old target st0 d \<longleftrightarrow>
     hBinary d = old \<and>
     (\<exists>st. hState d = Some st \<and> custody st = custody st0 \<and> asPendingUpdate st = None \<and> asAbandonedAgentVersion st = target)"

definition recovering :: "string \<Rightarrow> string \<Rightarrow> string \<Rightarrow> agent_state \<Rightarrow> int \<Rightarrow> host \<Rightarrow> bool" where
  "recovering new old target st0 n d \<longleftrightarrow>
     (hBinary d = new \<and> hBackup d = Some old \<or> hBinary d = old) \<and>
     (\<exists>st pu. hState d = Some st \<and> custody st = custody st0 \<and> asPendingUpdate st = Some pu \<and> puTo pu = target \<and> n \<le> puAttempts pu)"

lemmas boot_defs = boot_def ReconcileSelfUpdateEarly_def reconcileSelfUpdateEarlyLocked_def ReconcileSelfUpdatePromote_def
  rollbackAndAbandon_def restore_backup_def reexec_if_def remove_backup_def execSelf_def syscall_def LoadState_def SaveState_def
  ignoring_def maxSelfUpdateAttempts_def

lemma crash_at_cases:
  obtains j where "j \<in> {0, 1, 2, 3, 4, 5, 6, 7, 8, 9, 10, 11}" "crash_at k = replicate j Pass @ replicate 16 FailBefore"
  | gs where "crash_at k = replicate 12 Pass @ gs"
proof (cases "k < 12")
  case True
  then have "k \<in> {0, 1, 2, 3, 4, 5, 6, 7, 8, 9, 10, 11}"
    by (simp only: insert_iff empty_iff) presburger
  then show ?thesis using that(1) [of k] unfolding crash_at_def by blast
next
  case False
  then have "replicate k Pass = replicate 12 Pass @ replicate (k - 12) Pass" by (simp flip: replicate_add)
  then show ?thesis using that(2) unfolding crash_at_def by simp
qed

text \<open>One start that dies, and one that does not.\<close>

lemma boot_crash:
  assumes v: "wVersionOf w new = Some vn" "sameVersion vn target" "wVersionOf w old = Some vo" "\<not> sameVersion vo target"
    and st: "hState d = Some st" "asPendingUpdate st = Some pu" "puTo pu = target" "n \<le> puAttempts pu" "custody st = custody st0"
    and b: "hBinary d = new \<and> hBackup d = Some old \<or> hBinary d = old"
    and k: "k \<in> {0, 1, 2, 3, 4, 5, 6, 7, 8, 9, 10, 11}"
  shows "let d' = fst (snd (boot w (d, replicate k Pass @ replicate 16 FailBefore)))
    in recovering new old target st0 n d' \<or> abandoned old target st0 d'"
proof -
  have le: "n \<le> puAttempts pu + 1" using st(4) by simp
  note simps = boot_defs v st numeral_eq_Suc scripted current_state_def Let_def
  note c = recovering_def abandoned_def custody_def v st(1-4) st(5) [unfolded custody_def, simplified] le
  show ?thesis
  proof (cases "puAttempts pu < 3")
    case True
    from b k show ?thesis
      unfolding insert_iff empty_iff
      by (elim disjE conjE) (simp add: simps True; simp add: c)+
  next
    case False
    from b k show ?thesis
      unfolding insert_iff empty_iff
      by (elim disjE conjE) (simp add: simps False; simp add: c)+
  qed
qed

lemma boot_clean:
  assumes v: "wVersionOf w new = Some vn" "sameVersion vn target" "wVersionOf w old = Some vo" "\<not> sameVersion vo target"
    and st: "hState d = Some st" "asPendingUpdate st = Some pu" "puTo pu = target" "n \<le> puAttempts pu" "custody st = custody st0"
    and b: "hBinary d = new \<and> hBackup d = Some old \<or> hBinary d = old"
    and fs: "fs = [] \<or> fs = replicate 12 Pass @ gs"
  shows "let d' = fst (snd (boot w (d, fs)))
    in n < 3 \<and> recovering new old target st0 (n + 1) d' \<or> abandoned old target st0 d'"
proof -
  note simps = boot_defs v st numeral_eq_Suc scripted current_state_def Let_def
  note c = recovering_def abandoned_def custody_def v st(1-4) st(5) [unfolded custody_def, simplified]
  show ?thesis
  proof (cases "puAttempts pu < 3")
    case True
    then have "n < 3" using st(4) by simp
    note * = True this
    show ?thesis
    proof (cases "wHealthy w \<or> puConfirmed pu")
      case up: True
      with b fs show ?thesis by (elim disjE conjE) (simp add: simps *; simp add: c *)+
    next
      case False
      with b fs show ?thesis by (elim disjE conjE) (simp add: simps *; simp add: c *)+
    qed
  next
    case False
    then have "3 \<le> puAttempts pu" by simp
    with b fs show ?thesis
      by (elim disjE conjE) (simp add: simps; simp add: c)+
  qed
qed

lemma boot_abandoned:
  assumes "wVersionOf w old = Some vo" "abandoned old target st0 d"
  shows "fst (snd (boot w (d, fs))) = d"
proof -
  have "wp (boot w) (\<lambda>_ d'. d' = d) (\<lambda>_ d'. d' = d) d"
    using assms by (auto simp: boot_def abandoned_def ReconcileSelfUpdateEarly_def reconcileSelfUpdateEarlyLocked_def
        ReconcileSelfUpdatePromote_def syscall_def current_state_def intro!: wp_bindM)
  from wp_outcome [OF this] show ?thesis by (cases "boot w (d, fs)") auto
qed

text \<open>The starts together.\<close>

lemma boots_abandoned:
  assumes "wVersionOf w old = Some vo" "abandoned old target st0 d"
  shows "boots w fss d = d"
  by (induction fss) (simp_all add: boot_abandoned [OF assms])

lemma boots_append: "boots w (xs @ ys) d = boots w ys (boots w xs d)"
  by (induction xs arbitrary: d) auto

lemma boot_cases:
  assumes "wVersionOf w new = Some vn" "sameVersion vn target" "wVersionOf w old = Some vo" "\<not> sameVersion vo target"
    and "recovering new old target st0 n d"
  shows "fs = crash_at k \<Longrightarrow> recovering new old target st0 n (fst (snd (boot w (d, fs)))) \<or> abandoned old target st0 (fst (snd (boot w (d, fs))))"
    and "fs = [] \<Longrightarrow> n < 3 \<and> recovering new old target st0 (n + 1) (fst (snd (boot w (d, fs)))) \<or> abandoned old target st0 (fst (snd (boot w (d, fs))))"
proof -
  obtain st pu where st: "hState d = Some st" "asPendingUpdate st = Some pu" "puTo pu = target" "n \<le> puAttempts pu" "custody st = custody st0"
    and b: "hBinary d = new \<and> hBackup d = Some old \<or> hBinary d = old"
    using assms(5) unfolding recovering_def by blast
  note clean = boot_clean [OF assms(1-4) st b, unfolded Let_def] and crash = boot_crash [OF assms(1-4) st b, unfolded Let_def]
  have weaken: "recovering new old target st0 n x" if "recovering new old target st0 (n + 1) x" for x
    using that unfolding recovering_def by force
  show "recovering new old target st0 n (fst (snd (boot w (d, fs)))) \<or> abandoned old target st0 (fst (snd (boot w (d, fs))))" if "fs = crash_at k"
  proof (cases k rule: crash_at_cases)
    case (1 j)
    then show ?thesis using crash [OF 1(1)] that by simp
  next
    case (2 gs)
    then show ?thesis using clean [of fs gs] weaken [of "fst (snd (boot w (d, fs)))"] that by blast
  qed
  show "n < 3 \<and> recovering new old target st0 (n + 1) (fst (snd (boot w (d, fs)))) \<or> abandoned old target st0 (fst (snd (boot w (d, fs))))" if "fs = []"
    using clean [of fs] that by blast
qed

lemma boots_recover:
  assumes v: "wVersionOf w new = Some vn" "sameVersion vn target" "wVersionOf w old = Some vo" "\<not> sameVersion vo target"
  shows "recovering new old target st0 n d \<Longrightarrow>
      recovering new old target st0 n (boots w (map crash_at ks) d) \<or> abandoned old target st0 (boots w (map crash_at ks) d)"
    and "recovering new old target st0 (3 - int m) d \<Longrightarrow> abandoned old target st0 (boots w (replicate (Suc m) []) d)"
proof -
  show "recovering new old target st0 n d \<Longrightarrow>
      recovering new old target st0 n (boots w (map crash_at ks) d) \<or> abandoned old target st0 (boots w (map crash_at ks) d)"
  proof (induction ks arbitrary: d)
    case (Cons k ks)
    then show ?case
      using boot_cases(1) [OF v Cons.prems refl, of k] boots_abandoned [OF v(3), of target st0 _ "map crash_at ks"] by auto
  qed simp
  show "recovering new old target st0 (3 - int m) d \<Longrightarrow> abandoned old target st0 (boots w (replicate (Suc m) []) d)"
  proof (induction m arbitrary: d)
    case 0
    then show ?case using boot_cases(2) [OF v 0 refl] by simp
  next
    case (Suc m)
    let ?d = "fst (snd (boot w (d, [])))"
    have "recovering new old target st0 (3 - int m) ?d \<or> abandoned old target st0 ?d"
      using boot_cases(2) [OF v Suc.prems refl] by auto
    then show ?case
      using Suc.IH [of ?d] boots_abandoned [OF v(3), of target st0 ?d "replicate (Suc m) []"] by auto
  qed
qed

text \<open>
  Claim C33: an executable that was swapped in and never completes a cycle is
  replaced by its predecessor.  Whatever number of starts die, at whatever system call, after them at most
  one start more than \<open>maxSelfUpdateAttempts\<close> suffices: the previous executable is in place, the update is
  recorded as abandoned, and the rollback floors, the pending apply and the version floor are untouched.
\<close>

theorem failing_update_is_rolled_back:
  assumes "hState d = Some st" "asPendingUpdate st = Some pu" "0 \<le> puAttempts pu"
    and "hBinary d = new" "hBackup d = Some old"
    and "wVersionOf w new = Some vn" "sameVersion vn (puTo pu)"
    and "wVersionOf w old = Some vo" "\<not> sameVersion vo (puTo pu)"
  shows "abandoned old (puTo pu) st (boots w (map crash_at ks @ replicate (nat maxSelfUpdateAttempts + 1) []) d)"
proof -
  have "recovering new old (puTo pu) st (3 - int 3) d" using assms(1-5) by (simp add: recovering_def)
  from boots_recover(1) [OF assms(6-9) this, of ks]
  show ?thesis
    using boots_recover(2) [OF assms(6-9), of st 3 "boots w (map crash_at ks) d"]
      boots_abandoned [OF assms(8), of "puTo pu" st "boots w (map crash_at ks) d" "replicate 4 []"]
    by (auto simp: boots_append maxSelfUpdateAttempts_def simp del: boots.simps replicate.simps)
qed

text \<open>
  Claim C34: the converse for a single failing system call.  If at the
  deciding start only the rename of the backup over the executable fails, the start deletes that backup and
  clears the breadcrumb all the same, and no later start, however it runs, brings the previous executable back.
\<close>

theorem failed_rename_discards_the_backup:
  assumes "hState d = Some st" "asPendingUpdate st = Some pu" "maxSelfUpdateAttempts \<le> puAttempts pu"
    and "hBinary d = new" "hBackup d = Some old" "wVersionOf w new = Some vn" "sameVersion vn (puTo pu)"
  shows "let d' = boots w ([Pass, Pass, Pass, Pass, FailBefore] # fss) d
    in hBinary d' = new \<and> hBackup d' = None \<and> abandoned new (puTo pu) st d'"
proof -
  let ?d = "fst (snd (boot w (d, [Pass, Pass, Pass, Pass, FailBefore])))"
  have "hBackup ?d = None \<and> abandoned new (puTo pu) st ?d"
    using assms by (simp add: boot_defs scripted current_state_def Let_def abandoned_def custody_def)
  then show ?thesis
    using boots_abandoned [OF assms(6), of "puTo pu" st ?d fss] by (simp add: abandoned_def)
qed

definition example_unconfirmed :: host where
  "example_unconfirmed = example_host\<lparr>hBinary := ''new'', hBackup := Some ''old'', hState := Some (zero_state\<lparr>asPendingUpdate :=
     Some \<lparr>puFrom = ''1.0.0'', puTo = ''v2.0.0'', puAttempts = 3, puConfirmed = False\<rparr>\<rparr>)\<rparr>"

theorem failing_update_is_rolled_back_witness:
  "abandoned ''old'' ''v2.0.0'' (current_state example_unconfirmed)
     (boots example_world (map crash_at [1, 4, 6] @ replicate (nat maxSelfUpdateAttempts + 1) []) example_unconfirmed)"
  using failing_update_is_rolled_back [of example_unconfirmed "current_state example_unconfirmed" _ "''new''" "''old''" example_world "''2.0.0''" "''1.0.0''" "[1, 4, 6]"]
  by (simp add: example_unconfirmed_def example_agent_defs current_state_def zero_state_def sameVersion_def example_versions)

theorem failed_rename_discards_the_backup_witness:
  "let d' = boots example_world ([Pass, Pass, Pass, Pass, FailBefore] # replicate 5 []) example_unconfirmed
    in hBinary d' = ''new'' \<and> hBackup d' = None \<and> abandoned ''new'' ''v2.0.0'' (current_state example_unconfirmed) d'"
  using failed_rename_discards_the_backup [of example_unconfirmed "current_state example_unconfirmed" _ "''new''" "''old''" example_world "''2.0.0''" "replicate 5 []"]
  by (simp add: example_unconfirmed_def example_agent_defs current_state_def zero_state_def sameVersion_def example_versions maxSelfUpdateAttempts_def)

end
