(* ===== verification/Agent_Run.thy ===== *)
theory Agent_Run
  imports Self_Update
begin

text \<open>
  The agent's control loop (\<^verbatim>\<open>internal/agent/agent.go\<close>, \<^verbatim>\<open>apply_intent.go\<close>, \<^verbatim>\<open>cycle.go\<close>): fetch, verify, guard
  against rollback, stage, persist the intent, run the installer as root, record the result.  Every system
  call may fail, and a crash is a script that fails from some call on.  The theory shows that no sequence
  of runs, crashes and self-update steps executes an unverified bundle or moves the host back.
\<close>

section \<open>Recording the result\<close>

text \<open>Reporting to the controller is best-effort and changes nothing on the host.\<close>

definition persistAndReport :: "agent_state \<Rightarrow> (host, string, unit) io" where
  "persistAndReport s = bindM (SaveState s) (\<lambda>_. ignoring (syscall ''report''))"

definition success_state ::
  "world \<Rightarrow> agent_config \<Rightarrow> agent_state \<Rightarrow> manifest_info \<Rightarrow> verify_result \<Rightarrow> int \<Rightarrow> string \<Rightarrow> agent_state" where
  "success_state w cfg prev man vr membershipEpoch telemetryPolicy =
     (let uninstall = (cfgInstallArgs cfg = [''--uninstall'']);
          action = (if uninstall then LastActionUninstall else LastActionApply)
      in zero_state\<lparr>asNodeID := cfgNodeID cfg, asLastCompiledAt := miCompiledAt man, asLastChecksum := miChecksum man,
           asLastResult := LastResultOK, asLastAction := action, asLastSigned := vrSigned vr,
           asMembershipEpoch := (if asMembershipEpoch prev > membershipEpoch then asMembershipEpoch prev else membershipEpoch),
           asMembershipVerified := cfgOperatorCredPEM cfg \<noteq> [] \<or> asMembershipVerified prev \<or> asMembershipEpoch prev > 0,
           asAppliedAt := FormatLayout (wClock w 2), asHealth := (if uninstall then ''uninstalled'' else ''applied''),
           asAgentVersionFloor := asAgentVersionFloor prev, asPendingUpdate := asPendingUpdate prev,
           asAbandonedAgentVersion := asAbandonedAgentVersion prev, asAbandonedReason := asAbandonedReason prev,
           asConditions := collectConditionsForAction prev True action (wClock w 3) (wSamples w 3),
           asActiveTelemetryPolicy := telemetryPolicy\<rparr>)"

definition recordSuccess ::
  "world \<Rightarrow> agent_config \<Rightarrow> agent_state \<Rightarrow> manifest_info \<Rightarrow> verify_result \<Rightarrow> int \<Rightarrow> string \<Rightarrow> (host, string, unit) io" where
  "recordSuccess w cfg prev man vr membershipEpoch telemetryPolicy =
     persistAndReport (success_state w cfg prev man vr membershipEpoch telemetryPolicy)"

definition failure_state :: "world \<Rightarrow> agent_config \<Rightarrow> agent_state \<Rightarrow> string \<Rightarrow> agent_state" where
  "failure_state w cfg prev detail =
     zero_state\<lparr>asNodeID := (if asNodeID prev = [] then cfgNodeID cfg else asNodeID prev),
       asLastCompiledAt := asLastCompiledAt prev, asLastChecksum := asLastChecksum prev, asLastResult := ''error'',
       asLastAction := asLastAction prev, asLastError := detail, asLastSigned := asLastSigned prev,
       asMembershipEpoch := asMembershipEpoch prev, asMembershipVerified := asMembershipVerified prev \<or> asMembershipEpoch prev > 0,
       asPendingApply := asPendingApply prev, asAppliedAt := FormatLayout (wClock w 4), asHealth := ''degraded: keeping last-good'',
       asAgentVersionFloor := asAgentVersionFloor prev, asPendingUpdate := asPendingUpdate prev,
       asAbandonedAgentVersion := asAbandonedAgentVersion prev, asAbandonedReason := asAbandonedReason prev,
       asConditions := collectConditions prev False (wClock w 5) (wSamples w 5),
       asActiveTelemetryPolicy := asActiveTelemetryPolicy prev\<rparr>"

definition recordFailure :: "world \<Rightarrow> agent_config \<Rightarrow> agent_state \<Rightarrow> string \<Rightarrow> (host, string, unit) io" where
  "recordFailure w cfg prev detail = ignoring (persistAndReport (failure_state w cfg prev detail))"

text \<open>\<^verbatim>\<open>recordFailure(cfg, prev, e); return e\<close>, and the same behind a check.\<close>

definition failWith :: "world \<Rightarrow> agent_config \<Rightarrow> agent_state \<Rightarrow> string \<Rightarrow> (host, string, 'a) io" where
  "failWith w cfg prev e = thenM (recordFailure w cfg prev e) (throw e)"

definition orRecord ::
  "world \<Rightarrow> agent_config \<Rightarrow> agent_state \<Rightarrow> string option \<Rightarrow> (host, string, 'a) io \<Rightarrow> (host, string, 'a) io" where
  "orRecord w cfg prev err k = (case err of Some e \<Rightarrow> failWith w cfg prev e | None \<Rightarrow> k)"

section \<open>Intent, staging and the root action\<close>

definition pending_of ::
  "world \<Rightarrow> agent_config \<Rightarrow> manifest_info \<Rightarrow> int \<Rightarrow> string \<Rightarrow> string \<Rightarrow> string \<Rightarrow> string \<Rightarrow> pending_apply" where
  "pending_of w cfg man membershipEpoch action digest signingFP operatorFP =
     \<lparr>paCompiledAt = miCompiledAt man, paManifestChecksum = miChecksum man, paBundleSHA256 = digest, paAction = action,
      paMembershipEpoch = membershipEpoch, paMembershipVerified = cfgOperatorCredPEM cfg \<noteq> [],
      paSigningKeyFingerprint = signingFP, paOperatorCredentialFingerprint = operatorFP,
      paOperatorCredentialAlg = (if cfgOperatorCredPEM cfg \<noteq> [] then cfgOperatorCredAlg cfg else []),
      paOperatorRPID = (if cfgOperatorCredPEM cfg \<noteq> [] then cfgOperatorRPID cfg else []),
      paOperatorOrigin = (if cfgOperatorCredPEM cfg \<noteq> [] then cfgOperatorOrigin cfg else []),
      paStartedAt = FormatLayout (wClock w 0)\<rparr>"

definition intent_state :: "world \<Rightarrow> agent_config \<Rightarrow> agent_state \<Rightarrow> pending_apply \<Rightarrow> string \<Rightarrow> agent_state" where
  "intent_state w cfg prev pending action =
     prev\<lparr>asNodeID := cfgNodeID cfg, asPendingApply := Some pending, asLastResult := LastResultPending, asLastError := [],
       asAppliedAt := paStartedAt pending, asHealth := ''apply in progress; last-good retained'',
       asConditions := collectConditionsForAction prev False action (wClock w 1) (wSamples w 1)\<rparr>"

definition fingerprint_of :: "world \<Rightarrow> string \<Rightarrow> string option" where
  "fingerprint_of w pem = (if pem = [] then Some [] else credFingerprint w pem)"

definition persistPendingApply ::
  "world \<Rightarrow> agent_config \<Rightarrow> agent_state \<Rightarrow> manifest_info \<Rightarrow> files \<Rightarrow> int \<Rightarrow> string \<Rightarrow> (host, string, agent_state) io" where
  "persistPendingApply w cfg prev man fs membershipEpoch action =
     (case verifiedBundleDigest fs of
        None \<Rightarrow> throw ''verified bundle has no checksums.sha256''
      | Some digest \<Rightarrow>
      (case fingerprint_of w (cfgPinnedPubPEM cfg) of
        None \<Rightarrow> throw ''fingerprint configured signing key''
      | Some signingFP \<Rightarrow>
      (case fingerprint_of w (cfgOperatorCredPEM cfg) of
        None \<Rightarrow> throw ''fingerprint configured operator credential''
      | Some operatorFP \<Rightarrow>
          (let pending = pending_of w cfg man membershipEpoch action digest signingFP operatorFP
           in if samePendingApply (asPendingApply prev) pending then bindM (SaveState prev) (\<lambda>_. ret prev)
              else let next = intent_state w cfg prev pending action
                   in bindM (SaveState next) (\<lambda>_. ret next)))))"

definition validateInstallArgs :: "string list \<Rightarrow> bool" where
  "validateInstallArgs args \<longleftrightarrow> args = [] \<or> args = [''--uninstall'']"

text \<open>The staged tree is returned: what the installer runs from.\<close>

definition stage :: "world \<Rightarrow> agent_config \<Rightarrow> files \<Rightarrow> (host, string, files) io" where
  "stage w cfg fs =
     (case validateBundlePaths (wLower w) fs of
        None \<Rightarrow> throw ''bundle paths''
      | Some paths \<Rightarrow>
          thenM (if TrimSpace (cfgStagingDir cfg) \<noteq> [] then syscall ''secure staging parent'' else ret ())
          (thenM (syscall ''create staging dir'')
             (foldMM paths fmempty (\<lambda>tree rel.
                thenM (syscall ''mkdir'')
                (thenM (syscall ''write'')
                  (ret (case fmlookup fs rel of None \<Rightarrow> tree | Some content \<Rightarrow> fmupd rel content tree)))))))"

text \<open>The installer may have changed the host even when it reports an error.\<close>

definition run_installer :: "agent_config \<Rightarrow> files \<Rightarrow> (host, string, unit) io" where
  "run_installer cfg tree =
     (let ra = \<lparr>raFiles = tree, raArgs = cfgInstallArgs cfg, raConfig = cfg\<rparr>
      in backend ''install.sh'' (\<lambda>d. ((), d\<lparr>hRoot := ra # hRoot d\<rparr>)) (\<lambda>d. d\<lparr>hRoot := ra # hRoot d\<rparr>))"

definition apply_staged :: "agent_config \<Rightarrow> files \<Rightarrow> (host, string, unit) io" where
  "apply_staged cfg tree =
     (if fmlookup tree ''install.sh'' = None then throw ''staged install.sh missing''
      else if \<not> validateInstallArgs (cfgInstallArgs cfg) then throw ''unsupported install.sh arguments''
      else thenM (syscall ''locate bash'') (run_installer cfg tree))"

section \<open>One run\<close>

record run_result =
  rrAction :: string
  rrCompiledAt :: string
  rrChecksum :: string
  rrVerify :: verify_result
  rrMembershipEpoch :: int

text \<open>A run completes, or its process is replaced by the new executable.\<close>

datatype run_outcome = Completed run_result | Replaced

definition candidateTelemetryPolicy :: "world \<Rightarrow> files \<Rightarrow> bool \<Rightarrow> string + string" where
  "candidateTelemetryPolicy w fs operatorCredentialConfigured =
     (let legacy = fmlookup fs policyFileName; successor = fmlookup fs successorFileName
      in if legacy \<noteq> None \<and> successor \<noteq> None then Inl ''bundle contains both policy files''
         else if legacy = None \<and> successor = None then Inr []
         else if \<not> operatorCredentialConfigured then Inl ''active telemetry policy requires an operator credential''
         else case legacy of
           Some p \<Rightarrow> (case wPolicy w True p of None \<Rightarrow> Inl ''policy'' | Some canonical \<Rightarrow> Inr canonical)
         | None \<Rightarrow> (case wPolicy w False (the successor) of None \<Rightarrow> Inl ''policy'' | Some canonical \<Rightarrow> Inr canonical))"

text \<open>A deferred update after the bundle was applied: its failure is only reported.\<close>

definition run_deferred :: "world \<Rightarrow> agent_config \<Rightarrow> agent_catalog option \<Rightarrow> run_result \<Rightarrow> (host, string, run_outcome) io" where
  "run_deferred w cfg deferred res =
     (case (deferred, cfgSelfUpdate cfg) of
        (Some cat, Some p) \<Rightarrow>
          bindM (performSelfUpdate w cfg cat (suRunningVersion p) (suGithubProxy p)) (\<lambda>out.
            case out of
              Reexec \<Rightarrow> ret Replaced
            | SuFailed swapped e \<Rightarrow>
                thenM (if classifySelfUpdateBlock e \<noteq> [] then recordSelfUpdateBlocked cfg (classifySelfUpdateBlock e) else ret ())
                  (ret (Completed res)))
      | _ \<Rightarrow> ret (Completed res))"

definition run_apply ::
  "world \<Rightarrow> agent_config \<Rightarrow> agent_state \<Rightarrow> manifest_info \<Rightarrow> files \<Rightarrow> run_result \<Rightarrow> string \<Rightarrow> agent_catalog option \<Rightarrow>
   (host, string, run_outcome) io" where
  "run_apply w cfg prev man fs res candidatePolicy deferred =
     bindM (attempt (stage w cfg fs)) (\<lambda>r.
     case r of
       Inl e \<Rightarrow> failWith w cfg prev e
     | Inr tree \<Rightarrow>
     bindM (attempt (persistPendingApply w cfg prev man fs (rrMembershipEpoch res) (rrAction res))) (\<lambda>r.
     case r of
       Inl e \<Rightarrow> failWith w cfg prev e
     | Inr intentState \<Rightarrow>
     bindM (attempt (apply_staged cfg tree)) (\<lambda>r.
     case r of
       Inl e \<Rightarrow> failWith w cfg intentState e
     | Inr _ \<Rightarrow>
     thenM (recordSuccess w cfg intentState man (rrVerify res) (rrMembershipEpoch res)
              (if rrAction res = LastActionUninstall then [] else candidatePolicy))
       (run_deferred w cfg deferred res))))"

text \<open>A forced update precedes the apply; a permitted one is left for afterwards.\<close>

definition run_update ::
  "world \<Rightarrow> agent_config \<Rightarrow> agent_state \<Rightarrow> manifest_info \<Rightarrow> files \<Rightarrow> run_result \<Rightarrow> string \<Rightarrow> (host, string, run_outcome) io" where
  "run_update w cfg prev man fs res candidatePolicy =
     (case cfgSelfUpdate cfg of
        None \<Rightarrow> run_apply w cfg prev man fs res candidatePolicy None
      | Some p \<Rightarrow>
          (let catalog = parseAgentCatalog fs; running = suRunningVersion p;
               dec = decideSelfUpdate catalog running (asAgentVersionFloor prev) (asAbandonedAgentVersion prev)
           in case (isForced catalog running, catalog) of
                (True, Some cat) \<Rightarrow>
                  (if dec \<noteq> updateForced
                   then failWith w cfg prev ''below min_version and cannot self-update''
                   else bindM (performSelfUpdate w cfg cat running (suGithubProxy p)) (\<lambda>out.
                     case out of
                       Reexec \<Rightarrow> ret Replaced
                     | SuFailed swapped e \<Rightarrow>
                         thenM (if \<not> swapped then recordFailure w cfg prev ''below min_version, self-update failed'' else ret ())
                           (throw ''below min_version, self-update failed'')))
              | _ \<Rightarrow> run_apply w cfg prev man fs res candidatePolicy (if dec = updateAfterApply then catalog else None)))"

definition membership_of :: "agent_config \<Rightarrow> membership_config" where
  "membership_of cfg = \<lparr>mcNodeID = cfgNodeID cfg, mcOperatorCredPEM = cfgOperatorCredPEM cfg, mcOperatorCredAlg = cfgOperatorCredAlg cfg,
     mcOperatorRPID = cfgOperatorRPID cfg, mcOperatorOrigin = cfgOperatorOrigin cfg\<rparr>"

definition action_of :: "agent_config \<Rightarrow> string" where
  "action_of cfg = (if length (cfgInstallArgs cfg) = 1 then LastActionUninstall else LastActionApply)"

text \<open>The gates between the fetched bundle and the first step that changes anything.\<close>

definition run_bundle :: "world \<Rightarrow> agent_config \<Rightarrow> agent_state \<Rightarrow> files \<Rightarrow> (host, string, run_outcome) io" where
  "run_bundle w cfg prev fs =
     (if \<not> PreflightBundleMaterialization (wLower w) fs then failWith w cfg prev ''bundle materialization preflight''
      else case fmlookup fs ''manifest.json'' of
        None \<Rightarrow> failWith w cfg prev ''bundle missing manifest.json''
      | Some manRaw \<Rightarrow>
      (case parseManifest manRaw of
        None \<Rightarrow> failWith w cfg prev ''parse manifest''
      | Some man \<Rightarrow>
          (if miNodeID man \<noteq> [] \<and> miNodeID man \<noteq> cfgNodeID cfg
           then failWith w cfg prev ''manifest node_id does not match''
           else case VerifyBundle (wCrypto w) fs (cfgPinnedPubPEM cfg) of
             Inl e \<Rightarrow> failWith w cfg prev e
           | Inr vr \<Rightarrow>
           (case candidateTelemetryPolicy w fs (cfgOperatorCredPEM cfg \<noteq> []) of
             Inl e \<Rightarrow> failWith w cfg prev e
           | Inr candidatePolicy \<Rightarrow>
           (case VerifyMembership (wCrypto w) fs (membership_of cfg) (effectiveMembershipFloor prev) of
             Inl e \<Rightarrow> failWith w cfg prev e
           | Inr membershipEpoch \<Rightarrow>
               orRecord w cfg prev (CheckRollback (effectiveRollbackState prev) (miCompiledAt man))
              (orRecord w cfg prev (validateCandidateAgainstPending prev man fs (action_of cfg))
                (run_update w cfg prev man fs
                   \<lparr>rrAction = action_of cfg, rrCompiledAt = miCompiledAt man, rrChecksum = miChecksum man, rrVerify = vr,
                    rrMembershipEpoch = membershipEpoch\<rparr> candidatePolicy)))))))"

text \<open>The checks on the loaded state, then the fetch.\<close>

definition run_loaded :: "world \<Rightarrow> agent_config \<Rightarrow> agent_state \<Rightarrow> (host, string, run_outcome) io" where
  "run_loaded w cfg prev =
     (if asNodeID prev \<noteq> [] \<and> asNodeID prev \<noteq> cfgNodeID cfg then throw ''state belongs to another node''
      else case validatePendingApply w cfg prev of
        Some e \<Rightarrow> throw e
      | None \<Rightarrow>
          (if (asMembershipVerified prev \<or> asMembershipEpoch prev > 0) \<and> cfgOperatorCredPEM cfg = []
           then throw ''refusing trust downgrade''
           else case wFetch w of
             Inl e \<Rightarrow> failWith w cfg prev e
           | Inr fs \<Rightarrow> run_bundle w cfg prev fs))"

text \<open>\<open>held\<close> is the lease passed in by a controller cycle, and whether it is still open.\<close>

definition run :: "world \<Rightarrow> agent_config \<Rightarrow> bool option \<Rightarrow> (host, string, run_outcome) io" where
  "run w cfg held =
     (if TrimSpace (cfgNodeID cfg) = [] then throw ''empty node id''
      else if \<not> validateInstallArgs (cfgInstallArgs cfg) then throw ''unsupported install.sh arguments''
      else case held of
        None \<Rightarrow> thenM (syscall ''lock'') (bindM LoadState (run_loaded w cfg))
      | Some live \<Rightarrow> (if live then bindM LoadState (run_loaded w cfg) else throw ''held state lease is closed''))"

section \<open>One controller cycle\<close>

definition RegenerateKey :: "world \<Rightarrow> (host, string, string) io" where
  "RegenerateKey w =
     thenM (syscall ''secure key dir'') (thenM (syscall ''lock key'') (thenM (syscall ''inspect key'')
     (thenM (syscall ''write key temp file'')
     (thenM (backend ''install key'' (\<lambda>d. ((), d\<lparr>hKey := fst (wNewKey w)\<rparr>)) (\<lambda>d. d\<lparr>hKey := fst (wNewKey w)\<rparr>))
     (thenM (syscall ''protect installed key'') (thenM (syscall ''sync key directory'') (ret (snd (wNewKey w)))))))))"

text \<open>The registration of the new key; the controller may have it although the answer was lost.\<close>

definition Rekey :: "string \<Rightarrow> (host, string, unit) io" where
  "Rekey pub = backend ''rekey'' (\<lambda>d. ((), d\<lparr>hRegistered := pub # hRegistered d\<rparr>)) (\<lambda>d. d\<lparr>hRegistered := pub # hRegistered d\<rparr>)"

text \<open>
  What the controller answers in one cycle: the poll, the first fetch with its rekey flag and generation,
  and the generation of the fetch that the run itself makes (its bundle is \<^const>\<open>wFetch\<close>).
\<close>

record controller_view =
  cvPoll :: "string + (int \<times> bool)"
  cvFetch :: "string + files"
  cvRekeyRequested :: bool
  cvFetchedGen :: int
  cvRunGen :: int

definition already_applied :: "files \<Rightarrow> agent_state \<Rightarrow> bool" where
  "already_applied fs prev \<longleftrightarrow>
     (case Option.bind (fmlookup fs ''manifest.json'') parseManifest of
        None \<Rightarrow> False
      | Some man \<Rightarrow> miChecksum man \<noteq> [] \<and> asLastResult prev = LastResultOK \<and> asLastChecksum prev = miChecksum man)"

text \<open>The state the idle check looks at, when the served bundle is not past the cursor.\<close>

definition idle_state :: "int \<Rightarrow> controller_view \<Rightarrow> (host, string, string + agent_state) io" where
  "idle_state after cv = (if cvFetchedGen cv \<le> after then attempt LoadState else ret (Inl []))"

datatype cycle_outcome = Resume int bool | CycleReplaced

definition RunControllerCycle :: "world \<Rightarrow> agent_config \<Rightarrow> int \<Rightarrow> controller_view \<Rightarrow> (host, string, cycle_outcome) io" where
  "RunControllerCycle w cfg after cv =
     (case cvPoll cv of
        Inl e \<Rightarrow> throw e
      | Inr (polledGen, changed) \<Rightarrow>
          (if \<not> changed then ret (Resume after False)
           else case cvFetch cv of
             Inl e \<Rightarrow> throw e
           | Inr fs \<Rightarrow>
               thenM (syscall ''lock'')
               (if cvRekeyRequested cv
                then bindM (RegenerateKey w) (\<lambda>newPub. thenM (Rekey newPub)
                       (ret (Resume (if cvFetchedGen cv > polledGen then cvFetchedGen cv else polledGen) False)))
                else bindM (idle_state after cv) (\<lambda>r.
                  if (case r of Inl _ \<Rightarrow> False | Inr prev \<Rightarrow> already_applied fs prev) then ret (Resume polledGen False)
                  else bindM (run w cfg (Some True)) (\<lambda>out.
                    case out of
                      Replaced \<Rightarrow> ret CycleReplaced
                    | Completed _ \<Rightarrow> ret (Resume (cvRunGen cv) True))))))"

end
