(* ===== verification/Agent_Custody.thy ===== *)
theory Agent_Custody
  imports Agent_Run
begin

text \<open>
  What the agent's state file guards across runs: the compile time and the membership epoch of every root
  action that was started, kept either in the last-known-good fields or in the write-ahead intent.
\<close>

section \<open>Specification\<close>

definition action_time :: "root_action \<Rightarrow> time option" where
  "action_time ra = Option.bind (fmlookup (raFiles ra) ''manifest.json'') (\<lambda>raw.
     Option.bind (parseManifest raw) (\<lambda>man. ParseLayout (TrimSpace (miCompiledAt man))))"

definition action_epoch :: "root_action \<Rightarrow> int option" where
  "action_epoch ra =
     (if cfgOperatorCredPEM (raConfig ra) = [] then None
      else Option.bind (fmlookup (raFiles ra) ''trustlist.json'') (\<lambda>raw. map_option trust_list.tlEpoch (unmarshal_trust_list raw)))"

text \<open>A later action is not older, and under the keystone once an earlier one was.\<close>

definition not_behind :: "root_action \<Rightarrow> root_action \<Rightarrow> bool" where
  "not_behind later earlier \<longleftrightarrow>
     (\<exists>t t'. action_time earlier = Some t \<and> action_time later = Some t' \<and> t \<le> t') \<and>
     (cfgOperatorCredPEM (raConfig earlier) \<noteq> [] \<longrightarrow>
        cfgOperatorCredPEM (raConfig later) \<noteq> [] \<and>
        (\<exists>e e'. action_epoch earlier = Some e \<and> action_epoch later = Some e' \<and> e \<le> e'))"

text \<open>The bundle of a root action passed the integrity and the membership check under its configuration.\<close>

definition admitted :: "crypto \<Rightarrow> root_action \<Rightarrow> bool" where
  "admitted cr ra \<longleftrightarrow>
     (\<exists>r. VerifyBundle cr (raFiles ra) (cfgPinnedPubPEM (raConfig ra)) = Inr r) \<and>
     (\<exists>prevEpoch e. VerifyMembership cr (raFiles ra) (membership_of (raConfig ra)) prevEpoch = Inr e) \<and>
     raArgs ra = cfgInstallArgs (raConfig ra) \<and> validateInstallArgs (raArgs ra)"

definition floors :: "agent_state \<Rightarrow> string \<times> int \<times> bool \<times> pending_apply option" where
  "floors st = (asLastCompiledAt st, asMembershipEpoch st, asMembershipVerified st, asPendingApply st)"

definition covers :: "agent_state \<Rightarrow> root_action \<Rightarrow> bool" where
  "covers st ra \<longleftrightarrow>
     (\<exists>t. action_time ra = Some t \<and>
        ((\<exists>l. ParseLayout (TrimSpace (asLastCompiledAt st)) = Some l \<and> t \<le> l) \<or>
         (\<exists>p x. asPendingApply st = Some p \<and> ParseLayout (TrimSpace (paCompiledAt p)) = Some x \<and> t \<le> x))) \<and>
     (cfgOperatorCredPEM (raConfig ra) \<noteq> [] \<longrightarrow>
       (\<exists>e. action_epoch ra = Some e \<and>
         (asMembershipVerified st \<and> e \<le> asMembershipEpoch st \<or>
          (\<exists>p. asPendingApply st = Some p \<and> paMembershipVerified p \<and> e \<le> paMembershipEpoch p))))"

definition intent_ahead :: "agent_state \<Rightarrow> bool" where
  "intent_ahead st \<longleftrightarrow>
     (\<forall>p x l. asPendingApply st = Some p \<longrightarrow> ParseLayout (TrimSpace (paCompiledAt p)) = Some x \<longrightarrow>
        ParseLayout (TrimSpace (asLastCompiledAt st)) = Some l \<longrightarrow> l \<le> x)"

definition guards :: "agent_state \<Rightarrow> root_action list \<Rightarrow> bool" where
  "guards st rs \<longleftrightarrow> intent_ahead st \<and> (\<forall>ra \<in> set rs. covers st ra)"

definition host_ok :: "crypto \<Rightarrow> host \<Rightarrow> bool" where
  "host_ok cr d \<longleftrightarrow> guards (current_state d) (hRoot d) \<and> sorted_wrt not_behind (hRoot d) \<and> list_all (admitted cr) (hRoot d)"

lemma guards_floors: "guards st rs \<Longrightarrow> floors st' = floors st \<Longrightarrow> guards st' rs"
  by (simp add: guards_def intent_ahead_def covers_def floors_def)

section \<open>What the gates establish\<close>

definition gated :: "world \<Rightarrow> agent_config \<Rightarrow> agent_state \<Rightarrow> files \<Rightarrow> manifest_info \<Rightarrow> int \<Rightarrow> bool" where
  "gated w cfg prev fs man epoch \<longleftrightarrow>
     validateInstallArgs (cfgInstallArgs cfg) \<and>
     validatePendingApply w cfg prev = None \<and>
     \<not> ((asMembershipVerified prev \<or> asMembershipEpoch prev > 0) \<and> cfgOperatorCredPEM cfg = []) \<and>
     (\<exists>raw. fmlookup fs ''manifest.json'' = Some raw \<and> parseManifest raw = Some man) \<and>
     (\<exists>vr. VerifyBundle (wCrypto w) fs (cfgPinnedPubPEM cfg) = Inr vr) \<and>
     VerifyMembership (wCrypto w) fs (membership_of cfg) (effectiveMembershipFloor prev) = Inr epoch \<and>
     CheckRollback (effectiveRollbackState prev) (miCompiledAt man) = None"

lemma VerifyMembership_epoch:
  assumes "VerifyMembership cr fs mc prevEpoch = Inr e" "mcOperatorCredPEM mc \<noteq> []"
  shows "prevEpoch \<le> e" "\<exists>raw tlist. fmlookup fs ''trustlist.json'' = Some raw \<and> unmarshal_trust_list raw = Some tlist \<and> trust_list.tlEpoch tlist = e"
  using assms by (auto simp: VerifyMembership_def split: option.splits sum.splits if_splits)

text \<open>The effective floor lies above both the last-known-good time and the intent.\<close>

lemma CheckRollback_floor:
  assumes "CheckRollback (effectiveRollbackState prev) c = None" and "validatePendingApply w cfg prev = None" and "intent_ahead prev"
  obtains x where "ParseLayout (TrimSpace c) = Some x"
    and "\<And>l. ParseLayout (TrimSpace (asLastCompiledAt prev)) = Some l \<Longrightarrow> l \<le> x"
    and "\<And>p y. asPendingApply prev = Some p \<Longrightarrow> ParseLayout (TrimSpace (paCompiledAt p)) = Some y \<Longrightarrow> y \<le> x"
proof -
  obtain x where x: "ParseLayout (TrimSpace c) = Some x"
    and floor: "\<And>l. ParseLayout (TrimSpace (asLastCompiledAt (effectiveRollbackState prev))) = Some l \<Longrightarrow> l \<le> x"
  proof -
    have "ParseLayout [] = None" by (simp add: ParseLayout_def)
    then show ?thesis using assms(1) that
      by (auto simp: CheckRollback_def split: option.splits if_splits)
  qed
  show ?thesis
  proof (cases "asPendingApply prev")
    case None
    then show ?thesis using that x floor by (simp add: effectiveRollbackState_def)
  next
    case (Some p)
    obtain y where y: "ParseLayout (paCompiledAt p) = Some y"
      using assms(2) Some by (auto simp: validatePendingApply_def split: if_splits)
    then have ty: "ParseLayout (TrimSpace (paCompiledAt p)) = Some y" by (simp add: ParseLayout_TrimSpace [OF y])
    have ly: "l \<le> y" if "ParseLayout (TrimSpace (asLastCompiledAt prev)) = Some l" for l
      using assms(3) Some ty that unfolding intent_ahead_def by blast
    have "y \<le> x"
    proof (cases "ParseLayout (asLastCompiledAt prev)")
      case None
      then show ?thesis using floor Some y ty by (simp add: effectiveRollbackState_def)
    next
      case l: (Some l)
      then have "ParseLayout (TrimSpace (asLastCompiledAt prev)) = Some l" by (simp add: ParseLayout_TrimSpace [OF l])
      then show ?thesis using floor [of y] floor [of l] ly [of l] Some y ty l
        by (auto simp: effectiveRollbackState_def split: if_splits)
    qed
    then have "l \<le> x" if "ParseLayout (TrimSpace (asLastCompiledAt prev)) = Some l" for l using ly [OF that] by simp
    moreover have "y' \<le> x" if "asPendingApply prev = Some p'" "ParseLayout (TrimSpace (paCompiledAt p')) = Some y'" for p' y'
      using that Some ty \<open>y \<le> x\<close> by simp
    ultimately show ?thesis by (rule that [OF x])
  qed
qed

lemma membership_floor:
  assumes "validatePendingApply w cfg prev = None"
    and "\<not> ((asMembershipVerified prev \<or> asMembershipEpoch prev > 0) \<and> cfgOperatorCredPEM cfg = [])"
    and "asMembershipVerified prev \<and> e \<le> asMembershipEpoch prev \<or>
         (\<exists>p. asPendingApply prev = Some p \<and> paMembershipVerified p \<and> e \<le> paMembershipEpoch p)"
  shows "cfgOperatorCredPEM cfg \<noteq> []" "e \<le> effectiveMembershipFloor prev"
  using assms
  by (auto simp: validatePendingApply_def check_operator_anchor_def effectiveMembershipFloor_def split: option.splits if_splits)

text \<open>The action that a gated bundle leads to.\<close>

abbreviation new_action :: "agent_config \<Rightarrow> files \<Rightarrow> root_action" where
  "new_action cfg fs \<equiv> \<lparr>raFiles = fs, raArgs = cfgInstallArgs cfg, raConfig = cfg\<rparr>"

lemma gated_action:
  assumes "gated w cfg prev fs man epoch"
  shows "admitted (wCrypto w) (new_action cfg fs)"
    and "\<exists>x. action_time (new_action cfg fs) = Some x \<and> ParseLayout (TrimSpace (miCompiledAt man)) = Some x"
    and "cfgOperatorCredPEM cfg \<noteq> [] \<Longrightarrow> action_epoch (new_action cfg fs) = Some epoch"
proof -
  show "admitted (wCrypto w) (new_action cfg fs)"
    using assms by (auto simp: gated_def admitted_def)
  show "\<exists>x. action_time (new_action cfg fs) = Some x \<and> ParseLayout (TrimSpace (miCompiledAt man)) = Some x"
    using assms by (auto simp: gated_def action_time_def CheckRollback_def split: option.splits)
  show "action_epoch (new_action cfg fs) = Some epoch" if "cfgOperatorCredPEM cfg \<noteq> []"
    using VerifyMembership_epoch [of "wCrypto w" fs "membership_of cfg" "effectiveMembershipFloor prev" epoch] assms that
    by (auto simp: gated_def action_epoch_def membership_of_def)
qed

lemma gated_not_behind:
  assumes g: "gated w cfg prev fs man epoch" and "guards prev rs" and "ra \<in> set rs"
  shows "not_behind (new_action cfg fs) ra"
proof -
  have v: "validatePendingApply w cfg prev = None" and i: "intent_ahead prev" and c: "covers prev ra"
    using assms by (auto simp: gated_def guards_def)
  have "CheckRollback (effectiveRollbackState prev) (miCompiledAt man) = None" using g by (simp add: gated_def)
  then obtain x where x: "ParseLayout (TrimSpace (miCompiledAt man)) = Some x"
    and l: "\<And>l. ParseLayout (TrimSpace (asLastCompiledAt prev)) = Some l \<Longrightarrow> l \<le> x"
    and p: "\<And>p y. asPendingApply prev = Some p \<Longrightarrow> ParseLayout (TrimSpace (paCompiledAt p)) = Some y \<Longrightarrow> y \<le> x"
    using CheckRollback_floor [OF _ v i] by blast
  have "action_time (new_action cfg fs) = Some x" using gated_action(2) [OF g] x by auto
  then have "\<exists>t t'. action_time ra = Some t \<and> action_time (new_action cfg fs) = Some t' \<and> t \<le> t'"
    using c l p unfolding covers_def by (blast intro: order_trans)
  moreover have "cfgOperatorCredPEM cfg \<noteq> [] \<and>
      (\<exists>e e'. action_epoch ra = Some e \<and> action_epoch (new_action cfg fs) = Some e' \<and> e \<le> e')"
    if key: "cfgOperatorCredPEM (raConfig ra) \<noteq> []"
  proof -
    obtain e where e: "action_epoch ra = Some e" "asMembershipVerified prev \<and> e \<le> asMembershipEpoch prev \<or>
         (\<exists>p. asPendingApply prev = Some p \<and> paMembershipVerified p \<and> e \<le> paMembershipEpoch p)"
      using c key unfolding covers_def by blast
    have f: "cfgOperatorCredPEM cfg \<noteq> []" "e \<le> effectiveMembershipFloor prev"
      using membership_floor [OF v _ e(2)] g unfolding gated_def by blast+
    then have "effectiveMembershipFloor prev \<le> epoch"
      using VerifyMembership_epoch(1) [of "wCrypto w" fs "membership_of cfg" "effectiveMembershipFloor prev" epoch] g
      by (simp add: gated_def membership_of_def)
    then show ?thesis using e(1) f gated_action(3) [OF g f(1)] by auto
  qed
  ultimately show ?thesis by (simp add: not_behind_def)
qed

section \<open>The states that are saved\<close>

lemma guards_failure: "guards prev rs \<Longrightarrow> guards (failure_state w cfg prev e) rs"
  by (auto simp: guards_def intent_ahead_def covers_def failure_state_def zero_state_def)

lemma guards_success:
  assumes g: "gated w cfg prev fs man epoch" and "guards prev rs"
  shows "guards (success_state w cfg st man vr epoch policy) (new_action cfg fs # rs)"
proof -
  obtain x where x: "action_time (new_action cfg fs) = Some x" "ParseLayout (TrimSpace (miCompiledAt man)) = Some x"
    using gated_action(2) [OF g] by blast
  have "covers (success_state w cfg st man vr epoch policy) ra" if "not_behind (new_action cfg fs) ra \<or> ra = new_action cfg fs" for ra
    using that x gated_action(3) [OF g]
    by (auto simp: covers_def not_behind_def success_state_def zero_state_def Let_def)
  then show ?thesis using gated_not_behind [OF g assms(2)]
    by (auto simp: guards_def intent_ahead_def success_state_def zero_state_def Let_def)
qed

lemma guards_intent:
  assumes g: "gated w cfg prev fs man epoch" and "guards prev rs"
    and p: "asPendingApply st = Some p" "paCompiledAt p = miCompiledAt man" "paMembershipEpoch p = epoch"
      "paMembershipVerified p \<longleftrightarrow> cfgOperatorCredPEM cfg \<noteq> []" "asLastCompiledAt st = asLastCompiledAt prev"
  shows "guards st (new_action cfg fs # rs)"
proof -
  obtain x where x: "action_time (new_action cfg fs) = Some x" "ParseLayout (TrimSpace (miCompiledAt man)) = Some x"
    using gated_action(2) [OF g] by blast
  have "covers st ra" if "not_behind (new_action cfg fs) ra \<or> ra = new_action cfg fs" for ra
    using that x p gated_action(3) [OF g] by (auto simp: covers_def not_behind_def)
  moreover have "intent_ahead st"
  proof -
    have "CheckRollback (effectiveRollbackState prev) (miCompiledAt man) = None" "validatePendingApply w cfg prev = None" "intent_ahead prev"
      using g assms(2) by (auto simp: gated_def guards_def)
    then obtain x' where "ParseLayout (TrimSpace (miCompiledAt man)) = Some x'"
      "\<And>l. ParseLayout (TrimSpace (asLastCompiledAt prev)) = Some l \<Longrightarrow> l \<le> x'"
      by (rule CheckRollback_floor) blast
    then show ?thesis using p by (simp add: intent_ahead_def)
  qed
  ultimately show ?thesis using gated_not_behind [OF g assms(2)] by (auto simp: guards_def)
qed

section \<open>Every step keeps the guard\<close>

abbreviation keeps_ok :: "crypto \<Rightarrow> (host, string, 'a) io \<Rightarrow> host \<Rightarrow> bool" where
  "keeps_ok cr m d \<equiv> wp m (\<lambda>_. host_ok cr) (\<lambda>_. host_ok cr) d"

lemma host_ok_save: "host_ok cr d \<Longrightarrow> guards s (hRoot d) \<Longrightarrow> host_ok cr (d\<lparr>hState := Some s\<rparr>)"
  by (simp add: host_ok_def)

text \<open>Steps that leave the root actions and the floors alone.\<close>

lemma host_ok_same:
  assumes "host_ok cr d" "hRoot d' = hRoot d" "floors (current_state d') = floors (current_state d)"
  shows "host_ok cr d'"
  using assms guards_floors unfolding host_ok_def by metis

lemma host_ok_resave: "host_ok cr d \<Longrightarrow> floors s = floors (current_state d) \<Longrightarrow> host_ok cr (d\<lparr>hState := Some s\<rparr>)"
  by (rule host_ok_same [of cr d]) simp_all

lemma host_ok_frame [simp]:
  "host_ok cr (d\<lparr>hBinary := b\<rparr>) = host_ok cr d" "host_ok cr (d\<lparr>hBackup := k\<rparr>) = host_ok cr d"
  "host_ok cr (d\<lparr>hRan := x\<rparr>) = host_ok cr d" "host_ok cr (d\<lparr>hKey := y\<rparr>) = host_ok cr d"
  "host_ok cr (d\<lparr>hRegistered := z\<rparr>) = host_ok cr d"
  by (simp_all add: host_ok_def)

lemma keeps_syscall [simp]: "wp (syscall n) Q E d \<longleftrightarrow> Q () d \<and> E n d"
  "wp (bindM (syscall n) k) Q' E d \<longleftrightarrow> wp (k ()) Q' E d \<and> E n d"
  by (simp_all add: syscall_def)

lemma wp_persistAndReport:
  assumes "Q () (d\<lparr>hState := Some s\<rparr>)" "E ''save state'' d" "E ''save state'' (d\<lparr>hState := Some s\<rparr>)"
  shows "wp (persistAndReport s) Q E d"
  using assms by (simp add: persistAndReport_def) (rule wp_ignoring, simp)

lemma wp_recordFailure:
  assumes "Q () d" "Q () (d\<lparr>hState := Some (failure_state w cfg prev e)\<rparr>)"
  shows "wp (recordFailure w cfg prev e) Q E d"
  unfolding recordFailure_def using assms by (intro wp_ignoring wp_persistAndReport)

lemma keeps_failWith:
  assumes "host_ok cr d" "guards prev (hRoot d)"
  shows "keeps_ok cr (failWith w cfg prev e) d"
  unfolding failWith_def
  by (rule wp_bindM, rule wp_recordFailure) (use assms in \<open>auto intro: host_ok_save guards_failure\<close>)

lemma keeps_performSelfUpdate:
  assumes "host_ok cr d"
  shows "wp (performSelfUpdate w cfg cat running proxy) (\<lambda>_ d'. host_ok cr d' \<and> hRoot d' = hRoot d) E d"
  using performSelfUpdate_swap_ok
proof (rule wp_mono)
  fix out d'
  assume s: "swap_ok w cfg cat running d out d'"
  then have "floors (current_state d') = floors (current_state d)"
    by (auto simp: swap_ok_def floors_def with_breadcrumb_def current_state_def)
  then show "host_ok cr d' \<and> hRoot d' = hRoot d" using host_ok_same [OF assms] s by (auto simp: swap_ok_def)
qed auto

lemma keeps_recordSelfUpdateBlocked:
  "host_ok cr d \<Longrightarrow> wp (recordSelfUpdateBlocked cfg reason) (\<lambda>_. host_ok cr) E d"
  unfolding recordSelfUpdateBlocked_def
  by (rule wp_bindM) (auto intro!: wp_ignoring host_ok_resave simp: floors_def)

lemma keeps_run_deferred: "host_ok cr d \<Longrightarrow> keeps_ok cr (run_deferred w cfg deferred res) d"
  unfolding run_deferred_def
  by (auto split: option.splits intro!: wp_bindM wp_mono [OF keeps_performSelfUpdate]
      keeps_recordSelfUpdateBlocked split: su_outcome.splits)

text \<open>The staged tree is the fetched bundle.\<close>

lemma stage_tree: "wp (stage w cfg fs) (\<lambda>tree d'. tree = fs \<and> d' = d) (\<lambda>_ d'. d' = d) d"
proof -
  have fold: "wp (foldMM rels acc (\<lambda>tree rel. thenM (syscall ''mkdir'') (thenM (syscall ''write'')
        (ret (case fmlookup fs rel of None \<Rightarrow> tree | Some c \<Rightarrow> fmupd rel c tree)))))
      (\<lambda>tree d'. (\<forall>p. fmlookup tree p = (if p \<in> set rels \<and> fmlookup fs p \<noteq> None then fmlookup fs p else fmlookup acc p)) \<and> d' = d)
      (\<lambda>_ d'. d' = d) d" for rels acc
  proof (induction rels arbitrary: acc)
    case (Cons r rs)
    show ?case
      unfolding foldMM.simps
      by (rule wp_bindM, simp, rule wp_mono [OF Cons.IH]) (auto split: option.splits)
  qed simp
  have eq: "tree = fs" if "validateBundlePaths (wLower w) fs = Some paths"
    "\<forall>p. fmlookup tree p = (if p \<in> set paths \<and> fmlookup fs p \<noteq> None then fmlookup fs p else fmlookup fmempty p)" for paths tree
  proof -
    have "set paths = fset (fmdom fs)" using that(1) by (auto simp: validateBundlePaths_def Let_def split: option.splits if_splits)
    then show ?thesis using that(2) by (intro fmap_ext) (auto simp: fmlookup_dom_iff)
  qed
  show ?thesis
    by (auto simp: stage_def split: option.splits intro!: wp_mono [OF fold] wp_bindM dest: eq)
qed

lemma persistPendingApply_guards:
  assumes g: "gated w cfg prev fs man epoch" and ok: "guards prev rs"
  shows "wp (persistPendingApply w cfg prev man fs epoch action)
    (\<lambda>st d'. d' = d\<lparr>hState := Some st\<rparr> \<and> guards st (new_action cfg fs # rs))
    (\<lambda>_ d'. d' = d \<or> (\<exists>st. d' = d\<lparr>hState := Some st\<rparr> \<and> guards st rs)) d"
proof -
  have tail: "guards st rs" if "guards st (new_action cfg fs # rs)" for st using that by (simp add: guards_def)
  have same: "guards prev (new_action cfg fs # rs)"
    if "samePendingApply (asPendingApply prev) (pending_of w cfg man epoch action digest sfp ofp)" for digest sfp ofp
    using that guards_intent [OF g ok, of prev] by (auto simp: samePendingApply_def pending_of_def split: option.splits)
  have fresh: "guards (intent_state w cfg prev (pending_of w cfg man epoch action digest sfp ofp) action) (new_action cfg fs # rs)"
    for digest sfp ofp
    using guards_intent [OF g ok, of "intent_state w cfg prev (pending_of w cfg man epoch action digest sfp ofp) action"]
    by (simp add: intent_state_def pending_of_def)
  show ?thesis
    using same fresh tail unfolding persistPendingApply_def Let_def by (auto split: option.splits)
qed

lemma host_ok_new_action:
  assumes "gated w cfg prev fs man epoch" "guards prev (hRoot d)" "host_ok (wCrypto w) d" "guards st (new_action cfg fs # hRoot d)"
  shows "host_ok (wCrypto w) (d\<lparr>hState := Some st, hRoot := new_action cfg fs # hRoot d\<rparr>)"
  using assms gated_action(1) [OF assms(1)] gated_not_behind [OF assms(1,2)] by (simp add: host_ok_def)

lemma apply_staged_outcome:
  "wp (apply_staged cfg tree) (\<lambda>_ d'. d' = d\<lparr>hRoot := new_action cfg tree # hRoot d\<rparr>)
     (\<lambda>_ d'. d' = d \<or> d' = d\<lparr>hRoot := new_action cfg tree # hRoot d\<rparr>) d"
  by (auto simp: apply_staged_def run_installer_def Let_def)

lemma keeps_run_apply:
  assumes g: "gated w cfg prev fs man (rrMembershipEpoch res)" and ok: "host_ok (wCrypto w) d" and prev: "current_state d = prev"
  shows "keeps_ok (wCrypto w) (run_apply w cfg prev man fs res policy deferred) d"
proof -
  let ?ra = "new_action cfg fs"
  have guards: "guards prev (hRoot d)" using ok prev by (simp add: host_ok_def)
  have committed: "keeps_ok (wCrypto w) (thenM (recordSuccess w cfg st man (rrVerify res) (rrMembershipEpoch res) pol)
      (run_deferred w cfg deferred res)) (d\<lparr>hState := Some st, hRoot := ?ra # hRoot d\<rparr>)"
    if "guards st (?ra # hRoot d)" for st pol
  proof -
    let ?d = "d\<lparr>hState := Some st, hRoot := ?ra # hRoot d\<rparr>"
    have d: "host_ok (wCrypto w) ?d" by (rule host_ok_new_action [OF g guards ok that])
    have "host_ok (wCrypto w) (?d\<lparr>hState := Some (success_state w cfg st man (rrVerify res) (rrMembershipEpoch res) pol)\<rparr>)"
      by (rule host_ok_save [OF d]) (use guards_success [OF g guards] in simp)
    then show ?thesis unfolding recordSuccess_def
      by (intro wp_bindM wp_persistAndReport keeps_run_deferred d)
  qed
  have intent: "keeps_ok (wCrypto w) (failWith w cfg st e) d'"
    if "guards st (?ra # hRoot d)" "d' = d\<lparr>hState := Some st\<rparr> \<or> d' = d\<lparr>hState := Some st, hRoot := ?ra # hRoot d\<rparr>" for st e d'
  proof -
    have "guards st (hRoot d)" using that(1) by (simp add: guards_def)
    then show ?thesis using that host_ok_save [OF ok] host_ok_new_action [OF g guards ok that(1)]
      by (auto intro!: keeps_failWith)
  qed
  have early: "keeps_ok (wCrypto w) (failWith w cfg prev e) d'"
    if "d' = d \<or> (\<exists>st. d' = d\<lparr>hState := Some st\<rparr> \<and> guards st (hRoot d))" for e d'
    using that guards ok by (auto intro!: keeps_failWith intro: host_ok_save)
  have applied: "keeps_ok (wCrypto w) (bindM (attempt (apply_staged cfg fs)) (\<lambda>r. case r of Inl e \<Rightarrow> failWith w cfg st e
      | Inr _ \<Rightarrow> thenM (recordSuccess w cfg st man (rrVerify res) (rrMembershipEpoch res) pol) (run_deferred w cfg deferred res)))
      (d\<lparr>hState := Some st\<rparr>)" if "guards st (?ra # hRoot d)" for st pol
    by (rule wp_bindM, simp only: wp_attempt sum.case, rule wp_mono [OF apply_staged_outcome]) (use that in \<open>auto intro!: committed intent\<close>)
  show ?thesis
    unfolding run_apply_def
  proof (rule wp_bindM, simp only: wp_attempt sum.case, rule wp_mono [OF stage_tree])
    fix tree d'
    assume t: "tree = fs \<and> d' = d"
    show "keeps_ok (wCrypto w) (bindM (attempt (persistPendingApply w cfg prev man fs (rrMembershipEpoch res) (rrAction res))) (\<lambda>r.
        case r of Inl e \<Rightarrow> failWith w cfg prev e | Inr st \<Rightarrow> bindM (attempt (apply_staged cfg tree)) (\<lambda>r. case r of Inl e \<Rightarrow> failWith w cfg st e
        | Inr _ \<Rightarrow> thenM (recordSuccess w cfg st man (rrVerify res) (rrMembershipEpoch res)
            (if rrAction res = LastActionUninstall then [] else policy)) (run_deferred w cfg deferred res)))) d'"
      by (rule wp_bindM, simp only: wp_attempt sum.case t, rule wp_mono [OF persistPendingApply_guards [OF g guards]])
        (auto intro: applied early)
  qed (use early in blast)
qed

lemma keeps_run_update:
  assumes g: "gated w cfg prev fs man (rrMembershipEpoch res)" and ok: "host_ok (wCrypto w) d" and prev: "current_state d = prev"
  shows "keeps_ok (wCrypto w) (run_update w cfg prev man fs res policy) d"
proof -
  have guards: "guards prev (hRoot d)" using ok prev by (simp add: host_ok_def)
  have forced: "keeps_ok (wCrypto w) (bindM (performSelfUpdate w cfg cat running proxy) (\<lambda>out. case out of Reexec \<Rightarrow> ret Replaced
      | SuFailed swapped e \<Rightarrow> thenM (if \<not> swapped then recordFailure w cfg prev msg else ret ()) (throw msg))) d" for cat running proxy msg
  proof (rule wp_bindM, rule wp_mono [OF keeps_performSelfUpdate [OF ok]])
    fix out d'
    assume d': "host_ok (wCrypto w) d' \<and> hRoot d' = hRoot d"
    then have "host_ok (wCrypto w) (d'\<lparr>hState := Some (failure_state w cfg prev msg)\<rparr>)"
      using guards guards_failure by (intro host_ok_save) auto
    with d' show "keeps_ok (wCrypto w) (case out of Reexec \<Rightarrow> ret Replaced
        | SuFailed swapped e \<Rightarrow> thenM (if \<not> swapped then recordFailure w cfg prev msg else ret ()) (throw msg)) d'"
      by (cases out) (auto intro!: wp_bindM wp_recordFailure)
  qed
  have refused: "keeps_ok (wCrypto w) (failWith w cfg prev e) d" for e by (rule keeps_failWith [OF ok guards])
  show ?thesis
    unfolding run_update_def Let_def
    by (auto intro!: forced refused keeps_run_apply [OF assms] split: option.split bool.split)
qed

lemma keeps_run_bundle:
  assumes "validateInstallArgs (cfgInstallArgs cfg)" "validatePendingApply w cfg prev = None"
    and "\<not> ((asMembershipVerified prev \<or> asMembershipEpoch prev > 0) \<and> cfgOperatorCredPEM cfg = [])"
    and ok: "host_ok (wCrypto w) d" and prev: "current_state d = prev"
  shows "keeps_ok (wCrypto w) (run_bundle w cfg prev fs) d"
proof -
  have guards: "guards prev (hRoot d)" using ok prev by (simp add: host_ok_def)
  note refused = keeps_failWith [OF ok guards]
  have check: "keeps_ok (wCrypto w) (orRecord w cfg prev err k) d" if "err = None \<Longrightarrow> keeps_ok (wCrypto w) k d" for err k
    using that by (auto simp: orRecord_def intro: refused split: option.split)
  have admit: "keeps_ok (wCrypto w) (run_update w cfg prev man fs
      \<lparr>rrAction = action_of cfg, rrCompiledAt = miCompiledAt man, rrChecksum = miChecksum man, rrVerify = vr, rrMembershipEpoch = epoch\<rparr> policy) d"
    if "gated w cfg prev fs man epoch" for man vr epoch policy
    by (rule keeps_run_update) (use that ok prev in auto)
  show ?thesis
    unfolding run_bundle_def
    by (auto intro!: refused check admit split: option.split sum.split) (use assms(1-3) in \<open>auto simp: gated_def\<close>)
qed

lemma keeps_run_loaded:
  assumes ok: "host_ok (wCrypto w) d" and args: "validateInstallArgs (cfgInstallArgs cfg)"
  shows "keeps_ok (wCrypto w) (run_loaded w cfg (current_state d)) d"
proof -
  have "guards (current_state d) (hRoot d)" using ok by (simp add: host_ok_def)
  note refused = keeps_failWith [OF ok this]
  show ?thesis
  proof (cases "validatePendingApply w cfg (current_state d)")
    case None
    then show ?thesis
      using ok keeps_run_bundle [OF args None _ ok refl]
      by (cases "wFetch w") (simp_all add: run_loaded_def refused)
  qed (simp add: run_loaded_def ok)
qed

lemma keeps_run:
  assumes "host_ok (wCrypto w) d"
  shows "keeps_ok (wCrypto w) (run w cfg held) d"
  using assms keeps_run_loaded [OF assms, of cfg] by (simp add: run_def split: option.split)

text \<open>The other steps of the agent.\<close>

lemma keeps_RunControllerCycle:
  assumes "host_ok (wCrypto w) d"
  shows "keeps_ok (wCrypto w) (RunControllerCycle w cfg after cv) d"
proof -
  have rekey: "keeps_ok (wCrypto w) (bindM (RegenerateKey w) (\<lambda>newPub. thenM (Rekey newPub) (ret out))) d" for out
    by (rule wp_bindM) (simp add: RegenerateKey_def Rekey_def assms)
  have cycle: "keeps_ok (wCrypto w) (bindM (run w cfg (Some True)) (\<lambda>out.
      case out of Replaced \<Rightarrow> ret CycleReplaced | Completed _ \<Rightarrow> ret (Resume (cvRunGen cv) True))) d"
    by (rule wp_bindM, rule wp_mono [OF keeps_run [OF assms]]) (auto split: run_outcome.split)
  have rest: "keeps_ok (wCrypto w) (bindM (idle_state after cv) (\<lambda>r.
      if (case r of Inl _ \<Rightarrow> False | Inr prev \<Rightarrow> already_applied fs prev) then ret (Resume polledGen False)
      else bindM (run w cfg (Some True)) (\<lambda>out.
        case out of Replaced \<Rightarrow> ret CycleReplaced | Completed _ \<Rightarrow> ret (Resume (cvRunGen cv) True)))) d" for fs polledGen
    by (rule wp_bindM) (use assms cycle in \<open>simp add: idle_state_def\<close>)
  show ?thesis
    unfolding RunControllerCycle_def using assms
    by (auto intro!: rekey rest split: sum.split prod.split)
qed

lemmas keeps_intros = wp_bindM wp_ignoring host_ok_resave

lemma keeps_rollback:
  assumes "host_ok cr d"
  shows "wp (reexec_if b) (\<lambda>_. host_ok cr) E d" "wp restore_backup (\<lambda>_. host_ok cr) E d" "wp remove_backup (\<lambda>_. host_ok cr) E d"
  using assms
  by (auto simp: reexec_if_def execSelf_def restore_backup_def remove_backup_def intro!: keeps_intros split: option.split)

lemma keeps_rollbackAndAbandon:
  assumes "host_ok cr d"
  shows "keeps_ok cr (rollbackAndAbandon v pu reason) d"
proof -
  have final: "keeps_ok cr (if b then reexec_if True else thenM remove_backup (ret False)) x" if "host_ok cr x" for b x
    using keeps_rollback [OF that] by (auto intro!: wp_bindM)
  have tail: "keeps_ok cr (bindM (attempt LoadState) (\<lambda>r. case r of Inl _ \<Rightarrow> reexec_if b
       | Inr st \<Rightarrow> bindM (attempt (SaveState (st\<lparr>asPendingUpdate := None, asAbandonedAgentVersion := puTo pu,
             asAbandonedReason := curateAbandonReason reason, asHealth := ''self-update to '' @ puTo pu @ '' abandoned: '' @ reason\<rparr>))) (\<lambda>r.
             case r of Inl _ \<Rightarrow> reexec_if b
             | Inr _ \<Rightarrow> (if b then reexec_if True else thenM remove_backup (ret False))))) d'"
    if ok: "host_ok cr d'" for b d'
  proof (rule wp_bindM, simp only: wp_attempt sum.case wp_LoadState, intro conjI keeps_rollback ok, rule wp_bindM,
      simp only: wp_attempt sum.case wp_SaveState, intro conjI)
    let ?d = "d'\<lparr>hState := Some (current_state d'\<lparr>asPendingUpdate := None, asAbandonedAgentVersion := puTo pu,
             asAbandonedReason := curateAbandonReason reason, asHealth := ''self-update to '' @ puTo pu @ '' abandoned: '' @ reason\<rparr>)\<rparr>"
    have d: "host_ok cr ?d" by (rule host_ok_resave [OF ok]) (simp add: floors_def)
    show "keeps_ok cr (if b then reexec_if True else thenM remove_backup (ret False)) ?d" by (rule final [OF d])
    show "keeps_ok cr (reexec_if b) d'" "keeps_ok cr (reexec_if b) ?d" by (intro keeps_rollback ok d)+
  qed
  have restore: "keeps_ok cr (if c then restore_backup else ret False) d" for c
    using assms keeps_rollback(2) [OF assms] by simp
  show ?thesis
    unfolding rollbackAndAbandon_def
    by (rule wp_bindM, rule wp_mono [OF restore]) (rule tail, assumption+)
qed

lemma keeps_reconcile:
  assumes "host_ok cr d"
  shows "keeps_ok cr (ReconcileSelfUpdateEarly v) d"
proof (cases "asPendingUpdate (current_state d)")
  case (Some pu)
  then show ?thesis
    unfolding ReconcileSelfUpdateEarly_def reconcileSelfUpdateEarlyLocked_def using assms
    by (auto simp: Let_def floors_def intro!: host_ok_resave keeps_rollbackAndAbandon)
qed (simp add: ReconcileSelfUpdateEarly_def reconcileSelfUpdateEarlyLocked_def assms)

lemma keeps_promote:
  assumes "host_ok cr d"
  shows "keeps_ok cr (ReconcileSelfUpdatePromote w v) d" "keeps_ok cr (FinalizeSelfUpdate v) d" "keeps_ok cr clearSelfUpdateBlocked d"
  unfolding ReconcileSelfUpdatePromote_def FinalizeSelfUpdate_def clearSelfUpdateBlocked_def
  using assms
  by (auto intro!: keeps_intros simp: floors_def remove_backup_def split: option.split)

lemma keeps_retry:
  assumes ok: "host_ok cr d" and fetch: "\<And>d. host_ok cr d \<Longrightarrow> keeps_ok cr fetch d"
  shows "keeps_ok cr (RetryDeferredSelfUpdate w params nodeID fetch) d"
proof -
  have perform: "keeps_ok cr (bindM (performSelfUpdate w cfg cat running proxy) (\<lambda>out.
      case out of Reexec \<Rightarrow> ret (True, Some out)
      | SuFailed swapped e \<Rightarrow> thenM (if \<not> swapped \<and> classifySelfUpdateBlock e \<noteq> [] then recordSelfUpdateBlocked cfg (classifySelfUpdateBlock e)
          else ret ()) (ret (True, Some out)))) d'" if "host_ok cr d'" for cfg cat running proxy d'
    by (rule wp_bindM, rule wp_mono [OF keeps_performSelfUpdate [OF that]])
      (auto split: su_outcome.split intro!: wp_bindM keeps_recordSelfUpdateBlocked)
  have clear: "keeps_ok cr (thenM clearSelfUpdateBlocked (ret (False, None))) d'" if "host_ok cr d'" for d'
    by (rule wp_bindM, rule wp_mono [OF keeps_promote(3) [OF that]]) auto
  show ?thesis
  proof (cases params)
    case (Some p)
    show ?thesis
      unfolding RetryDeferredSelfUpdate_def Some
      by (simp, rule wp_bindM) (auto simp: ok Let_def intro!: wp_bindM wp_mono [OF fetch [OF ok]] perform clear split: option.split)
  qed (simp add: RetryDeferredSelfUpdate_def ok)
qed

section \<open>Histories\<close>

text \<open>What the agent process does, in any order, each under its own fault script.\<close>

datatype agent_event =
    Run world agent_config "bool option"
  | Cycle world agent_config int controller_view
  | Early string
  | Promote world string
  | Finalize string
  | Retry world "self_update_params option" string "string + files" membership_config

fun event_step :: "agent_event \<Rightarrow> fault list \<Rightarrow> host \<Rightarrow> host" where
  "event_step (Run w cfg held) fs d = fst (snd (run w cfg held (d, fs)))"
| "event_step (Cycle w cfg after cv) fs d = fst (snd (RunControllerCycle w cfg after cv (d, fs)))"
| "event_step (Early v) fs d = fst (snd (ReconcileSelfUpdateEarly v (d, fs)))"
| "event_step (Promote w v) fs d = fst (snd (ReconcileSelfUpdatePromote w v (d, fs)))"
| "event_step (Finalize v) fs d = fst (snd (FinalizeSelfUpdate v (d, fs)))"
| "event_step (Retry w p node fetched mc) fs d =
     fst (snd (RetryDeferredSelfUpdate w p node (WithMembershipGate w fetched mc) (d, fs)))"

fun history :: "(agent_event \<times> fault list) list \<Rightarrow> host \<Rightarrow> host" where
  "history [] d = d"
| "history ((ev, fs) # evs) d = history evs (event_step ev fs d)"

text \<open>The worlds of the events share their cryptographic primitives.\<close>

fun event_crypto :: "crypto \<Rightarrow> agent_event \<Rightarrow> bool" where
  "event_crypto cr (Run w cfg held) \<longleftrightarrow> wCrypto w = cr"
| "event_crypto cr (Cycle w cfg after cv) \<longleftrightarrow> wCrypto w = cr"
| "event_crypto cr _ \<longleftrightarrow> True"

lemma wp_after: "wp m (\<lambda>_. Q) (\<lambda>_. Q) d \<Longrightarrow> Q (fst (snd (m (d, fs))))"
  using wp_outcome [of m Q d fs "fst (m (d, fs))" "fst (snd (m (d, fs)))" "snd (snd (m (d, fs)))"] by simp

lemma keeps_gate: "host_ok cr d \<Longrightarrow> keeps_ok cr (WithMembershipGate w fetched mc) d"
  by (auto simp: WithMembershipGate_def split: sum.split)

lemma event_step_ok:
  assumes "host_ok cr d" "event_crypto cr ev"
  shows "host_ok cr (event_step ev fs d)"
proof (cases ev)
  case (Run w cfg held)
  then show ?thesis using assms keeps_run [of w d cfg held] by (simp add: wp_after [where Q = "host_ok cr"])
next
  case (Cycle w cfg after cv)
  then show ?thesis using assms keeps_RunControllerCycle [of w d cfg after cv] by (simp add: wp_after [where Q = "host_ok cr"])
next
  case (Retry w p node fetched mc)
  then show ?thesis using keeps_retry [OF assms(1) keeps_gate] by (simp add: wp_after [where Q = "host_ok cr"])
qed (simp_all add: wp_after [where Q = "host_ok cr"] keeps_reconcile keeps_promote assms)

lemma history_ok: "host_ok cr d \<Longrightarrow> list_all (\<lambda>(ev, fs). event_crypto cr ev) evs \<Longrightarrow> host_ok cr (history evs d)"
  by (induction evs d rule: history.induct) (auto intro: event_step_ok)

text \<open>
  Claim C35: starting from a host the agent has not touched, run any sequence of
  applies, controller cycles and self-update steps, with any configurations, any bundles offered, any system
  calls failing and any crashes.  Every root action that was started ran a bundle that passed both
  verifications under its configuration.  In the order in which they were started, no root action has an
  older compile time than an earlier one; once one ran under an operator credential every later one does, and
  its membership epoch is not older.
\<close>

theorem root_actions_never_roll_back:
  assumes "hState d = None" "hRoot d = []" and "list_all (\<lambda>(ev, fs). event_crypto cr ev) evs"
  shows "list_all (admitted cr) (hRoot (history evs d)) \<and> sorted_wrt not_behind (hRoot (history evs d))"
proof -
  have "host_ok cr d"
    using assms(1,2) by (simp add: host_ok_def guards_def intent_ahead_def current_state_def zero_state_def)
  from history_ok [OF this assms(3)] show ?thesis by (simp add: host_ok_def)
qed

end
