(* ===== verification/Agent_Retry.thy ===== *)
theory Agent_Retry
  imports Agent_Custody
begin

text \<open>
  Interrupted applies: a bundle that the agent accepts stays acceptable through every interruption of its
  own apply, so a run that is not disturbed completes it; except that a compile time with white space around
  it, which the rollback check tolerates, is stored in an intent that no later run can read.
\<close>

section \<open>Acceptance\<close>

definition accepts :: "world \<Rightarrow> agent_config \<Rightarrow> files \<Rightarrow> manifest_info \<Rightarrow> int \<Rightarrow> agent_state \<Rightarrow> bool" where
  "accepts w cfg fs man epoch st \<longleftrightarrow>
     gated w cfg st fs man epoch \<and> (asNodeID st = [] \<or> asNodeID st = cfgNodeID cfg) \<and>
     PreflightBundleMaterialization (wLower w) fs \<and> (miNodeID man = [] \<or> miNodeID man = cfgNodeID cfg) \<and>
     (\<exists>p. candidateTelemetryPolicy w fs (cfgOperatorCredPEM cfg \<noteq> []) = Inr p) \<and>
     validateCandidateAgainstPending st man fs (action_of cfg) = None \<and>
     fmlookup fs ''install.sh'' \<noteq> None \<and> fingerprint_of w (cfgPinnedPubPEM cfg) \<noteq> None \<and>
     fingerprint_of w (cfgOperatorCredPEM cfg) \<noteq> None"

lemma VerifyMembership_lower:
  "VerifyMembership cr fs mc a = Inr e \<Longrightarrow> mcOperatorCredPEM mc \<noteq> [] \<longrightarrow> b \<le> e \<Longrightarrow> VerifyMembership cr fs mc b = Inr e"
  unfolding VerifyMembership_def
  by (simp split: option.split_asm sum.split_asm if_split_asm split del: if_split)

lemma CheckRollback_intro:
  assumes "ParseLayout (TrimSpace c) = Some x"
    and "\<And>l. ParseLayout (TrimSpace (asLastCompiledAt st)) = Some l \<Longrightarrow> l \<le> x"
    and "\<And>p y. asPendingApply st = Some p \<Longrightarrow> ParseLayout (paCompiledAt p) = Some y \<Longrightarrow> y \<le> x"
  shows "CheckRollback (effectiveRollbackState st) c = None"
proof -
  have "l \<le> x" if "ParseLayout (TrimSpace (asLastCompiledAt (effectiveRollbackState st))) = Some l" for l
    using that assms(2,3) ParseLayout_TrimSpace
    by (auto simp: effectiveRollbackState_def split: option.splits if_splits)
  then show ?thesis using assms(1) by (auto simp: CheckRollback_def split: option.split)
qed

lemma sha256_hex_valid: "validSHA256Hex (sha256_hex s)"
proof -
  have "\<forall>c \<in> set hex_alphabet. hex_value c \<noteq> None" by code_simp
  then show ?thesis using sha256_hex_chars [of s] by (auto simp: validSHA256Hex_def hex_string_def list_all_iff)
qed

text \<open>What an accepted candidate says about the floors.\<close>

lemma accepts_floors:
  assumes "accepts w cfg fs man epoch st" and "intent_ahead st"
  obtains x where "ParseLayout (TrimSpace (miCompiledAt man)) = Some x"
    and "\<And>l. ParseLayout (TrimSpace (asLastCompiledAt st)) = Some l \<Longrightarrow> l \<le> x"
    and "cfgOperatorCredPEM cfg \<noteq> [] \<Longrightarrow> asMembershipEpoch st \<le> epoch"
    and "cfgOperatorCredPEM cfg = [] \<Longrightarrow> epoch = 0 \<and> \<not> asMembershipVerified st \<and> asMembershipEpoch st \<le> 0"
proof -
  have g: "gated w cfg st fs man epoch" using assms(1) by (simp add: accepts_def)
  have "CheckRollback (effectiveRollbackState st) (miCompiledAt man) = None" "validatePendingApply w cfg st = None" "intent_ahead st"
    using g assms(2) by (simp_all add: gated_def)
  then obtain x where x: "ParseLayout (TrimSpace (miCompiledAt man)) = Some x"
    "\<And>l. ParseLayout (TrimSpace (asLastCompiledAt st)) = Some l \<Longrightarrow> l \<le> x"
    by (rule CheckRollback_floor) blast
  have "asMembershipEpoch st \<le> effectiveMembershipFloor st"
    by (simp add: effectiveMembershipFloor_def split: option.split)
  then have "asMembershipEpoch st \<le> epoch" if "cfgOperatorCredPEM cfg \<noteq> []"
    using VerifyMembership_epoch(1) [of "wCrypto w" fs "membership_of cfg" "effectiveMembershipFloor st" epoch] g that
    by (simp add: gated_def membership_of_def)
  moreover have "epoch = 0 \<and> \<not> asMembershipVerified st \<and> asMembershipEpoch st \<le> 0" if "cfgOperatorCredPEM cfg = []"
    using g that by (auto simp: gated_def VerifyMembership_def membership_of_def)
  ultimately show ?thesis using that x by blast
qed

section \<open>Acceptance survives every state the apply saves\<close>

lemma failure_state_sel [simp]:
  "asNodeID (failure_state w cfg st e) = (if asNodeID st = [] then cfgNodeID cfg else asNodeID st)"
  "asPendingApply (failure_state w cfg st e) = asPendingApply st" "asLastCompiledAt (failure_state w cfg st e) = asLastCompiledAt st"
  "asMembershipEpoch (failure_state w cfg st e) = asMembershipEpoch st"
  "asMembershipVerified (failure_state w cfg st e) \<longleftrightarrow> asMembershipVerified st \<or> asMembershipEpoch st > 0"
  by (simp_all add: failure_state_def)

lemma success_state_sel [simp]:
  "asNodeID (success_state w cfg st man vr epoch pol) = cfgNodeID cfg" "asPendingApply (success_state w cfg st man vr epoch pol) = None"
  "asLastCompiledAt (success_state w cfg st man vr epoch pol) = miCompiledAt man"
  "asLastResult (success_state w cfg st man vr epoch pol) = LastResultOK"
  "asMembershipEpoch (success_state w cfg st man vr epoch pol) = max (asMembershipEpoch st) epoch"
  "asMembershipVerified (success_state w cfg st man vr epoch pol) \<longleftrightarrow>
     cfgOperatorCredPEM cfg \<noteq> [] \<or> asMembershipVerified st \<or> asMembershipEpoch st > 0"
  by (simp_all add: success_state_def zero_state_def Let_def)

text \<open>The gates read only the floors and the node.\<close>

lemma gates_cong:
  "asPendingApply s = asPendingApply st \<Longrightarrow> validatePendingApply w cfg s = validatePendingApply w cfg st"
  "asPendingApply s = asPendingApply st \<Longrightarrow> validateCandidateAgainstPending s man fs a = validateCandidateAgainstPending st man fs a"
  "asPendingApply s = asPendingApply st \<Longrightarrow> asMembershipEpoch s = asMembershipEpoch st \<Longrightarrow>
     effectiveMembershipFloor s = effectiveMembershipFloor st"
  "asPendingApply s = asPendingApply st \<Longrightarrow> asLastCompiledAt s = asLastCompiledAt st \<Longrightarrow>
     CheckRollback (effectiveRollbackState s) c = CheckRollback (effectiveRollbackState st) c"
  by (simp_all add: validatePendingApply_def validateCandidateAgainstPending_def effectiveMembershipFloor_def effectiveRollbackState_def
      CheckRollback_def split: option.split)

lemma accepts_cong:
  assumes "accepts w cfg fs man epoch st" and "asPendingApply s = asPendingApply st" "asLastCompiledAt s = asLastCompiledAt st"
    "asMembershipEpoch s = asMembershipEpoch st" "asNodeID s = [] \<or> asNodeID s = cfgNodeID cfg"
    "asMembershipVerified s \<longrightarrow> asMembershipVerified st \<or> asMembershipEpoch st > 0"
  shows "accepts w cfg fs man epoch s"
  using assms gates_cong [of s st] by (auto simp: accepts_def gated_def)

lemma intent_ahead_failure: "intent_ahead st \<Longrightarrow> intent_ahead (failure_state w cfg st e)"
  by (simp add: intent_ahead_def)

lemma accepts_failure:
  assumes "accepts w cfg fs man epoch st"
  shows "accepts w cfg fs man epoch (failure_state w' cfg st e)"
  by (rule accepts_cong [OF assms]) (use assms in \<open>auto simp: accepts_def\<close>)

lemma accepts_success:
  assumes a: "accepts w cfg fs man epoch st" and i: "intent_ahead st"
    and st': "asMembershipEpoch st' = asMembershipEpoch st" "asMembershipVerified st' = asMembershipVerified st"
  shows "accepts w cfg fs man epoch (success_state w' cfg st' man vr epoch policy)"
proof -
  obtain x where x: "ParseLayout (TrimSpace (miCompiledAt man)) = Some x"
    and e: "cfgOperatorCredPEM cfg \<noteq> [] \<Longrightarrow> asMembershipEpoch st \<le> epoch"
    "cfgOperatorCredPEM cfg = [] \<Longrightarrow> epoch = 0 \<and> \<not> asMembershipVerified st \<and> asMembershipEpoch st \<le> 0"
    by (rule accepts_floors [OF a i]) blast
  let ?s = "success_state w' cfg st' man vr epoch policy"
  have "VerifyMembership (wCrypto w) fs (membership_of cfg) (effectiveMembershipFloor ?s) = Inr epoch"
    by (rule VerifyMembership_lower [of _ _ _ "effectiveMembershipFloor st"])
      (use a e st' in \<open>auto simp: accepts_def gated_def membership_of_def effectiveMembershipFloor_def\<close>)
  moreover have "CheckRollback (effectiveRollbackState ?s) (miCompiledAt man) = None"
    by (rule CheckRollback_intro [OF x]) (use x in auto)
  ultimately show ?thesis using a e st'
    by (auto simp: accepts_def gated_def validatePendingApply_def validateCandidateAgainstPending_def)
qed

lemma accepts_intent:
  assumes a: "accepts w cfg fs man epoch st" and i: "intent_ahead st"
    and p: "asPendingApply s = Some p" "paCompiledAt p = miCompiledAt man" "paManifestChecksum p = miChecksum man"
      "paAction p = action_of cfg" "paMembershipEpoch p = epoch" "0 \<le> epoch"
    and s: "asNodeID s = cfgNodeID cfg \<or> asNodeID s = []" "asLastCompiledAt s = asLastCompiledAt st"
      "asMembershipEpoch s = asMembershipEpoch st" "asMembershipVerified s = asMembershipVerified st"
    and v: "validatePendingApply w cfg s = None" "verifiedBundleDigest fs = Some digest" "EqualFold digest (paBundleSHA256 p)"
  shows "accepts w cfg fs man epoch s" "intent_ahead s"
proof -
  obtain x where x: "ParseLayout (TrimSpace (miCompiledAt man)) = Some x"
    and l: "\<And>l. ParseLayout (TrimSpace (asLastCompiledAt st)) = Some l \<Longrightarrow> l \<le> x"
    and e: "cfgOperatorCredPEM cfg \<noteq> [] \<Longrightarrow> asMembershipEpoch st \<le> epoch"
    by (rule accepts_floors [OF a i]) blast
  obtain y where y: "ParseLayout (miCompiledAt man) = Some y" using v(1) p(1,2) by (auto simp: validatePendingApply_def split: if_splits)
  then have "y = x" using x by (simp add: ParseLayout_TrimSpace [OF y])
  have "VerifyMembership (wCrypto w) fs (membership_of cfg) (effectiveMembershipFloor s) = Inr epoch"
    by (rule VerifyMembership_lower [of _ _ _ "effectiveMembershipFloor st"])
      (use a e s p in \<open>auto simp: accepts_def gated_def membership_of_def effectiveMembershipFloor_def\<close>)
  moreover have "CheckRollback (effectiveRollbackState s) (miCompiledAt man) = None"
    by (rule CheckRollback_intro [OF x]) (use l s p y \<open>y = x\<close> in auto)
  moreover have "validateCandidateAgainstPending s man fs (action_of cfg) = None"
    using p y v by (simp add: validateCandidateAgainstPending_def)
  ultimately show "accepts w cfg fs man epoch s" using a s v by (auto simp: accepts_def gated_def)
  show "intent_ahead s" using l s p x by (auto simp: intent_ahead_def)
qed

section \<open>Interrupted runs\<close>

text \<open>The times the agent stores can be read back.\<close>

definition readable_times :: "world \<Rightarrow> manifest_info \<Rightarrow> bool" where
  "readable_times w man \<longleftrightarrow> ParseLayout (miCompiledAt man) \<noteq> None \<and> ParseLayout (FormatLayout (wClock w 0)) \<noteq> None"

lemma intent_valid:
  assumes a: "accepts w cfg fs man epoch st" and "readable_times w man" "0 \<le> epoch"
    and fp: "fingerprint_of w (cfgPinnedPubPEM cfg) = Some sfp" "fingerprint_of w (cfgOperatorCredPEM cfg) = Some ofp"
    and s: "asPendingApply s = Some (pending_of w cfg man epoch (action_of cfg) (sha256_hex c) sfp ofp)"
  shows "validatePendingApply w cfg s = None"
proof -
  have "check_signing_anchor w cfg (pending_of w cfg man epoch (action_of cfg) (sha256_hex c) sfp ofp) = None"
    using fp(1) sha256_hex_valid
    by (auto simp: check_signing_anchor_def fingerprint_of_def credFingerprint_def pending_of_def EqualFold_def split: if_splits option.splits)
  moreover have "check_operator_anchor w cfg (pending_of w cfg man epoch (action_of cfg) (sha256_hex c) sfp ofp) = None"
    using fp(2) sha256_hex_valid
    by (auto simp: check_operator_anchor_def fingerprint_of_def credFingerprint_def pending_of_def EqualFold_def split: if_splits option.splits)
  ultimately show ?thesis
    using assms(2,3) s sha256_hex_valid
    by (simp add: validatePendingApply_def readable_times_def pending_of_def action_of_def)
qed

abbreviation ready :: "world \<Rightarrow> agent_config \<Rightarrow> files \<Rightarrow> manifest_info \<Rightarrow> int \<Rightarrow> agent_state \<Rightarrow> bool" where
  "ready w cfg fs man epoch st \<equiv> accepts w cfg fs man epoch st \<and> intent_ahead st"

lemma persist_ready:
  assumes r: "ready w cfg fs man epoch st" and t: "readable_times w man" "0 \<le> epoch"
  shows "wp (persistPendingApply w cfg st man fs epoch (action_of cfg))
    (\<lambda>s d'. d' = d\<lparr>hState := Some s\<rparr> \<and> ready w cfg fs man epoch s \<and> asMembershipEpoch s = asMembershipEpoch st \<and>
       asMembershipVerified s = asMembershipVerified st)
    (\<lambda>_ d'. d' = d \<or> (\<exists>s. d' = d\<lparr>hState := Some s\<rparr> \<and> ready w cfg fs man epoch s)) d"
proof -
  obtain sfp ofp where fp: "fingerprint_of w (cfgPinnedPubPEM cfg) = Some sfp" "fingerprint_of w (cfgOperatorCredPEM cfg) = Some ofp"
    using r by (auto simp: accepts_def)
  obtain c where c: "fmlookup fs ''checksums.sha256'' = Some c"
    using r by (auto simp: accepts_def gated_def VerifyBundle_def split: option.splits)
  let ?p = "pending_of w cfg man epoch (action_of cfg) (sha256_hex c) sfp ofp"
  let ?s = "intent_state w cfg st ?p (action_of cfg)"
  have v: "validatePendingApply w cfg ?s = None"
    by (rule intent_valid [OF conjunct1 [OF r] t fp]) (simp add: intent_state_def)
  have "ready w cfg fs man epoch ?s"
    using accepts_intent [OF conjunct1 [OF r] conjunct2 [OF r] _ _ _ _ _ t(2) _ _ _ _ v, of ?p "sha256_hex c"] c
    by (simp add: intent_state_def pending_of_def verifiedBundleDigest_def EqualFold_def)
  moreover have "asMembershipEpoch ?s = asMembershipEpoch st" "asMembershipVerified ?s = asMembershipVerified st"
    by (simp_all add: intent_state_def)
  ultimately show ?thesis
    using r c fp by (simp add: persistPendingApply_def verifiedBundleDigest_def Let_def) blast
qed

lemma ready_failWith:
  assumes "ready w cfg fs man epoch (current_state d)" "ready w cfg fs man epoch st"
  shows "wp (failWith w' cfg st e) Q (\<lambda>_ d'. ready w cfg fs man epoch (current_state d')) d"
  unfolding failWith_def
  by (rule wp_bindM, rule wp_recordFailure) (use assms in \<open>auto intro: accepts_failure intent_ahead_failure\<close>)

lemma ready_run_apply:
  assumes r: "ready w cfg fs man epoch (current_state d)" and t: "readable_times w man" "0 \<le> epoch"
    and res: "rrMembershipEpoch res = epoch" "rrAction res = action_of cfg"
  shows "wp (run_apply w cfg (current_state d) man fs res policy None)
    (\<lambda>_ d'. ready w cfg fs man epoch (current_state d')) (\<lambda>_ d'. ready w cfg fs man epoch (current_state d')) d"
proof -
  let ?K = "\<lambda>d'. ready w cfg fs man epoch (current_state d')"
  let ?st = "current_state d"
  have early: "wp (failWith w cfg ?st e) (\<lambda>_. ?K) (\<lambda>_. ?K) d'"
    if "d' = d \<or> (\<exists>s. d' = d\<lparr>hState := Some s\<rparr> \<and> ready w cfg fs man epoch s)" for e and d' :: host
    using that r by (intro ready_failWith) auto
  have applied: "wp (bindM (attempt (apply_staged cfg fs)) (\<lambda>r. case r of Inl e \<Rightarrow> failWith w cfg s e
      | Inr _ \<Rightarrow> thenM (recordSuccess w cfg s man (rrVerify res) epoch pol) (run_deferred w cfg None res)))
      (\<lambda>_. ?K) (\<lambda>_. ?K) (d\<lparr>hState := Some s\<rparr>)"
    if s: "ready w cfg fs man epoch s" "asMembershipEpoch s = asMembershipEpoch ?st" "asMembershipVerified s = asMembershipVerified ?st" for s pol
  proof (rule wp_bindM, simp only: wp_attempt sum.case, rule wp_mono [OF apply_staged_outcome])
    fix d'
    assume d': "d' = (d\<lparr>hState := Some s\<rparr>)\<lparr>hRoot := new_action cfg fs # hRoot (d\<lparr>hState := Some s\<rparr>)\<rparr>"
    have "ready w cfg fs man epoch (success_state w cfg s man (rrVerify res) epoch pol)"
      using accepts_success [of w cfg fs man epoch ?st s] r s by (auto simp: intent_ahead_def)
    then show "wp (thenM (recordSuccess w cfg s man (rrVerify res) epoch pol) (run_deferred w cfg None res)) (\<lambda>_. ?K) (\<lambda>_. ?K) d'"
      using s d' by (auto simp: recordSuccess_def run_deferred_def intro!: wp_bindM wp_persistAndReport)
  next
    fix e d'
    assume "d' = d\<lparr>hState := Some s\<rparr> \<or> d' = (d\<lparr>hState := Some s\<rparr>)\<lparr>hRoot := new_action cfg fs # hRoot (d\<lparr>hState := Some s\<rparr>)\<rparr>"
    then show "wp (failWith w cfg s e) (\<lambda>_. ?K) (\<lambda>_. ?K) d'" using s by (intro ready_failWith) auto
  qed
  show ?thesis
    unfolding run_apply_def res
  proof (rule wp_bindM, simp only: wp_attempt sum.case, rule wp_mono [OF stage_tree])
    fix tree d'
    assume t': "tree = fs \<and> d' = d"
    show "wp (bindM (attempt (persistPendingApply w cfg ?st man fs epoch (action_of cfg))) (\<lambda>r.
        case r of Inl e \<Rightarrow> failWith w cfg ?st e | Inr st \<Rightarrow> bindM (attempt (apply_staged cfg tree)) (\<lambda>r. case r of Inl e \<Rightarrow> failWith w cfg st e
        | Inr _ \<Rightarrow> thenM (recordSuccess w cfg st man (rrVerify res) epoch
            (if action_of cfg = LastActionUninstall then [] else policy)) (run_deferred w cfg None res)))) (\<lambda>_. ?K) (\<lambda>_. ?K) d'"
      by (rule wp_bindM, simp only: wp_attempt sum.case t', rule wp_mono [OF persist_ready [OF r t]])
        (auto intro: applied early)
  qed (use early in blast)
qed

text \<open>An accepted bundle leads straight to the apply.\<close>

definition result_of :: "agent_config \<Rightarrow> manifest_info \<Rightarrow> verify_result \<Rightarrow> int \<Rightarrow> run_result" where
  "result_of cfg man vr epoch = \<lparr>rrAction = action_of cfg, rrCompiledAt = miCompiledAt man, rrChecksum = miChecksum man, rrVerify = vr,
     rrMembershipEpoch = epoch\<rparr>"

lemma accepted_run:
  assumes "accepts w cfg fs man epoch st" "wFetch w = Inr fs" "cfgSelfUpdate cfg = None"
  obtains vr policy where "run_loaded w cfg st = run_apply w cfg st man fs (result_of cfg man vr epoch) policy None"
proof -
  obtain raw vr policy where g: "fmlookup fs ''manifest.json'' = Some raw" "parseManifest raw = Some man"
    "VerifyBundle (wCrypto w) fs (cfgPinnedPubPEM cfg) = Inr vr" "candidateTelemetryPolicy w fs (cfgOperatorCredPEM cfg \<noteq> []) = Inr policy"
    using assms(1) by (auto simp: accepts_def gated_def)
  have "run_bundle w cfg st fs = run_apply w cfg st man fs (result_of cfg man vr epoch) policy None"
    using assms g by (auto simp: accepts_def gated_def run_bundle_def run_update_def orRecord_def result_of_def)
  moreover have "run_loaded w cfg st = run_bundle w cfg st fs"
    using assms by (auto simp: accepts_def gated_def run_loaded_def)
  ultimately show ?thesis using that by metis
qed

text \<open>The same apply with nothing failing.\<close>

lemma run_stage: "PreflightBundleMaterialization (wLower w) fs \<Longrightarrow> stage w cfg fs (d, []) = (Inr fs, (d, []))"
proof -
  assume p: "PreflightBundleMaterialization (wLower w) fs"
  have fold: "\<exists>tree. foldMM rels acc (\<lambda>tree rel. thenM (syscall ''mkdir'') (thenM (syscall ''write'')
        (ret (case fmlookup fs rel of None \<Rightarrow> tree | Some c \<Rightarrow> fmupd rel c tree)))) (d, []) = (Inr tree, (d, []))" for rels acc
    by (induction rels arbitrary: acc) (auto simp: syscall_def bindM_def)
  obtain paths where "validateBundlePaths (wLower w) fs = Some paths" using p by (auto simp: PreflightBundleMaterialization_def)
  then have "\<exists>tree. stage w cfg fs (d, []) = (Inr tree, (d, []))"
    using fold [of paths fmempty] by (auto simp: stage_def syscall_def)
  then obtain tree where "stage w cfg fs (d, []) = (Inr tree, (d, []))" by blast
  with wp_value [OF stage_tree this] show ?thesis by simp
qed

lemma run_persist:
  assumes "ready w cfg fs man epoch st"
  shows "\<exists>s. persistPendingApply w cfg st man fs epoch (action_of cfg) (d, []) = (Inr s, (d\<lparr>hState := Some s\<rparr>, []))"
proof -
  obtain sfp ofp c where "fingerprint_of w (cfgPinnedPubPEM cfg) = Some sfp" "fingerprint_of w (cfgOperatorCredPEM cfg) = Some ofp"
    "fmlookup fs ''checksums.sha256'' = Some c"
    using assms by (auto simp: accepts_def gated_def VerifyBundle_def split: option.splits)
  then show ?thesis by (auto simp: persistPendingApply_def verifiedBundleDigest_def Let_def)
qed

lemma run_apply_clean:
  assumes r: "ready w cfg fs man epoch (current_state d)" and res: "rrMembershipEpoch res = epoch" "rrAction res = action_of cfg"
  shows "\<exists>s pol. run_apply w cfg (current_state d) man fs res policy None (d, []) =
    (Inr (Completed res), (d\<lparr>hRoot := new_action cfg fs # hRoot d,
       hState := Some (success_state w cfg s man (rrVerify res) epoch pol)\<rparr>, []))"
proof -
  obtain s where s: "persistPendingApply w cfg (current_state d) man fs epoch (action_of cfg) (d, []) = (Inr s, (d\<lparr>hState := Some s\<rparr>, []))"
    using run_persist [OF r] by blast
  have g: "PreflightBundleMaterialization (wLower w) fs" "\<exists>i. fmlookup fs ''install.sh'' = Some i" "validateInstallArgs (cfgInstallArgs cfg)"
    using r by (auto simp: accepts_def gated_def)
  have a: "apply_staged cfg fs (d\<lparr>hState := Some s\<rparr>, []) = (Inr (), (d\<lparr>hState := Some s, hRoot := new_action cfg fs # hRoot d\<rparr>, []))"
    using g by (auto simp: apply_staged_def run_installer_def syscall_def Let_def)
  show ?thesis
    unfolding run_apply_def res
    by (simp add: run_bindM_attempt run_stage [OF g(1)] s a recordSuccess_def persistAndReport_def ignoring_def syscall_def run_deferred_def)
      blast
qed

lemma run_clean:
  assumes r: "ready w cfg fs man epoch (current_state d)" and "wFetch w = Inr fs" "cfgSelfUpdate cfg = None"
    and "TrimSpace (cfgNodeID cfg) \<noteq> []" "held \<noteq> Some False"
  shows "\<exists>res s vr pol. run w cfg held (d, []) = (Inr (Completed res), (d\<lparr>hRoot := new_action cfg fs # hRoot d,
       hState := Some (success_state w cfg s man vr epoch pol)\<rparr>, []))"
proof -
  obtain vr policy where l: "run_loaded w cfg (current_state d) = run_apply w cfg (current_state d) man fs (result_of cfg man vr epoch) policy None"
    using accepted_run [OF conjunct1 [OF r] assms(2,3)] by blast
  have "validateInstallArgs (cfgInstallArgs cfg)" using r by (simp add: accepts_def gated_def)
  then have "run w cfg held (d, []) = run_loaded w cfg (current_state d) (d, [])"
    using assms(4,5) by (auto simp: run_def syscall_def split: option.split)
  then show ?thesis
    using run_apply_clean [OF r, of "result_of cfg man vr epoch" policy] l by (auto simp: result_of_def)
qed

text \<open>Attempts under the same configuration, each in its own surroundings and under its own script.\<close>

definition same_source :: "world \<Rightarrow> world \<Rightarrow> bool" where
  "same_source w w' \<longleftrightarrow> wCrypto w' = wCrypto w \<and> wMarshalPKIX w' = wMarshalPKIX w \<and> wPolicy w' = wPolicy w \<and> wLower w' = wLower w \<and>
     wFetch w' = wFetch w"


lemma accepts_world:
  assumes "same_source w w'"
  shows "accepts w' cfg fs man epoch st = accepts w cfg fs man epoch st"
proof -
  have "credFingerprint w' = credFingerprint w" using assms by (intro ext) (simp add: same_source_def credFingerprint_def split: option.split)
  then have "validatePendingApply w' cfg st = validatePendingApply w cfg st" "fingerprint_of w' p = fingerprint_of w p"
    "candidateTelemetryPolicy w' fs b = candidateTelemetryPolicy w fs b" for p b
    using assms by (simp_all add: same_source_def validatePendingApply_def check_signing_anchor_def check_operator_anchor_def fingerprint_of_def
        candidateTelemetryPolicy_def Let_def split: option.split)
  then show ?thesis using assms by (simp add: accepts_def gated_def same_source_def)
qed

lemma ready_run:
  assumes "ready w cfg fs man epoch (current_state d)" "readable_times w' man" "0 \<le> epoch"
    and "same_source w w'" "wFetch w = Inr fs" "cfgSelfUpdate cfg = None"
  shows "ready w cfg fs man epoch (current_state (fst (snd (run w' cfg held (d, script)))))"
proof -
  have r: "ready w' cfg fs man epoch (current_state d)" using assms(1) accepts_world [OF assms(4)] by simp
  have "wFetch w' = Inr fs" using assms(4,5) by (simp add: same_source_def)
  then obtain vr policy where run: "run_loaded w' cfg (current_state d) = run_apply w' cfg (current_state d) man fs (result_of cfg man vr epoch) policy None"
    using accepted_run [OF conjunct1 [OF r] _ assms(6)] by blast
  have loaded: "wp (run_loaded w' cfg (current_state d)) (\<lambda>_ d'. ready w' cfg fs man epoch (current_state d'))
      (\<lambda>_ d'. ready w' cfg fs man epoch (current_state d')) d"
    unfolding run by (rule ready_run_apply [OF r assms(2,3)]) (simp_all add: result_of_def)
  have "wp (run w' cfg held) (\<lambda>_ d'. ready w' cfg fs man epoch (current_state d')) (\<lambda>_ d'. ready w' cfg fs man epoch (current_state d')) d"
    using loaded r unfolding run_def by (auto split: option.split)
  from wp_after [OF this, of script] show ?thesis using accepts_world [OF assms(4)] by simp
qed

text \<open>Conversely, a run that completes was accepted.\<close>

lemma failWith_never: "failWith w cfg st e (d, []) \<noteq> (Inr a, s)"
  by (simp add: failWith_def recordFailure_def persistAndReport_def ignoring_def syscall_def bindM_def attempt_def ret_def)

lemma run_apply_completed:
  assumes "run_apply w cfg st man fs res policy None (d, []) = (Inr (Completed res'), s')"
    and p: "PreflightBundleMaterialization (wLower w) fs"
  shows "fingerprint_of w (cfgPinnedPubPEM cfg) \<noteq> None" "fingerprint_of w (cfgOperatorCredPEM cfg) \<noteq> None" "fmlookup fs ''install.sh'' \<noteq> None"
proof -
  let ?persist = "persistPendingApply w cfg st man fs (rrMembershipEpoch res) (rrAction res)"
  have nofail: "\<not> (\<exists>e d'. ?persist (d, []) = (Inl e, (d', [])))"
    using assms(1) by (auto simp: run_apply_def run_bindM_attempt run_stage [OF p] failWith_never)
  show "fingerprint_of w (cfgPinnedPubPEM cfg) \<noteq> None" "fingerprint_of w (cfgOperatorCredPEM cfg) \<noteq> None"
    using nofail by (auto simp: persistPendingApply_def split: option.splits)
  have "\<exists>s. ?persist (d, []) = (Inr s, (d\<lparr>hState := Some s\<rparr>, []))"
    using nofail by (auto simp: persistPendingApply_def Let_def split: option.splits)
  then obtain s where s: "?persist (d, []) = (Inr s, (d\<lparr>hState := Some s\<rparr>, []))" by blast
  show "fmlookup fs ''install.sh'' \<noteq> None"
  proof
    assume "fmlookup fs ''install.sh'' = None"
    then have "apply_staged cfg fs (d\<lparr>hState := Some s\<rparr>, []) = (Inl ''staged install.sh missing'', (d\<lparr>hState := Some s\<rparr>, []))"
      by (simp add: apply_staged_def)
    then show False using assms(1) by (simp add: run_apply_def run_bindM_attempt run_stage [OF p] s failWith_never)
  qed
qed

lemma run_completed_accepts:
  assumes c: "run w cfg held (d, []) = (Inr (Completed res), s')" and "wFetch w = Inr fs" "cfgSelfUpdate cfg = None"
    and "fmlookup fs ''manifest.json'' = Some raw" "parseManifest raw = Some man"
  shows "\<exists>epoch. accepts w cfg fs man epoch (current_state d)"
proof -
  let ?st = "current_state d"
  have l: "run_loaded w cfg ?st (d, []) = (Inr (Completed res), s')" and args: "validateInstallArgs (cfgInstallArgs cfg)"
    using c by (auto simp: run_def syscall_def split: if_splits option.splits)
  have b: "run_bundle w cfg ?st fs (d, []) = (Inr (Completed res), s')"
    and st: "asNodeID ?st = [] \<or> asNodeID ?st = cfgNodeID cfg" "validatePendingApply w cfg ?st = None"
      "\<not> ((asMembershipVerified ?st \<or> asMembershipEpoch ?st > 0) \<and> cfgOperatorCredPEM cfg = [])"
    using l assms(2) by (auto simp: run_loaded_def split: if_splits option.splits)
  have p: "PreflightBundleMaterialization (wLower w) fs" "miNodeID man = [] \<or> miNodeID man = cfgNodeID cfg"
    using b assms(4,5) by (auto simp: run_bundle_def failWith_never split: if_splits)
  obtain vr where vr: "VerifyBundle (wCrypto w) fs (cfgPinnedPubPEM cfg) = Inr vr"
    using b assms(4,5) p by (cases "VerifyBundle (wCrypto w) fs (cfgPinnedPubPEM cfg)") (auto simp: run_bundle_def failWith_never)
  obtain pol where pol: "candidateTelemetryPolicy w fs (cfgOperatorCredPEM cfg \<noteq> []) = Inr pol"
    using b assms(4,5) p vr
    by (cases "candidateTelemetryPolicy w fs (cfgOperatorCredPEM cfg \<noteq> [])") (auto simp: run_bundle_def failWith_never)
  obtain epoch where e: "VerifyMembership (wCrypto w) fs (membership_of cfg) (effectiveMembershipFloor ?st) = Inr epoch"
    using b assms(4,5) p vr pol
    by (cases "VerifyMembership (wCrypto w) fs (membership_of cfg) (effectiveMembershipFloor ?st)") (auto simp: run_bundle_def failWith_never)
  have g: "CheckRollback (effectiveRollbackState ?st) (miCompiledAt man) = None"
      "validateCandidateAgainstPending ?st man fs (action_of cfg) = None"
    and a: "run_apply w cfg ?st man fs (result_of cfg man vr epoch) pol None (d, []) = (Inr (Completed res), s')"
    using b assms(3-5) p vr pol e
    by (auto simp: run_bundle_def run_update_def orRecord_def result_of_def failWith_never split: option.splits)
  show ?thesis
    using run_apply_completed [OF a p(1)] st p vr pol e g args assms(4,5)
    by (auto simp: accepts_def gated_def intro!: exI [of _ epoch])
qed


section \<open>The unreadable intent\<close>

text \<open>A computation that consumes only passing decisions.\<close>

definition passes :: "(host, string, 'a) io \<Rightarrow> host \<Rightarrow> 'a \<Rightarrow> host \<Rightarrow> bool" where
  "passes m d a d' \<longleftrightarrow> (\<exists>n. \<forall>fs. m (d, replicate n Pass @ fs) = (Inr a, (d', fs)))"

lemma passes_ret: "passes (ret a) d a d"
  unfolding passes_def by (intro exI [of _ 0]) simp

lemma passes_bindM:
  assumes "passes m d a d1" "passes (k a) d1 b d2"
  shows "passes (bindM m k) d b d2"
proof -
  obtain n1 n2 where "\<And>fs. m (d, replicate n1 Pass @ fs) = (Inr a, (d1, fs))" "\<And>fs. k a (d1, replicate n2 Pass @ fs) = (Inr b, (d2, fs))"
    using assms unfolding passes_def by blast
  then have "bindM m k (d, replicate (n1 + n2) Pass @ fs) = (Inr b, (d2, fs))" for fs
    by (simp add: replicate_add bindM_def)
  then show ?thesis unfolding passes_def by blast
qed

lemma passes_syscall: "passes (syscall n) d () d"
  unfolding passes_def by (intro exI [of _ 1]) (simp add: syscall_def scripted)

lemma passes_stage:
  assumes "PreflightBundleMaterialization (wLower w) fs"
  shows "passes (stage w cfg fs) d fs d"
proof -
  obtain paths where p: "validateBundlePaths (wLower w) fs = Some paths" using assms by (auto simp: PreflightBundleMaterialization_def)
  have step: "passes (thenM (syscall a) (thenM (syscall b) (ret x))) d x d" for a b and x :: files
    by (rule passes_bindM [OF passes_syscall], rule passes_bindM [OF passes_syscall passes_ret])
  have fold: "\<exists>tree. passes (foldMM rels acc (\<lambda>tree rel. thenM (syscall ''mkdir'') (thenM (syscall ''write'')
        (ret (case fmlookup fs rel of None \<Rightarrow> tree | Some c \<Rightarrow> fmupd rel c tree))))) d tree d" for rels acc
  proof (induction rels arbitrary: acc)
    case Nil
    show ?case unfolding foldMM.simps by (rule exI, rule passes_ret)
  next
    case (Cons r rs)
    let ?acc = "case fmlookup fs r of None \<Rightarrow> acc | Some c \<Rightarrow> fmupd r c acc"
    obtain tree where t: "passes (foldMM rs ?acc (\<lambda>tree rel. thenM (syscall ''mkdir'') (thenM (syscall ''write'')
        (ret (case fmlookup fs rel of None \<Rightarrow> tree | Some c \<Rightarrow> fmupd rel c tree))))) d tree d" using Cons by blast
    show ?case unfolding foldMM.simps
      by (rule exI [of _ tree], rule passes_bindM [OF step], rule t)
  qed
  have parent: "passes (if c then syscall a else ret ()) d () d" for c a using passes_syscall passes_ret [of "()"] by simp
  obtain tree where t: "passes (foldMM paths fmempty (\<lambda>tree rel. thenM (syscall ''mkdir'') (thenM (syscall ''write'')
        (ret (case fmlookup fs rel of None \<Rightarrow> tree | Some c \<Rightarrow> fmupd rel c tree))))) d tree d" using fold by blast
  have s: "passes (stage w cfg fs) d tree d"
    unfolding stage_def p option.case
    by (rule passes_bindM [OF parent], rule passes_bindM [OF passes_syscall], rule t)
  then have "tree = fs" unfolding passes_def using wp_value [OF stage_tree] by blast
  with s show ?thesis by simp
qed

lemma wp_refused:
  assumes "wp m (\<lambda>_ _. False) (\<lambda>_ d'. d' = d) d"
  shows "(\<exists>e. fst (m (d, fs)) = Inl e) \<and> fst (snd (m (d, fs))) = d"
  using spec [OF assms [unfolded wp_def], of fs] by (auto split: prod.splits sum.splits)

lemma unreadable_intent_blocks:
  assumes "asPendingApply (current_state d) = Some p" "ParseLayout (paCompiledAt p) = None"
  shows "(\<exists>e. fst (run w cfg held (d, script)) = Inl e) \<and> fst (snd (run w cfg held (d, script))) = d"
proof (rule wp_refused)
  have "validatePendingApply w cfg (current_state d) = Some ''pending apply has invalid compiled_at''"
    using assms by (simp add: validatePendingApply_def)
  then show "wp (run w cfg held) (\<lambda>_ _. False) (\<lambda>_ d'. d' = d) d"
    by (simp add: run_def run_loaded_def split: option.split)
qed

text \<open>
  Claim C37: the exception is real.  If the compile time of such a bundle
  has white space around it, it passes the manifest check and the rollback check, which trim it; but when the
  installer fails once, the intent that was stored with the untrimmed text makes every later run fail before
  it does anything, whatever bundle or configuration it is given, and nothing in the state file changes again.
\<close>

theorem spaced_compile_time_wedges_the_agent:
  assumes "fst (run w cfg held (d, [])) = Inr (Completed res)" and "wFetch w = Inr fs" "cfgSelfUpdate cfg = None"
    and "fmlookup fs ''manifest.json'' = Some raw" "parseManifest raw = Some man" "ParseLayout (miCompiledAt man) = None"
    and "asPendingApply (current_state d) = None"
  shows "\<exists>script. let d1 = fst (snd (run w cfg held (d, script)))
    in hRoot d1 = new_action cfg fs # hRoot d \<and>
       (\<forall>w' cfg' held' script'. (\<exists>e. fst (run w' cfg' held' (d1, script')) = Inl e) \<and> fst (snd (run w' cfg' held' (d1, script'))) = d1)"
proof -
  obtain s' where run0: "run w cfg held (d, []) = (Inr (Completed res), s')" using assms(1) by (metis prod.collapse)
  from run_completed_accepts [OF this assms(2-5)] obtain epoch where a: "accepts w cfg fs man epoch (current_state d)" by blast
  obtain vr policy where l: "run_loaded w cfg (current_state d) = run_apply w cfg (current_state d) man fs (result_of cfg man vr epoch) policy None"
    using accepted_run [OF a assms(2,3)] by blast
  obtain sfp ofp c where fp: "fingerprint_of w (cfgPinnedPubPEM cfg) = Some sfp" "fingerprint_of w (cfgOperatorCredPEM cfg) = Some ofp"
    "fmlookup fs ''checksums.sha256'' = Some c"
    using a by (auto simp: accepts_def gated_def VerifyBundle_def split: option.splits)
  define s where "s = intent_state w cfg (current_state d) (pending_of w cfg man epoch (action_of cfg) (sha256_hex c) sfp ofp) (action_of cfg)"
  have persist: "passes (persistPendingApply w cfg (current_state d) man fs epoch (action_of cfg)) d s (d\<lparr>hState := Some s\<rparr>)"
  proof -
    have "persistPendingApply w cfg (current_state d) man fs epoch (action_of cfg) = thenM (SaveState s) (ret s)"
      using fp assms(7) by (simp add: persistPendingApply_def verifiedBundleDigest_def Let_def samePendingApply_def s_def)
    then show ?thesis unfolding passes_def by (intro exI [of _ 1]) (simp add: SaveState_def scripted)
  qed
  have ok: "PreflightBundleMaterialization (wLower w) fs" "\<exists>i. fmlookup fs ''install.sh'' = Some i" "validateInstallArgs (cfgInstallArgs cfg)"
    using a by (auto simp: accepts_def gated_def)
  obtain n1 n2 where n: "\<And>xs. stage w cfg fs (d, replicate n1 Pass @ xs) = (Inr fs, (d, xs))"
    "\<And>xs. persistPendingApply w cfg (current_state d) man fs epoch (action_of cfg) (d, replicate n2 Pass @ xs) = (Inr s, (d\<lparr>hState := Some s\<rparr>, xs))"
    using passes_stage [OF ok(1)] persist unfolding passes_def by blast
  let ?d1 = "d\<lparr>hRoot := new_action cfg fs # hRoot d, hState := Some (failure_state w cfg s ''install.sh'')\<rparr>"
  have "apply_staged cfg fs (d\<lparr>hState := Some s\<rparr>, [Pass, FailAfter]) = (Inl ''install.sh'', (d\<lparr>hState := Some s, hRoot := new_action cfg fs # hRoot d\<rparr>, []))"
    using ok by (auto simp: apply_staged_def run_installer_def syscall_def Let_def scripted) (simp add: backend_def)
  then have "run_apply w cfg (current_state d) man fs (result_of cfg man vr epoch) policy None (d, replicate n1 Pass @ replicate n2 Pass @ [Pass, FailAfter])
      = (Inl ''install.sh'', (?d1, []))"
    by (simp add: run_apply_def run_bindM_attempt n result_of_def failWith_def recordFailure_def persistAndReport_def ignoring_def syscall_def
        bindM_def attempt_def ret_def)
  then have run1: "run_loaded w cfg (current_state d) (d, replicate n1 Pass @ replicate n2 Pass @ [Pass, FailAfter]) = (Inl ''install.sh'', (?d1, []))"
    by (simp add: l)
  have "\<exists>script. fst (snd (run w cfg held (d, script))) = ?d1"
  proof (cases held)
    case None
    then have "run w cfg held (d, Pass # Pass # replicate n1 Pass @ replicate n2 Pass @ [Pass, FailAfter]) = (Inl ''install.sh'', (?d1, []))"
      using run0 run1 by (auto simp: run_def syscall_def LoadState_def scripted split: if_splits)
    then show ?thesis by (metis fst_conv snd_conv)
  next
    case (Some live)
    then have "run w cfg held (d, Pass # replicate n1 Pass @ replicate n2 Pass @ [Pass, FailAfter]) = (Inl ''install.sh'', (?d1, []))"
      using run0 run1 by (auto simp: run_def LoadState_def scripted split: if_splits)
    then show ?thesis by (metis fst_conv snd_conv)
  qed
  moreover have "asPendingApply (current_state ?d1) = Some (pending_of w cfg man epoch (action_of cfg) (sha256_hex c) sfp ofp)"
    by (simp add: s_def intent_state_def)
  then have "(\<exists>e. fst (run w' cfg' held' (?d1, script')) = Inl e) \<and> fst (snd (run w' cfg' held' (?d1, script'))) = ?d1" for w' cfg' held' script'
    by (rule unreadable_intent_blocks) (simp add: pending_of_def assms(6))
  moreover have "hRoot ?d1 = new_action cfg fs # hRoot d" by simp
  ultimately show ?thesis unfolding Let_def by metis
qed

section \<open>Witnesses\<close>

definition example_manifest :: "string \<Rightarrow> string" where
  "example_manifest at = json_text (JObj [(''node_id'', JStr ''a''), (''compiled_at'', JStr at), (''checksum'', JStr ''c'')])"

definition example_bundle_at :: "string \<Rightarrow> files" where
  "example_bundle_at at = fmupd ''checksums.sha256'' (Canonicalize example_files) (fmupd ''manifest.json'' (example_manifest at) example_files)"

definition example_agent :: agent_config where
  "example_agent = \<lparr>cfgNodeID = ''a'', cfgPinnedPubPEM = [], cfgOperatorCredPEM = [], cfgOperatorCredAlg = [], cfgOperatorRPID = [],
     cfgOperatorOrigin = [], cfgStagingDir = [], cfgInstallArgs = [], cfgSelfUpdate = None\<rparr>"

abbreviation example_surroundings :: "string \<Rightarrow> world" where
  "example_surroundings at \<equiv> example_world\<lparr>wFetch := Inr (example_bundle_at at)\<rparr>"

lemma example_paths: "PreflightBundleMaterialization (\<lambda>s. s) (example_bundle_at at)"
proof -
  let ?fs = "fmap_of_list [(''checksums.sha256'', []), (''manifest.json'', []), (''install.sh'', []), (''wireguard/wg0.conf'', [])] :: files"
  have dom: "fmdom (example_bundle_at at) = fmdom ?fs"
    by (simp add: example_bundle_at_def example_files_def)
  have "PreflightBundleMaterialization (\<lambda>s. s) ?fs" by code_simp
  then show ?thesis unfolding PreflightBundleMaterialization_def validateBundlePaths_def dom .
qed

lemma example_bundle_parts:
  "fmlookup (example_bundle_at at) ''manifest.json'' = Some (example_manifest at)"
  "fmlookup (example_bundle_at at) ''install.sh'' = Some ''wg-quick up wg0''"
  "fmlookup (example_bundle_at at) policyFileName = None" "fmlookup (example_bundle_at at) successorFileName = None"
  "fmlookup (example_bundle_at at) ''checksums.sha256'' = Some (Canonicalize example_files)"
  by (simp_all add: example_bundle_at_def example_files_def policyFileName_def successorFileName_def)

lemma example_bundle_verifies: "\<exists>r. VerifyBundle cr (example_bundle_at at) [] = Inr r"
  by (rule complete_bundle_verifies [OF example_files_facts(1)])
    (auto simp: example_bundle_at_def example_files_def trusted_names_def policyFileName_def successorFileName_def)

abbreviation example_at :: string where "example_at \<equiv> ''2026-01-01T00:00:00Z''"

lemma example_manifests:
  "parseManifest (example_manifest example_at) = Some \<lparr>miNodeID = ''a'', miCompiledAt = example_at, miChecksum = ''c''\<rparr>"
  "parseManifest (example_manifest '' 2026-01-01T00:00:00Z'') = Some \<lparr>miNodeID = ''a'', miCompiledAt = '' 2026-01-01T00:00:00Z'', miChecksum = ''c''\<rparr>"
  "ParseLayout example_at \<noteq> None" "ParseLayout '' 2026-01-01T00:00:00Z'' = None"
  "TrimSpace example_at = example_at" "TrimSpace '' 2026-01-01T00:00:00Z'' = example_at"
  "ParseLayout (FormatLayout 0) \<noteq> None" "TrimSpace ''a'' \<noteq> []"
  by code_simp+

lemma example_ready:
  assumes "parseManifest (example_manifest at) = Some man" "miNodeID man = ''a''" "TrimSpace (miCompiledAt man) = example_at"
  shows "ready (example_surroundings at) example_agent (example_bundle_at at) man 0 (current_state example_host)"
proof -
  have st: "current_state example_host = zero_state" by (simp add: example_host_def current_state_def)
  have "CheckRollback (effectiveRollbackState zero_state) (miCompiledAt man) = None"
    using assms(3) example_manifests(3) by (auto simp: CheckRollback_def effectiveRollbackState_def zero_state_def example_versions)
  then show ?thesis
    unfolding st using assms example_paths example_bundle_parts example_bundle_verifies
    by (simp add: accepts_def gated_def intent_ahead_def example_agent_def zero_state_def validateInstallArgs_def validatePendingApply_def
        VerifyMembership_def membership_of_def example_world_def candidateTelemetryPolicy_def Let_def validateCandidateAgainstPending_def
        fingerprint_of_def)
qed

lemma example_readiness:
  "ready (example_surroundings example_at) example_agent (example_bundle_at example_at) \<lparr>miNodeID = ''a'', miCompiledAt = example_at, miChecksum = ''c''\<rparr> 0
     (current_state example_host)"
  "ready (example_surroundings '' 2026-01-01T00:00:00Z'') example_agent (example_bundle_at '' 2026-01-01T00:00:00Z'')
     \<lparr>miNodeID = ''a'', miCompiledAt = '' 2026-01-01T00:00:00Z'', miChecksum = ''c''\<rparr> 0 (current_state example_host)"
  using example_ready [OF example_manifests(1)] example_ready [OF example_manifests(2)] example_manifests(5,6) by simp_all

lemma example_run:
  assumes "ready (example_surroundings at) example_agent (example_bundle_at at) man 0 (current_state d)"
  shows "\<exists>res d'. run (example_surroundings at) example_agent None (d, []) = (Inr (Completed res), (d', [])) \<and>
    hRoot d' = new_action example_agent (example_bundle_at at) # hRoot d"
  using run_clean [OF assms, of None] example_manifests(8) by (auto simp: example_agent_def)

lemma example_facts:
  "cfgSelfUpdate example_agent = None" "asPendingApply (current_state example_host) = None" "0 \<le> asMembershipEpoch (current_state example_host)"
  "hState example_host = None" "hRoot example_host = []"
  by (simp_all add: example_agent_def example_host_def current_state_def zero_state_def)


theorem spaced_compile_time_wedges_the_agent_witness:
  "\<exists>script. let d1 = fst (snd (run (example_surroundings '' 2026-01-01T00:00:00Z'') example_agent None (example_host, script)))
    in hRoot d1 = [new_action example_agent (example_bundle_at '' 2026-01-01T00:00:00Z'')] \<and>
       (\<forall>w' cfg' held' script'. (\<exists>e. fst (run w' cfg' held' (d1, script')) = Inl e) \<and> fst (snd (run w' cfg' held' (d1, script'))) = d1)"
proof -
  let ?w = "example_surroundings '' 2026-01-01T00:00:00Z''"
  obtain res d' where "run ?w example_agent None (example_host, []) = (Inr (Completed res), (d', []))"
    using example_run [OF example_readiness(2)] by blast
  then have r: "fst (run ?w example_agent None (example_host, [])) = Inr (Completed res)" by simp
  have "wFetch ?w = Inr (example_bundle_at '' 2026-01-01T00:00:00Z'')" by simp
  moreover have "ParseLayout (miCompiledAt \<lparr>miNodeID = ''a'', miCompiledAt = '' 2026-01-01T00:00:00Z'', miChecksum = ''c''\<rparr>) = None"
    unfolding manifest_info.select_convs by (rule example_manifests)
  ultimately show ?thesis
    using spaced_compile_time_wedges_the_agent [OF r _ example_facts(1) example_bundle_parts(1) example_manifests(2) _ example_facts(2)]
    unfolding manifest_info.select_convs example_facts by blast
qed

theorem root_actions_never_roll_back_witness:
  "\<exists>earlier later. hRoot (history [(Run (example_surroundings example_at) example_agent None, []),
       (Run (example_surroundings example_at) example_agent None, [])] example_host) = [later, earlier] \<and>
     admitted example_crypto later \<and> not_behind later earlier"
proof -
  let ?w = "example_surroundings example_at"
  let ?man = "\<lparr>miNodeID = ''a'', miCompiledAt = example_at, miChecksum = ''c''\<rparr>"
  let ?evs = "[(Run ?w example_agent None, []), (Run ?w example_agent None, [])]"
  obtain res d1 where d1: "run ?w example_agent None (example_host, []) = (Inr (Completed res), (d1, []))"
    "hRoot d1 = new_action example_agent (example_bundle_at example_at) # hRoot example_host"
    using example_run [OF example_readiness(1)] by blast
  have "readable_times ?w ?man" using example_manifests(3,7) by (simp add: readable_times_def example_world_def)
  from ready_run [OF example_readiness(1) this _ _ _ example_facts(1), of None "[]"]
  have "ready ?w example_agent (example_bundle_at example_at) ?man 0 (current_state d1)" using d1(1) by (simp add: same_source_def)
  from example_run [OF this] obtain res2 d2 where d2: "run ?w example_agent None (d1, []) = (Inr (Completed res2), (d2, []))"
    "hRoot d2 = new_action example_agent (example_bundle_at example_at) # hRoot d1" by blast
  have h: "hRoot (history ?evs example_host) = [new_action example_agent (example_bundle_at example_at), new_action example_agent (example_bundle_at example_at)]"
    using d1 d2 example_facts(5) by simp
  have "list_all (\<lambda>(ev, fs). event_crypto example_crypto ev) ?evs" by (simp add: example_world_def)
  from root_actions_never_roll_back [OF example_facts(4,5) this] show ?thesis unfolding h by simp
qed

end
