(* ===== verification/Spec2Isabelle.thy ===== *)
theory Spec2Isabelle
  imports Candidate Audit_File Keystone Self_Update_Recovery Agent_Retry
begin

text \<open>
  Verification of the YAOG controller (a WireGuard and Babel overlay generator): the storage port, the
  store core over it, and the components built on the store core.
\<close>

end
